(* ===== verification/Nbx_Prelude.thy ===== *)
theory Nbx_Prelude
  imports Main "HOL-Library.AList" "HOL-Library.Word" "HOL-Library.Monad_Syntax"
begin

text \<open>
  What every theory of the development shares: the shape of an effectful operation, the
  weakest-precondition style rules that its proofs use, and facts on lists and maps.

  An operation of the program that talks to the outside is a function
  \<open>h \<Rightarrow> ('r \<times> h) option\<close>: it takes the history of everything done so far, and returns
  its result with the longer history, or \<open>None\<close> when it does not return (a pagination loop
  that never ends). Such functions are composed with the do-notation of the option monad. A Go
  function that returns \<open>(T, error)\<close> has a result of type \<open>err + 'a\<close>.
\<close>

named_theorems holds_simps \<open>weakest preconditions of the composition operators\<close>
named_theorems hist_intros \<open>how a history grows\<close>

section \<open>Partial and total correctness of an operation\<close>

definition holds :: "('r \<Rightarrow> 'h \<Rightarrow> bool) \<Rightarrow> ('r \<times> 'h) option \<Rightarrow> bool" where
  "holds Q m = (case m of None \<Rightarrow> True | Some (r, h) \<Rightarrow> Q r h)"

definition returns :: "('r \<Rightarrow> 'h \<Rightarrow> bool) \<Rightarrow> ('r \<times> 'h) option \<Rightarrow> bool" where
  "returns Q m = (case m of None \<Rightarrow> False | Some (r, h) \<Rightarrow> Q r h)"

lemma holds_Some [simp, holds_simps]: "holds Q (Some (r, h)) = Q r h"
  by (simp add: holds_def)

lemma holds_Some_pair [holds_simps]: "holds Q (Some p) = Q (fst p) (snd p)"
  by (simp add: holds_def split: prod.splits)

lemma holds_None [simp, holds_simps]: "holds Q None"
  by (simp add: holds_def)

lemma holds_bind [holds_simps]:
  "holds Q (Option.bind m f) = holds (\<lambda>r h. holds Q (f (r, h))) m"
  by (cases m) (auto simp: holds_def split: prod.splits)

lemma holds_if [holds_simps]:
  "holds Q (if b then m else n) = ((b \<longrightarrow> holds Q m) \<and> (\<not> b \<longrightarrow> holds Q n))"
  by simp

lemma holdsI: "(\<And>r h. m = Some (r, h) \<Longrightarrow> Q r h) \<Longrightarrow> holds Q m"
  by (cases m) (auto simp: holds_def)

lemma holdsD: "holds Q m \<Longrightarrow> m = Some (r, h) \<Longrightarrow> Q r h"
  by (simp add: holds_def)

lemma holds_mono: "holds P m \<Longrightarrow> (\<And>r h. P r h \<Longrightarrow> Q r h) \<Longrightarrow> holds Q m"
  by (auto simp: holds_def split: option.splits)

lemma holds_conj: "holds P m \<Longrightarrow> holds Q m \<Longrightarrow> holds (\<lambda>r h. P r h \<and> Q r h) m"
  by (auto simp: holds_def split: option.splits)

text \<open>The run itself, as a fact about its result.\<close>

lemma holds_run: "holds (\<lambda>r h. m = Some (r, h)) m"
  by (auto simp: holds_def split: option.splits)

lemma holds_conjD: "holds (\<lambda>r h. P r h \<and> Q r h) m \<Longrightarrow> holds P m \<and> holds Q m"
  by (auto simp: holds_def split: option.splits)

lemma returns_Some [simp, holds_simps]: "returns Q (Some (r, h)) = Q r h"
  by (simp add: returns_def)

lemma returns_None [simp, holds_simps]: "\<not> returns Q None"
  by (simp add: returns_def)

lemma returns_bind [holds_simps]:
  "returns Q (Option.bind m f) = returns (\<lambda>r h. returns Q (f (r, h))) m"
  by (cases m) (auto simp: returns_def split: prod.splits)

lemma returns_mono: "returns P m \<Longrightarrow> (\<And>r h. P r h \<Longrightarrow> Q r h) \<Longrightarrow> returns Q m"
  by (auto simp: returns_def split: option.splits)

lemma returns_iff: "returns Q m \<longleftrightarrow> (\<exists>r h. m = Some (r, h) \<and> Q r h)"
  by (cases m) (auto simp: returns_def)

lemma returns_holds: "returns P m \<Longrightarrow> holds Q m \<Longrightarrow> returns (\<lambda>r h. P r h \<and> Q r h) m"
  by (auto simp: holds_def returns_def split: option.splits)

section \<open>Histories\<close>

text \<open>
  \<open>grows P h h'\<close>: the history \<open>h'\<close> continues \<open>h\<close>, and each event added satisfies \<open>P\<close>.
\<close>

definition grows :: "('e \<Rightarrow> bool) \<Rightarrow> 'e list \<Rightarrow> 'e list \<Rightarrow> bool" where
  "grows P h h' \<longleftrightarrow> (\<exists>t. h' = h @ t \<and> list_all P t)"

lemma grows_refl [simp, hist_intros]: "grows P h h"
  by (simp add: grows_def)

lemma grows_append [simp]: "grows P h (h @ t) = list_all P t"
  by (simp add: grows_def)

lemma grows_trans: "grows P h h1 \<Longrightarrow> grows P h1 h2 \<Longrightarrow> grows P h h2"
  by (auto simp: grows_def)

lemma grows_mono: "grows P h h' \<Longrightarrow> (\<And>e. P e \<Longrightarrow> Q e) \<Longrightarrow> grows Q h h'"
  by (auto simp: grows_def list_all_iff)

lemma grows_snoc_trans: "grows P h h1 \<Longrightarrow> P e \<Longrightarrow> grows P h (h1 @ [e])"
  by (auto simp: grows_def)

text \<open>The events added between two points of a run.\<close>

definition added :: "'e list \<Rightarrow> 'e list \<Rightarrow> 'e list" where
  "added h h' = drop (length h) h'"

lemma added_append [simp]: "added h (h @ t) = t"
  by (simp add: added_def)

lemma added_append_append [simp]: "added (h @ t) (h @ t @ u) = u"
  by (simp add: added_def)

lemma added_Nil [simp]: "added [] h = h"
  by (simp add: added_def)

lemma added_self [simp]: "added h h = []"
  by (simp add: added_def)

lemma grows_added: "grows P h h' \<longleftrightarrow> h' = h @ added h h' \<and> list_all P (added h h')"
  by (auto simp: grows_def)

lemma added_trans:
  "grows P h h1 \<Longrightarrow> grows Q h1 h2 \<Longrightarrow> added h h2 = added h h1 @ added h1 h2"
  by (auto simp: grows_def)

section \<open>Lists\<close>

lemma list_all2_map_right: "list_all2 P xs (map f ys) = list_all2 (\<lambda>x y. P x (f y)) xs ys"
  by (simp add: list.rel_map)

lemma find_SomeD: "List.find P xs = Some x \<Longrightarrow> x \<in> set xs \<and> P x"
  by (induction xs) (auto split: if_splits)

lemma find_NoneD: "List.find P xs = None \<Longrightarrow> x \<in> set xs \<Longrightarrow> \<not> P x"
  by (induction xs) (auto split: if_splits)

lemma dropWhile_rev_last:
  "dropWhile P (rev xs) = c # cs \<Longrightarrow> \<not> P c"
  by (metis dropWhile_eq_Cons_conv)

end
