(* ===== verification/Go_Strings.thy ===== *)
theory Go_Strings
  imports Nbx_Prelude "HOL-Library.Char_ord"
begin

text \<open>
  The functions of Go's packages \<open>strings\<close>, \<open>strconv\<close> and \<open>unicode/utf8\<close> that the program
  calls. A Go string is a list of bytes, which is what \<open>string\<close> is here: a character beyond
  ASCII is its UTF-8 encoding. The Unicode tables of package \<open>unicode\<close> beyond ASCII are a
  parameter (\<open>unicode_tables\<close>); everything else is defined and executable.
\<close>

section \<open>Bytes\<close>

definition byte :: "char \<Rightarrow> nat" where
  "byte c = of_char c"

definition is_upper :: "char \<Rightarrow> bool" where
  "is_upper c = (CHR ''A'' \<le> c \<and> c \<le> CHR ''Z'')"

definition is_lower :: "char \<Rightarrow> bool" where
  "is_lower c = (CHR ''a'' \<le> c \<and> c \<le> CHR ''z'')"

definition is_digit :: "char \<Rightarrow> bool" where
  "is_digit c = (CHR ''0'' \<le> c \<and> c \<le> CHR ''9'')"

definition is_ascii :: "char \<Rightarrow> bool" where
  "is_ascii c = (c \<le> CHR 0x7F)"

definition lower_byte :: "char \<Rightarrow> char" where
  "lower_byte c = (if is_upper c then char_of (byte c + 32) else c)"

section \<open>strings.HasPrefix, Contains, Split, Join\<close>

definition has_prefix :: "string \<Rightarrow> string \<Rightarrow> bool" where
  "has_prefix s p = (take (length p) s = p)"

fun str_contains :: "string \<Rightarrow> string \<Rightarrow> bool" where
  "str_contains [] p = (p = [])"
| "str_contains (c # s) p = (has_prefix (c # s) p \<or> str_contains s p)"

fun split_on :: "char \<Rightarrow> string \<Rightarrow> string list" where
  "split_on d [] = [[]]"
| "split_on d (c # s) =
     (if c = d then [] # split_on d s
      else case split_on d s of [] \<Rightarrow> [[c]] | p # ps \<Rightarrow> (c # p) # ps)"

text \<open>\<open>strings.Cut\<close> at the first occurrence of a byte; \<open>strings.SplitN(s, sep, 2)\<close> has two
  parts just when it finds one.\<close>

fun cut_at :: "char \<Rightarrow> string \<Rightarrow> (string \<times> string) option" where
  "cut_at d [] = None"
| "cut_at d (c # s) =
     (if c = d then Some ([], s)
      else case cut_at d s of None \<Rightarrow> None | Some (a, b) \<Rightarrow> Some (c # a, b))"

fun join_with :: "string \<Rightarrow> string list \<Rightarrow> string" where
  "join_with sep [] = []"
| "join_with sep [s] = s"
| "join_with sep (s # ss) = s @ sep @ join_with sep ss"

definition trim_right_byte :: "char \<Rightarrow> string \<Rightarrow> string" where
  "trim_right_byte d s = rev (dropWhile (\<lambda>c. c = d) (rev s))"

definition trim_set :: "string \<Rightarrow> string \<Rightarrow> string" where
  "trim_set cs s =
     rev (dropWhile (\<lambda>c. c \<in> set cs) (rev (dropWhile (\<lambda>c. c \<in> set cs) s)))"

lemma has_prefix_append [simp]: "has_prefix (p @ s) p"
  by (simp add: has_prefix_def)

lemma str_contains_mid: "str_contains (a @ p @ b) p"
proof (induction a)
  case Nil
  show ?case by (cases p; cases b) (auto simp: has_prefix_def)
next
  case (Cons x a)
  then show ?case by simp
qed

lemma split_on_nonempty [simp]: "split_on d s \<noteq> []"
  by (induction s) (auto split: list.splits)

lemma split_on_free: "p \<in> set (split_on d s) \<Longrightarrow> d \<notin> set p"
proof (induction s arbitrary: p)
  case Nil
  then show ?case by simp
next
  case (Cons c s)
  then show ?case
    by (cases "split_on d s") (auto split: if_splits)
qed

lemma split_on_no_sep: "d \<notin> set s \<Longrightarrow> split_on d s = [s]"
  by (induction s) auto

lemma split_on_append: "d \<notin> set s \<Longrightarrow> split_on d (s @ d # t) = s # split_on d t"
  by (induction s) auto

lemma split_on_join:
  "ss \<noteq> [] \<Longrightarrow> (\<And>s. s \<in> set ss \<Longrightarrow> d \<notin> set s) \<Longrightarrow> split_on d (join_with [d] ss) = ss"
proof (induction ss)
  case Nil
  then show ?case by simp
next
  case (Cons s ss)
  then show ?case by (cases ss) (auto simp: split_on_append split_on_no_sep)
qed

lemma cut_at_Some: "cut_at d s = Some (a, b) \<longleftrightarrow> s = a @ d # b \<and> d \<notin> set a"
proof (induction s arbitrary: a b)
  case Nil
  then show ?case by simp
next
  case (Cons c s)
  note IH = Cons.IH
  show ?case
  proof (cases a)
    case Nil
    then show ?thesis by (auto split: option.splits)
  next
    case (Cons x a')
    have "cut_at d (c # s) = Some (x # a', b) \<longleftrightarrow> c \<noteq> d \<and> x = c \<and> cut_at d s = Some (a', b)"
      by (auto split: option.splits)
    with Cons show ?thesis using IH by auto
  qed
qed

lemma cut_at_None: "cut_at d s = None \<longleftrightarrow> d \<notin> set s"
  by (induction s) (auto split: option.splits)

section \<open>strings.TrimSpace\<close>

text \<open>
  The white space of \<open>unicode.IsSpace\<close>: six ASCII bytes and the UTF-8 encodings of U+0085,
  U+00A0, U+1680, U+2000..U+200A, U+2028, U+2029, U+202F, U+205F and U+3000.
\<close>

definition space1 :: "char \<Rightarrow> bool" where
  "space1 c = (c \<in> set [CHR 0x20, CHR 0x09, CHR 0x0A, CHR 0x0B, CHR 0x0C, CHR 0x0D])"

definition space2 :: "char \<Rightarrow> char \<Rightarrow> bool" where
  "space2 c d = (c = CHR 0xC2 \<and> (d = CHR 0x85 \<or> d = CHR 0xA0))"

definition space3 :: "char \<Rightarrow> char \<Rightarrow> char \<Rightarrow> bool" where
  "space3 c d e =
     ((c = CHR 0xE1 \<and> d = CHR 0x9A \<and> e = CHR 0x80) \<or>
      (c = CHR 0xE2 \<and> d = CHR 0x80 \<and>
        ((CHR 0x80 \<le> e \<and> e \<le> CHR 0x8A) \<or> e = CHR 0xA8 \<or> e = CHR 0xA9 \<or> e = CHR 0xAF)) \<or>
      (c = CHR 0xE2 \<and> d = CHR 0x81 \<and> e = CHR 0x9F) \<or>
      (c = CHR 0xE3 \<and> d = CHR 0x80 \<and> e = CHR 0x80))"

text \<open>Drop white space from the front; and from the front of a reversed string.\<close>

fun trim_left :: "string \<Rightarrow> string" where
  "trim_left (c # d # e # s) =
     (if space1 c then trim_left (d # e # s)
      else if space2 c d then trim_left (e # s)
      else if space3 c d e then trim_left s
      else c # d # e # s)"
| "trim_left [c, d] =
     (if space1 c then trim_left [d] else if space2 c d then [] else [c, d])"
| "trim_left [c] = (if space1 c then [] else [c])"
| "trim_left [] = []"

fun trim_left_rev :: "string \<Rightarrow> string" where
  "trim_left_rev (c # d # e # s) =
     (if space1 c then trim_left_rev (d # e # s)
      else if space2 d c then trim_left_rev (e # s)
      else if space3 e d c then trim_left_rev s
      else c # d # e # s)"
| "trim_left_rev [c, d] =
     (if space1 c then trim_left_rev [d] else if space2 d c then [] else [c, d])"
| "trim_left_rev [c] = (if space1 c then [] else [c])"
| "trim_left_rev [] = []"

definition trim_space :: "string \<Rightarrow> string" where
  "trim_space s = rev (trim_left_rev (rev (trim_left s)))"

lemma trim_left_suffix: "\<exists>p. s = p @ trim_left s"
proof (induction s rule: trim_left.induct)
  case (1 c d e s)
  show ?case
  proof -
    consider "space1 c" | "\<not> space1 c" "space2 c d" | "\<not> space1 c" "\<not> space2 c d" "space3 c d e"
      | "\<not> space1 c" "\<not> space2 c d" "\<not> space3 c d e" by blast
    then show ?thesis
    proof cases
      case 1
      with "1.IH"(1) obtain p where "d # e # s = p @ trim_left (d # e # s)" by blast
      then have "c # d # e # s = (c # p) @ trim_left (d # e # s)" by simp
      with 1 show ?thesis by (metis trim_left.simps(1))
    next
      case 2
      with "1.IH"(2) obtain p where "e # s = p @ trim_left (e # s)" by blast
      then have "c # d # e # s = (c # d # p) @ trim_left (e # s)" by simp
      with 2 show ?thesis by (metis trim_left.simps(1))
    next
      case 3
      with "1.IH"(3) obtain p where "s = p @ trim_left s" by blast
      then have "c # d # e # s = (c # d # e # p) @ trim_left s" by simp
      with 3 show ?thesis by (metis trim_left.simps(1))
    next
      case 4
      then show ?thesis by simp
    qed
  qed
qed auto

lemma trim_left_rev_suffix: "\<exists>p. s = p @ trim_left_rev s"
proof (induction s rule: trim_left_rev.induct)
  case (1 c d e s)
  show ?case
  proof -
    consider "space1 c" | "\<not> space1 c" "space2 d c" | "\<not> space1 c" "\<not> space2 d c" "space3 e d c"
      | "\<not> space1 c" "\<not> space2 d c" "\<not> space3 e d c" by blast
    then show ?thesis
    proof cases
      case 1
      with "1.IH"(1) obtain p where "d # e # s = p @ trim_left_rev (d # e # s)" by blast
      then have "c # d # e # s = (c # p) @ trim_left_rev (d # e # s)" by simp
      with 1 show ?thesis by (metis trim_left_rev.simps(1))
    next
      case 2
      with "1.IH"(2) obtain p where "e # s = p @ trim_left_rev (e # s)" by blast
      then have "c # d # e # s = (c # d # p) @ trim_left_rev (e # s)" by simp
      with 2 show ?thesis by (metis trim_left_rev.simps(1))
    next
      case 3
      with "1.IH"(3) obtain p where "s = p @ trim_left_rev s" by blast
      then have "c # d # e # s = (c # d # e # p) @ trim_left_rev s" by simp
      with 3 show ?thesis by (metis trim_left_rev.simps(1))
    next
      case 4
      then show ?thesis by simp
    qed
  qed
qed auto

lemma trim_left_idem [simp]: "trim_left (trim_left s) = trim_left s"
  by (induction s rule: trim_left.induct) auto

lemma trim_left_rev_idem [simp]: "trim_left_rev (trim_left_rev s) = trim_left_rev s"
  by (induction s rule: trim_left_rev.induct) auto

lemma trim_left_length: "length (trim_left s) \<le> length s"
  by (metis trim_left_suffix le_add2 length_append)

text \<open>A string that starts with no white space starts with none when it is cut short.\<close>

lemma trim_left_fixed_prefix:
  assumes "trim_left (p @ q) = p @ q"
  shows "trim_left p = p"
proof -
  have neq: "trim_left t \<noteq> u @ t" if "u \<noteq> []" for t u
    using trim_left_length [of t] that by (metis append_Nil append_eq_append_conv le_antisym
        length_append le_add2 self_append_conv2)
  show ?thesis
  proof (cases p rule: trim_left.cases)
    case (1 c d e s)
    then show ?thesis
      using assms neq [of "[c]" "d # e # s @ q"] neq [of "[c, d]" "e # s @ q"]
        neq [of "[c, d, e]" "s @ q"] by (auto split: if_splits)
  next
    case (2 c d)
    then show ?thesis
      using assms neq [of "[c]" "d # q"] neq [of "[c, d]" q]
      by (cases q) (auto split: if_splits)
  next
    case (3 c)
    then show ?thesis
      using assms neq [of "[c]" q] by (cases q rule: trim_left.cases) (auto split: if_splits)
  qed simp
qed

lemma trim_space_idem [simp]: "trim_space (trim_space s) = trim_space s"
proof -
  obtain p where "rev (trim_left s) = p @ trim_left_rev (rev (trim_left s))"
    using trim_left_rev_suffix by blast
  then have "trim_left s = trim_space s @ rev p"
    by (metis rev_append rev_rev_ident trim_space_def)
  then have "trim_left (trim_space s) = trim_space s"
    by (metis trim_left_fixed_prefix trim_left_idem)
  then show ?thesis by (simp add: trim_space_def)
qed

lemma trim_space_Nil [simp]: "trim_space [] = []"
  by (simp add: trim_space_def)

lemma trim_space_infix: "\<exists>a b. s = a @ trim_space s @ b"
proof -
  obtain a where a: "s = a @ trim_left s" using trim_left_suffix by blast
  obtain p where "rev (trim_left s) = p @ trim_left_rev (rev (trim_left s))"
    using trim_left_rev_suffix by blast
  then have "trim_left s = trim_space s @ rev p"
    by (metis rev_append rev_rev_ident trim_space_def)
  with a show ?thesis by metis
qed

lemma set_trim_space: "set (trim_space s) \<subseteq> set s"
  by (metis trim_space_infix Un_upper1 Un_upper2 dual_order.trans set_append)

text \<open>Visible ASCII is never trimmed.\<close>

definition is_graphic :: "char \<Rightarrow> bool" where
  "is_graphic c = (CHR 0x21 \<le> c \<and> c \<le> CHR 0x7E)"

lemma not_graphic_high: "is_graphic c \<Longrightarrow> \<not> CHR 0x80 \<le> c"
  by (auto simp: is_graphic_def dest: order_trans)

lemma graphic_not_space:
  "is_graphic c \<Longrightarrow> \<not> space1 c"
  "is_graphic c \<Longrightarrow> \<not> space2 c d" "is_graphic c \<Longrightarrow> \<not> space2 d c"
  "is_graphic c \<Longrightarrow> \<not> space3 c d e" "is_graphic c \<Longrightarrow> \<not> space3 e d c"
  by (auto simp: space1_def space2_def space3_def dest: not_graphic_high)
     (auto simp: is_graphic_def)

lemma trim_left_graphic: "is_graphic c \<Longrightarrow> trim_left (c # s) = c # s"
  by (cases "c # s" rule: trim_left.cases) (auto simp: graphic_not_space)

lemma trim_left_rev_graphic: "is_graphic c \<Longrightarrow> trim_left_rev (c # s) = c # s"
  by (cases "c # s" rule: trim_left_rev.cases) (auto simp: graphic_not_space)

lemma trim_space_graphic:
  assumes "\<And>c. c \<in> set s \<Longrightarrow> is_graphic c"
  shows "trim_space s = s"
proof (cases s)
  case (Cons c t)
  then have "trim_left s = s" using assms by (simp add: trim_left_graphic)
  moreover have "trim_left_rev (rev s) = rev s"
  proof (cases "rev s")
    case (Cons d u)
    then have "d \<in> set s" by (metis list.set_intros(1) set_rev)
    then show ?thesis using assms Cons by (simp add: trim_left_rev_graphic)
  qed simp
  ultimately show ?thesis by (simp add: trim_space_def)
qed simp

end
