(* ===== verification/Nbx_Errors.thy ===== *)
theory Nbx_Errors
  imports Go_Strings
begin

text \<open>
  Go errors as values. \<open>Errorf fmt args\<close> is \<open>errors.New\<close> or \<open>fmt.Errorf\<close> with no wrapped
  error, \<open>Wrapf fmt args e\<close> is \<open>fmt.Errorf\<close> with one \<open>%w\<close> and \<open>errors.Wrap\<close>:
  \<open>errors.As\<close> and \<open>errors.Is\<close> look through it. \<open>APIError\<close> and \<open>ErrNoAvailableIP\<close> are
  \<open>*apiError\<close> and the sentinel of internal/netbox/client.go. An error that comes from outside
  the program (Kubernetes, the HTTP transport, the Go library) is \<open>Ext\<close> of an
  \<open>ext_err\<close>, so the outside cannot make up an \<open>*apiError\<close>, whose Go type is unexported.
\<close>

datatype ext_err =
  NotFoundErr string      \<comment> \<open>a Kubernetes StatusError with reason NotFound\<close>
| AlreadyOwnedErr         \<comment> \<open>controllerutil.AlreadyOwnedError\<close>
| OtherErr string

datatype err =
  Errorf string "string list"
| Wrapf string "string list" err
| APIError int string string
| ErrNoAvailableIP
| Ext ext_err
| Aggregate "err list"

text \<open>\<open>errors.As(err, &apiErr)\<close>: status code, status line and body of the first
  \<open>*apiError\<close> in the chain.\<close>

fun as_apiError :: "err \<Rightarrow> (int \<times> string \<times> string) option" where
  "as_apiError (APIError c s b) = Some (c, s, b)"
| "as_apiError (Wrapf f a e) = as_apiError e"
| "as_apiError _ = None"

text \<open>\<open>errors.Is(err, ErrNoAvailableIP)\<close>.\<close>

fun is_ErrNoAvailableIP :: "err \<Rightarrow> bool" where
  "is_ErrNoAvailableIP ErrNoAvailableIP = True"
| "is_ErrNoAvailableIP (Wrapf f a e) = is_ErrNoAvailableIP e"
| "is_ErrNoAvailableIP _ = False"

text \<open>\<open>apierrors.IsNotFound\<close> and \<open>errors.As\<close> for \<open>AlreadyOwnedError\<close>.\<close>

fun is_NotFound :: "err \<Rightarrow> bool" where
  "is_NotFound (Ext (NotFoundErr s)) = True"
| "is_NotFound (Wrapf f a e) = is_NotFound e"
| "is_NotFound _ = False"

fun is_AlreadyOwned :: "err \<Rightarrow> bool" where
  "is_AlreadyOwned (Ext AlreadyOwnedErr) = True"
| "is_AlreadyOwned (Wrapf f a e) = is_AlreadyOwned e"
| "is_AlreadyOwned _ = False"

text \<open>\<open>apiError.Error()\<close>, for its status line and body.\<close>

definition apiError_Error :: "string \<Rightarrow> string \<Rightarrow> string" where
  "apiError_Error status raw =
     (let body = trim_space raw in
      if body = [] then status else status @ '': '' @ body)"

definition SanitizedError :: "err \<Rightarrow> err" where
  "SanitizedError e =
     (case as_apiError e of
        Some (code, status, body) \<Rightarrow> Errorf ''NetBox request failed: %s'' [status]
      | None \<Rightarrow> e)"

text \<open>\<open>ignoreNotFound\<close> of the pool controller and \<open>client.IgnoreNotFound\<close>.\<close>

definition ignoreNotFound :: "err \<Rightarrow> err option" where
  "ignoreNotFound e = (if is_NotFound e then None else Some e)"

text \<open>Whether an \<open>*apiError\<close>, with its response body, is reachable inside an error.\<close>

fun api_free :: "err \<Rightarrow> bool" where
  "api_free (APIError c s b) = False"
| "api_free (Wrapf f a e) = api_free e"
| "api_free (Aggregate es) = (\<forall>e \<in> set es. api_free e)"
| "api_free _ = True"

text \<open>An error with no aggregate in it; the NetBox client and the claim handler build only
  these.\<close>

fun chain_only :: "err \<Rightarrow> bool" where
  "chain_only (Aggregate es) = False"
| "chain_only (Wrapf f a e) = chain_only e"
| "chain_only _ = True"

text \<open>An error of the client other than the sentinel.\<close>

definition client_err :: "err \<Rightarrow> bool" where
  "client_err e \<longleftrightarrow> chain_only e \<and> \<not> is_ErrNoAvailableIP e"

lemma client_err_simps [simp]:
  "client_err (Errorf f a)" "client_err (APIError c s b)" "client_err (Ext x)"
  "client_err (Wrapf f a e) = client_err e" "\<not> client_err ErrNoAvailableIP"
  "\<not> client_err (Aggregate es)"
  by (auto simp: client_err_def)

lemma client_err_chain: "client_err e \<Longrightarrow> chain_only e"
  by (simp add: client_err_def)

lemma as_apiError_None: "chain_only e \<Longrightarrow> as_apiError e = None \<Longrightarrow> api_free e"
  by (induction e) auto

lemma SanitizedError_api_free: "chain_only e \<Longrightarrow> api_free (SanitizedError e)"
  by (auto simp: SanitizedError_def as_apiError_None split: option.splits)

lemma SanitizedError_idem: "SanitizedError (SanitizedError e) = SanitizedError e"
  by (auto simp: SanitizedError_def split: option.splits)

text \<open>Rewriting every response body inside an error.\<close>

fun map_body :: "(string \<Rightarrow> string) \<Rightarrow> err \<Rightarrow> err" where
  "map_body f (APIError c s b) = APIError c s (f b)"
| "map_body f (Wrapf t a e) = Wrapf t a (map_body f e)"
| "map_body f (Aggregate es) = Aggregate (map (map_body f) es)"
| "map_body f e = e"

lemma as_apiError_map_body:
  "as_apiError (map_body f e) = map_option (\<lambda>(c, s, b). (c, s, f b)) (as_apiError e)"
  by (induction e) auto

lemma map_body_api_free: "api_free e \<Longrightarrow> map_body f e = e"
  by (induction e) (auto simp: map_idI)

lemma SanitizedError_map_body:
  "chain_only e \<Longrightarrow> SanitizedError (map_body f e) = SanitizedError e"
  by (auto simp: SanitizedError_def as_apiError_map_body as_apiError_None map_body_api_free
      split: option.splits)

end
