(* ===== verification/Go_Strconv.thy ===== *)
theory Go_Strconv
  imports Go_Strings
begin

text \<open>
  Package \<open>strconv\<close>: \<open>ParseInt\<close> in base 10, \<open>FormatInt\<close> and \<open>ParseBool\<close>. Go's \<open>int32\<close> is
  a 32-bit word read as two's complement by \<open>sint\<close>. The error of a failed parse carries no
  information the program looks at, so a failure is \<open>None\<close>.
\<close>

type_synonym int32 = "32 word"

definition digit_val :: "char \<Rightarrow> nat" where
  "digit_val c = byte c - 48"

definition digit_char :: "nat \<Rightarrow> char" where
  "digit_char n = char_of (48 + n)"

fun parse_digits :: "nat \<Rightarrow> string \<Rightarrow> nat option" where
  "parse_digits acc [] = Some acc"
| "parse_digits acc (c # s) =
     (if is_digit c then parse_digits (10 * acc + digit_val c) s else None)"

definition parse_int :: "nat \<Rightarrow> string \<Rightarrow> int option" where
  "parse_int bits s =
     (case s of
        [] \<Rightarrow> None
      | c # t \<Rightarrow>
          (let neg = (c = CHR ''-'');
               ds = (if c = CHR ''-'' \<or> c = CHR ''+'' then t else s)
           in if ds = [] then None
              else case parse_digits 0 ds of
                None \<Rightarrow> None
              | Some v \<Rightarrow>
                  if neg then (if v \<le> 2 ^ (bits - 1) then Some (- int v) else None)
                  else (if v < 2 ^ (bits - 1) then Some (int v) else None)))"

fun show_nat :: "nat \<Rightarrow> string" where
  "show_nat n = (if n < 10 then [digit_char n] else show_nat (n div 10) @ [digit_char (n mod 10)])"

declare show_nat.simps [simp del]

definition show_int :: "int \<Rightarrow> string" where
  "show_int i = (if i < 0 then CHR ''-'' # show_nat (nat (- i)) else show_nat (nat i))"

definition show_int32 :: "int32 \<Rightarrow> string" where
  "show_int32 w = show_int (sint w)"

definition parse_bool :: "string \<Rightarrow> bool option" where
  "parse_bool s =
     (if s \<in> set [''1'', ''t'', ''T'', ''TRUE'', ''true'', ''True''] then Some True
      else if s \<in> set [''0'', ''f'', ''F'', ''FALSE'', ''false'', ''False''] then Some False
      else None)"

lemma digit_char_digit: "n < 10 \<Longrightarrow> is_digit (digit_char n)"
  by (simp add: is_digit_def digit_char_def less_eq_char_def)

lemma digit_val_char: "n < 10 \<Longrightarrow> digit_val (digit_char n) = n"
  by (simp add: digit_val_def digit_char_def byte_def)

lemma parse_digits_append:
  "parse_digits acc (s @ t) =
     (case parse_digits acc s of None \<Rightarrow> None | Some a \<Rightarrow> parse_digits a t)"
  by (induction acc s rule: parse_digits.induct) auto

lemma parse_digits_digits: "parse_digits acc s = Some v \<Longrightarrow> c \<in> set s \<Longrightarrow> is_digit c"
  by (induction acc s rule: parse_digits.induct) (auto split: if_splits)

lemma show_nat_nonempty [simp]: "show_nat n \<noteq> []"
  by (subst show_nat.simps) simp

lemma show_nat_digits: "c \<in> set (show_nat n) \<Longrightarrow> is_digit c"
proof (induction n rule: show_nat.induct)
  case (1 n)
  show ?case
  proof (cases "n < 10")
    case True
    with "1.prems" show ?thesis
      by (subst (asm) show_nat.simps) (simp add: digit_char_digit)
  next
    case False
    with "1.prems" have "c \<in> set (show_nat (n div 10)) \<or> c = digit_char (n mod 10)"
      by (subst (asm) show_nat.simps) auto
    then show ?thesis using "1.IH" False by (auto simp: digit_char_digit)
  qed
qed

lemma parse_show_nat: "parse_digits 0 (show_nat n) = Some n"
proof (induction n rule: show_nat.induct)
  case (1 n)
  show ?case
  proof (cases "n < 10")
    case True
    then show ?thesis
      by (subst show_nat.simps) (simp add: digit_char_digit digit_val_char)
  next
    case False
    then show ?thesis using "1.IH"
      by (subst show_nat.simps)
        (simp add: parse_digits_append digit_char_digit digit_val_char)
  qed
qed

lemma digit_not_sign: "is_digit c \<Longrightarrow> c \<noteq> CHR ''-'' \<and> c \<noteq> CHR ''+'' \<and> c \<noteq> CHR ''.'' \<and> c \<noteq> CHR ''/''"
  by (auto simp: is_digit_def)

lemma show_nat_hd: "\<exists>c s. show_nat n = c # s \<and> is_digit c"
  by (metis list.exhaust list.set_intros(1) show_nat_digits show_nat_nonempty)

text \<open>Formatting and parsing are inverse on the range of the width.\<close>

lemma parse_show_int:
  assumes "- (2 ^ (bits - 1)) \<le> i" "i < 2 ^ (bits - 1)"
  shows "parse_int bits (show_int i) = Some i"
proof (cases "i < 0")
  case True
  then have "nat (- i) \<le> 2 ^ (bits - 1)"
    using assms(1) by (simp add: nat_le_iff)
  with True show ?thesis
    by (simp add: parse_int_def show_int_def parse_show_nat)
next
  case False
  obtain c s where cs: "show_nat (nat i) = c # s" "is_digit c"
    using show_nat_hd by blast
  have "nat i < 2 ^ (bits - 1)"
    using assms(2) False by (simp add: nat_less_iff)
  with False cs show ?thesis
    using parse_show_nat [of "nat i"] digit_not_sign [of c]
    by (simp add: parse_int_def show_int_def)
qed

lemma parse_int_range:
  assumes "parse_int bits s = Some i"
  shows "- (2 ^ (bits - 1)) \<le> i \<and> i < 2 ^ (bits - 1)"
proof -
  from assms obtain v where
    "(i = - int v \<and> v \<le> 2 ^ (bits - 1)) \<or> (i = int v \<and> v < 2 ^ (bits - 1))"
    by (auto simp: parse_int_def Let_def split: list.splits if_splits option.splits)
  moreover have "int v \<le> 2 ^ (bits - 1) \<longleftrightarrow> v \<le> 2 ^ (bits - 1)"
    by (metis of_nat_le_iff of_nat_numeral of_nat_power)
  moreover have "int v < 2 ^ (bits - 1) \<longleftrightarrow> v < 2 ^ (bits - 1)"
    by (metis of_nat_less_iff of_nat_numeral of_nat_power)
  moreover have "- (2 ^ (bits - 1)) \<le> int v" "- int v < 2 ^ (bits - 1)"
    by (smt (verit) of_nat_0_le_iff zero_less_power)+
  ultimately show ?thesis by auto
qed

lemma parse_int_out_of_range:
  "2 ^ (bits - 1) \<le> i \<Longrightarrow> parse_int bits (show_int i) = None"
proof -
  assume le: "2 ^ (bits - 1) \<le> i"
  then have pos: "\<not> i < 0"
    by (meson leD less_le_trans not_less zero_le_numeral zero_le_power)
  obtain c s where cs: "show_nat (nat i) = c # s" "is_digit c"
    using show_nat_hd by blast
  have "\<not> nat i < 2 ^ (bits - 1)"
    using le pos by (simp add: nat_less_iff)
  with pos cs show ?thesis
    using parse_show_nat [of "nat i"] digit_not_sign [of c]
    by (simp add: parse_int_def show_int_def)
qed

lemma parse_show_int32: "parse_int 32 (show_int32 w) = Some (sint w)"
  unfolding show_int32_def
  by (rule parse_show_int) (use sint_range_size [of w] in \<open>auto simp: word_size\<close>)

lemma show_int32_no_slash: "CHR ''/'' \<notin> set (show_int32 w)"
  by (auto simp: show_int32_def show_int_def dest: show_nat_digits digit_not_sign)

end
