(* ===== verification/Kube_Types.thy ===== *)
theory Kube_Types
  imports Nbx_Errors Go_Strconv
begin

text \<open>
  The Kubernetes and Cluster API objects the program reads and writes, with the fields it uses:
  object metadata, owner references, conditions, \<open>IPAddressClaim\<close>, \<open>IPAddress\<close> and
  \<open>Cluster\<close>. A Go map is an association list with one entry per key, updated by
  \<open>AList.update\<close>; a pointer is an option.
\<close>

type_synonym int64 = "64 word"
type_synonym str_map = "(string \<times> string) list"

record gvk =
  gvk_Group :: string
  gvk_Version :: string
  gvk_Kind :: string

record owner_ref =
  or_APIVersion :: string
  or_Kind :: string
  or_Name :: string
  or_UID :: string
  or_Controller :: "bool option"
  or_BlockOwnerDeletion :: "bool option"

record object_meta =
  om_Name :: string
  om_Namespace :: string
  om_UID :: string
  om_Generation :: int64
  om_Labels :: str_map
  om_Annotations :: str_map
  om_Finalizers :: "string list"
  om_OwnerReferences :: "owner_ref list"
  om_Deleting :: bool    \<comment> \<open>DeletionTimestamp is set\<close>

text \<open>The message of a condition is a text, or the text \<open>err.Error()\<close> of an error value.\<close>

datatype message = MsgText string | MsgErr err

datatype cond_status = ConditionTrue | ConditionFalse

record condition =
  co_Type :: string
  co_Status :: cond_status
  co_Reason :: string
  co_Message :: message
  co_ObservedGeneration :: int64

record pool_reference =
  plr_APIGroup :: string
  plr_Kind :: string
  plr_Name :: string

record IPAddressClaim =
  cl_meta :: object_meta
  cl_ClusterName :: string
  cl_PoolRef :: pool_reference
  cl_AddressRef :: string
  cl_Conditions :: "condition list"

record IPAddress =
  ip_meta :: object_meta
  ip_ClaimRef :: string
  ip_PoolRef :: pool_reference
  ip_Address :: string
  ip_Prefix :: "int32 option"
  ip_Gateway :: string

record cluster =
  cu_meta :: object_meta
  cu_Paused :: bool    \<comment> \<open>spec.paused\<close>

definition empty_meta :: object_meta where
  "empty_meta =
     \<lparr>om_Name = [], om_Namespace = [], om_UID = [], om_Generation = 0, om_Labels = [],
      om_Annotations = [], om_Finalizers = [], om_OwnerReferences = [], om_Deleting = False\<rparr>"

text \<open>The zero value of an \<open>IPAddress\<close>, what \<open>&ipamv1.IPAddress{}\<close> is before a read.\<close>

definition empty_address :: IPAddress where
  "empty_address =
     \<lparr>ip_meta = empty_meta, ip_ClaimRef = [],
      ip_PoolRef = \<lparr>plr_APIGroup = [], plr_Kind = [], plr_Name = []\<rparr>,
      ip_Address = [], ip_Prefix = None, ip_Gateway = []\<rparr>"

text \<open>\<open>reconcile.Result\<close>: the delay before the next reconcile in seconds, 0 for none.\<close>

record reconcile_result =
  RequeueAfter :: nat

definition no_requeue :: reconcile_result where
  "no_requeue = \<lparr>RequeueAfter = 0\<rparr>"

text \<open>What a client of the pool object sees of it (\<open>client.Object\<close>).\<close>

record client_object =
  ob_meta :: object_meta
  ob_gvk :: gvk

end
