(* ===== verification/Api_Types.thy ===== *)
theory Api_Types
  imports Kube_Types
begin

text \<open>
  The provider's own API: package \<open>api/v1alpha1\<close> (common_types.go, netboxippool_types.go,
  globalnetboxippool_types.go, groupversion_info.go) and the defaults of
  internal/netbox/defaults.go. The two pool kinds implement one Go interface, \<open>statusPool\<close>;
  here an implementation is a record of functions (\<open>pool_ops\<close>), and the locale
  \<open>status_pool\<close> states what a client of the interface relies on.
\<close>

definition NetBoxIPPoolKind :: string where
  "NetBoxIPPoolKind = ''NetBoxIPPool''"

definition GlobalNetBoxIPPoolKind :: string where
  "GlobalNetBoxIPPoolKind = ''GlobalNetBoxIPPool''"

definition GroupVersion_Group :: string where
  "GroupVersion_Group = ''ipam.cluster.x-k8s.io''"

definition GroupVersion_Version :: string where
  "GroupVersion_Version = ''v1alpha1''"

record group_kind =
  gk_Group :: string
  gk_Kind :: string

definition GroupKindNetBoxIPPool :: group_kind where
  "GroupKindNetBoxIPPool = \<lparr>gk_Group = GroupVersion_Group, gk_Kind = NetBoxIPPoolKind\<rparr>"

definition GroupKindGlobalNetBoxIPPool :: group_kind where
  "GroupKindGlobalNetBoxIPPool = \<lparr>gk_Group = GroupVersion_Group, gk_Kind = GlobalNetBoxIPPoolKind\<rparr>"

record NamespacedSecretReference =
  sr_Name :: string
  sr_Namespace :: string

record NetBoxPrefixReference =
  pr_ID :: "int32 option"
  pr_CIDR :: string
  pr_VRFID :: "int32 option"
  pr_Gateway :: string

record NetBoxMetadata =
  md_TenantID :: "int32 option"
  md_VRFID :: "int32 option"
  md_DNSName :: string
  md_Tags :: "string list"
  md_CustomFields :: str_map

record NetBoxIPPoolSpec =
  ps_ClusterName :: string
  ps_ConnectionSecretRef :: NamespacedSecretReference
  ps_Prefixes :: "NetBoxPrefixReference list"
  ps_MetadataDefaults :: NetBoxMetadata
  ps_OwnershipTag :: string
  ps_ClaimUIDCustomField :: string
  ps_IPAddressStatus :: string
  ps_Gateway :: string
  ps_GatewayCustomField :: string

text \<open>\<open>NetBoxPoolStatusAddresses\<close> has the one field \<open>Allocated\<close>.\<close>

record NetBoxPoolStatusAddresses =
  sa_Allocated :: int32

record ResolvedPrefix =
  rp_ID :: int32
  rp_CIDR :: string
  rp_Gateway :: string

record NetBoxIPPoolStatus =
  st_ObservedGeneration :: int64
  st_Addresses :: "NetBoxPoolStatusAddresses option"
  st_ResolvedPrefixes :: "int32 list"
  st_ResolvedPrefixDetails :: "ResolvedPrefix list"
  st_Conditions :: "condition list"

definition status_SetConditions :: "condition list \<Rightarrow> NetBoxIPPoolStatus \<Rightarrow> NetBoxIPPoolStatus" where
  "status_SetConditions cs s = s\<lparr>st_Conditions := cs\<rparr>"

definition status_GetConditions :: "NetBoxIPPoolStatus \<Rightarrow> condition list" where
  "status_GetConditions s = st_Conditions s"

record NetBoxIPPool =
  np_gvk :: gvk
  np_meta :: object_meta
  np_Spec :: NetBoxIPPoolSpec
  np_Status :: NetBoxIPPoolStatus

record GlobalNetBoxIPPoolSpec =
  gs_inline :: NetBoxIPPoolSpec

record GlobalNetBoxIPPool =
  gp_gvk :: gvk
  gp_meta :: object_meta
  gp_Spec :: GlobalNetBoxIPPoolSpec
  gp_Status :: NetBoxIPPoolStatus

record NetBoxIPPoolList =
  npl_Items :: "NetBoxIPPool list"

record GlobalNetBoxIPPoolList =
  gpl_Items :: "GlobalNetBoxIPPool list"

text \<open>What the init functions register with the scheme builder, by kind, in the order of the
  files.\<close>

definition GlobalNetBoxIPPool_registered :: "string list" where
  "GlobalNetBoxIPPool_registered = [GlobalNetBoxIPPoolKind, GlobalNetBoxIPPoolKind @ ''List'']"

definition NetBoxIPPool_registered :: "string list" where
  "NetBoxIPPool_registered = [NetBoxIPPoolKind, NetBoxIPPoolKind @ ''List'']"

text \<open>\<open>AddToScheme\<close>: the kinds it adds; the types of meta/v1 that every group version gets are left
  out.\<close>

definition AddToScheme :: "gvk list" where
  "AddToScheme =
     map (\<lambda>k. \<lparr>gvk_Group = GroupVersion_Group, gvk_Version = GroupVersion_Version, gvk_Kind = k\<rparr>)
       (GlobalNetBoxIPPool_registered @ NetBoxIPPool_registered)"

section \<open>Admission rules\<close>

text \<open>
  The CEL rules and minima that the CRDs enforce on admission, from the kubebuilder markers:
  what the controllers may rely on of a stored pool.
\<close>

definition admitted_prefix_ref :: "NetBoxPrefixReference \<Rightarrow> bool" where
  "admitted_prefix_ref r \<longleftrightarrow>
     ((pr_ID r \<noteq> None) \<noteq> (pr_CIDR r \<noteq> [])) \<and>
     (pr_VRFID r \<noteq> None \<longrightarrow> pr_CIDR r \<noteq> []) \<and>
     (pr_CIDR r \<noteq> [] \<longrightarrow> CHR ''/'' \<in> set (pr_CIDR r)) \<and>
     (case pr_ID r of None \<Rightarrow> True | Some i \<Rightarrow> 1 \<le> sint i) \<and>
     (case pr_VRFID r of None \<Rightarrow> True | Some i \<Rightarrow> 1 \<le> sint i)"

definition admitted_spec :: "NetBoxIPPoolSpec \<Rightarrow> bool" where
  "admitted_spec s \<longleftrightarrow>
     ps_Prefixes s \<noteq> [] \<and> length (ps_Prefixes s) \<le> 32 \<and>
     list_all admitted_prefix_ref (ps_Prefixes s) \<and> sr_Name (ps_ConnectionSecretRef s) \<noteq> []"

definition admitted_pool :: "NetBoxIPPool \<Rightarrow> bool" where
  "admitted_pool p \<longleftrightarrow>
     admitted_spec (np_Spec p) \<and> sr_Namespace (ps_ConnectionSecretRef (np_Spec p)) = []"

definition admitted_global_spec :: "GlobalNetBoxIPPoolSpec \<Rightarrow> bool" where
  "admitted_global_spec s \<longleftrightarrow>
     admitted_spec (gs_inline s) \<and> sr_Namespace (ps_ConnectionSecretRef (gs_inline s)) \<noteq> []"

section \<open>The interface statusPool and its implementations\<close>

record 'p pool_ops =
  PoolSpec :: "'p \<Rightarrow> NetBoxIPPoolSpec"
  PoolStatus :: "'p \<Rightarrow> NetBoxIPPoolStatus"
  SetPoolStatus :: "NetBoxIPPoolStatus \<Rightarrow> 'p \<Rightarrow> 'p"  \<comment> \<open>a write through the pointer PoolStatus()\<close>
  PoolMeta :: "'p \<Rightarrow> object_meta"
  SetPoolMeta :: "object_meta \<Rightarrow> 'p \<Rightarrow> 'p"

definition NetBoxIPPool_ops :: "NetBoxIPPool pool_ops" where
  "NetBoxIPPool_ops =
     \<lparr>PoolSpec = np_Spec, PoolStatus = np_Status, SetPoolStatus = (\<lambda>s p. p\<lparr>np_Status := s\<rparr>),
      PoolMeta = np_meta, SetPoolMeta = (\<lambda>m p. p\<lparr>np_meta := m\<rparr>)\<rparr>"

definition GlobalNetBoxIPPool_ops :: "GlobalNetBoxIPPool pool_ops" where
  "GlobalNetBoxIPPool_ops =
     \<lparr>PoolSpec = (\<lambda>p. gs_inline (gp_Spec p)), PoolStatus = gp_Status,
      SetPoolStatus = (\<lambda>s p. p\<lparr>gp_Status := s\<rparr>),
      PoolMeta = gp_meta, SetPoolMeta = (\<lambda>m p. p\<lparr>gp_meta := m\<rparr>)\<rparr>"

text \<open>A \<open>statusPool\<close> value: a pool of either kind.\<close>

datatype any_pool = NamespacedPool NetBoxIPPool | GlobalPool GlobalNetBoxIPPool

definition any_pool_ops :: "any_pool pool_ops" where
  "any_pool_ops =
     \<lparr>PoolSpec = (\<lambda>p. case p of NamespacedPool q \<Rightarrow> PoolSpec NetBoxIPPool_ops q
                           | GlobalPool q \<Rightarrow> PoolSpec GlobalNetBoxIPPool_ops q),
      PoolStatus = (\<lambda>p. case p of NamespacedPool q \<Rightarrow> PoolStatus NetBoxIPPool_ops q
                           | GlobalPool q \<Rightarrow> PoolStatus GlobalNetBoxIPPool_ops q),
      SetPoolStatus = (\<lambda>s p. case p of
           NamespacedPool q \<Rightarrow> NamespacedPool (SetPoolStatus NetBoxIPPool_ops s q)
         | GlobalPool q \<Rightarrow> GlobalPool (SetPoolStatus GlobalNetBoxIPPool_ops s q)),
      PoolMeta = (\<lambda>p. case p of NamespacedPool q \<Rightarrow> PoolMeta NetBoxIPPool_ops q
                           | GlobalPool q \<Rightarrow> PoolMeta GlobalNetBoxIPPool_ops q),
      SetPoolMeta = (\<lambda>m p. case p of
           NamespacedPool q \<Rightarrow> NamespacedPool (SetPoolMeta NetBoxIPPool_ops m q)
         | GlobalPool q \<Rightarrow> GlobalPool (SetPoolMeta GlobalNetBoxIPPool_ops m q))\<rparr>"

definition pool_object :: "any_pool \<Rightarrow> client_object" where
  "pool_object p =
     (case p of
        NamespacedPool q \<Rightarrow> \<lparr>ob_meta = np_meta q, ob_gvk = np_gvk q\<rparr>
      | GlobalPool q \<Rightarrow> \<lparr>ob_meta = gp_meta q, ob_gvk = gp_gvk q\<rparr>)"

text \<open>What a client of \<open>statusPool\<close> relies on: status and metadata are separate fields that
  read back what was written, and no write changes the spec.\<close>

locale status_pool =
  fixes ops :: "'p pool_ops"
  assumes status_set [simp]: "PoolStatus ops (SetPoolStatus ops s p) = s"
    and meta_set [simp]: "PoolMeta ops (SetPoolMeta ops m p) = m"
    and status_set_meta [simp]: "PoolStatus ops (SetPoolMeta ops m p) = PoolStatus ops p"
    and meta_set_status [simp]: "PoolMeta ops (SetPoolStatus ops s p) = PoolMeta ops p"
    and spec_set_status [simp]: "PoolSpec ops (SetPoolStatus ops s p) = PoolSpec ops p"
    and spec_set_meta [simp]: "PoolSpec ops (SetPoolMeta ops m p) = PoolSpec ops p"
    and status_set_set [simp]: "SetPoolStatus ops s (SetPoolStatus ops t p) = SetPoolStatus ops s p"

interpretation npool: status_pool NetBoxIPPool_ops
  by unfold_locales (simp_all add: NetBoxIPPool_ops_def)

interpretation gpool: status_pool GlobalNetBoxIPPool_ops
  by unfold_locales (simp_all add: GlobalNetBoxIPPool_ops_def)

interpretation apool: status_pool any_pool_ops
  by unfold_locales (simp_all add: any_pool_ops_def split: any_pool.splits)

section \<open>Defaults\<close>

definition DefaultOwnershipTag :: string where
  "DefaultOwnershipTag = ''cluster-api-ipam-provider-netbox''"

definition DefaultClaimUIDCustomField :: string where
  "DefaultClaimUIDCustomField = ''cluster_api_claim_uid''"

definition DefaultIPAddressStatus :: string where
  "DefaultIPAddressStatus = ''active''"

definition OwnershipTag :: "NetBoxIPPoolSpec \<Rightarrow> string" where
  "OwnershipTag spec = (if ps_OwnershipTag spec \<noteq> [] then ps_OwnershipTag spec else DefaultOwnershipTag)"

definition ClaimUIDCustomField :: "NetBoxIPPoolSpec \<Rightarrow> string" where
  "ClaimUIDCustomField spec =
     (if ps_ClaimUIDCustomField spec \<noteq> [] then ps_ClaimUIDCustomField spec
      else DefaultClaimUIDCustomField)"

definition IPAddressStatus :: "NetBoxIPPoolSpec \<Rightarrow> string" where
  "IPAddressStatus spec =
     (if ps_IPAddressStatus spec \<noteq> [] then ps_IPAddressStatus spec else DefaultIPAddressStatus)"

lemma OwnershipTag_nonempty [simp]: "OwnershipTag spec \<noteq> []"
  by (simp add: OwnershipTag_def DefaultOwnershipTag_def)

lemma ClaimUIDCustomField_nonempty [simp]: "ClaimUIDCustomField spec \<noteq> []"
  by (simp add: ClaimUIDCustomField_def DefaultClaimUIDCustomField_def)

end
