(* ===== verification/Go_Unicode.thy ===== *)
theory Go_Unicode
  imports Go_Strings
begin

text \<open>
  Package \<open>unicode/utf8\<close> (\<open>DecodeRune\<close>, \<open>AppendRune\<close>), the \<open>range\<close> loop over a string,
  \<open>strings.ToLower\<close>, and \<open>unicode.IsLetter\<close> / \<open>IsDigit\<close>. The tables of package
  \<open>unicode\<close> for code points from 128 on are the parameter \<open>unicode_tables\<close>; the theorems of
  the development hold for every such table.
\<close>

record unicode_tables =
  uni_lower :: "nat \<Rightarrow> nat"
  uni_letter :: "nat \<Rightarrow> bool"
  uni_digit :: "nat \<Rightarrow> bool"

definition rune_error :: nat where
  "rune_error = 0xFFFD"

definition cont_in :: "nat \<Rightarrow> nat \<Rightarrow> nat \<Rightarrow> bool" where
  "cont_in lo hi b = (lo \<le> b \<and> b \<le> hi)"

text \<open>\<open>DecodeRune\<close> of a nonempty string: the rune and its width; an invalid encoding is one
  byte wide and yields U+FFFD.\<close>

definition decode2 :: "nat \<Rightarrow> string \<Rightarrow> nat \<times> nat" where
  "decode2 b0 s =
     (case s of
        c1 # _ \<Rightarrow>
          if cont_in 0x80 0xBF (byte c1) then ((b0 - 0xC0) * 64 + (byte c1 - 0x80), 2)
          else (rune_error, 1)
      | [] \<Rightarrow> (rune_error, 1))"

definition decode3 :: "nat \<Rightarrow> string \<Rightarrow> nat \<times> nat" where
  "decode3 b0 s =
     (case s of
        c1 # c2 # _ \<Rightarrow>
          if cont_in (if b0 = 0xE0 then 0xA0 else 0x80) (if b0 = 0xED then 0x9F else 0xBF) (byte c1)
             \<and> cont_in 0x80 0xBF (byte c2)
          then ((b0 - 0xE0) * 4096 + (byte c1 - 0x80) * 64 + (byte c2 - 0x80), 3)
          else (rune_error, 1)
      | _ \<Rightarrow> (rune_error, 1))"

definition decode4 :: "nat \<Rightarrow> string \<Rightarrow> nat \<times> nat" where
  "decode4 b0 s =
     (case s of
        c1 # c2 # c3 # _ \<Rightarrow>
          if cont_in (if b0 = 0xF0 then 0x90 else 0x80) (if b0 = 0xF4 then 0x8F else 0xBF) (byte c1)
             \<and> cont_in 0x80 0xBF (byte c2) \<and> cont_in 0x80 0xBF (byte c3)
          then ((b0 - 0xF0) * 262144 + (byte c1 - 0x80) * 4096
                 + (byte c2 - 0x80) * 64 + (byte c3 - 0x80), 4)
          else (rune_error, 1)
      | _ \<Rightarrow> (rune_error, 1))"

definition decode_rune :: "char \<Rightarrow> string \<Rightarrow> nat \<times> nat" where
  "decode_rune c s =
     (let b = byte c in
      if b < 0x80 then (b, 1)
      else if cont_in 0xC2 0xDF b then decode2 b s
      else if cont_in 0xE0 0xEF b then decode3 b s
      else if cont_in 0xF0 0xF4 b then decode4 b s
      else (rune_error, 1))"

text \<open>The runes of \<open>for _, r := range s\<close>.\<close>

function runes :: "string \<Rightarrow> nat list" where
  "runes [] = []"
| "runes (c # s) = (case decode_rune c s of (r, w) \<Rightarrow> r # runes (drop (w - 1) s))"
  by pat_completeness auto
termination
  by (relation "measure length") auto

definition encode_rune :: "nat \<Rightarrow> string" where
  "encode_rune r0 =
     (let r = (if (0xD800 \<le> r0 \<and> r0 \<le> 0xDFFF) \<or> 0x10FFFF < r0 then rune_error else r0) in
      if r < 0x80 then [char_of r]
      else if r < 0x800 then [char_of (0xC0 + r div 64), char_of (0x80 + r mod 64)]
      else if r < 0x10000 then
        [char_of (0xE0 + r div 4096), char_of (0x80 + r div 64 mod 64), char_of (0x80 + r mod 64)]
      else
        [char_of (0xF0 + r div 262144), char_of (0x80 + r div 4096 mod 64),
         char_of (0x80 + r div 64 mod 64), char_of (0x80 + r mod 64)])"

definition lower_rune :: "unicode_tables \<Rightarrow> nat \<Rightarrow> nat" where
  "lower_rune U r = (if r < 0x80 then (if 65 \<le> r \<and> r \<le> 90 then r + 32 else r) else uni_lower U r)"

definition is_letter_rune :: "unicode_tables \<Rightarrow> nat \<Rightarrow> bool" where
  "is_letter_rune U r =
     (if r < 0x80 then (65 \<le> r \<and> r \<le> 90) \<or> (97 \<le> r \<and> r \<le> 122) else uni_letter U r)"

definition is_digit_rune :: "unicode_tables \<Rightarrow> nat \<Rightarrow> bool" where
  "is_digit_rune U r = (if r < 0x80 then 48 \<le> r \<and> r \<le> 57 else uni_digit U r)"

text \<open>\<open>strings.ToLower\<close>: bytewise on ASCII, otherwise rune by rune.\<close>

definition to_lower :: "unicode_tables \<Rightarrow> string \<Rightarrow> string" where
  "to_lower U s =
     (if list_all is_ascii s then map lower_byte s
      else concat (map (\<lambda>r. encode_rune (lower_rune U r)) (runes s)))"

lemma byte_ascii: "is_ascii c \<Longrightarrow> byte c < 0x80"
  by (simp add: is_ascii_def byte_def less_eq_char_def)

lemma char_of_byte [simp]: "char_of (byte c) = c"
  by (simp add: byte_def)

lemma runes_ascii: "list_all is_ascii s \<Longrightarrow> runes s = map byte s"
  by (induction s) (auto simp: decode_rune_def dest: byte_ascii)

lemma encode_ascii: "is_ascii c \<Longrightarrow> encode_rune (byte c) = [c]"
  using byte_ascii [of c] by (simp add: encode_rune_def)

lemma lower_ascii: "is_ascii c \<Longrightarrow> is_ascii (lower_byte c)"
  by (auto simp: lower_byte_def is_upper_def is_ascii_def byte_def less_eq_char_def)

lemma to_lower_ascii: "list_all is_ascii s \<Longrightarrow> to_lower U s = map lower_byte s"
  by (simp add: to_lower_def)

lemma lower_byte_fix: "\<not> is_upper c \<Longrightarrow> lower_byte c = c"
  by (simp add: lower_byte_def)

lemma to_lower_fix: "list_all is_ascii s \<Longrightarrow> list_all (\<lambda>c. \<not> is_upper c) s \<Longrightarrow> to_lower U s = s"
  by (simp add: to_lower_def list_all_iff lower_byte_fix map_idI)

end
