(* ===== verification/Go_Json.thy ===== *)
theory Go_Json
  imports Go_Strconv Go_Unicode "HOL-Library.List_Lexorder"
begin

text \<open>
  Package \<open>encoding/json\<close>, as far as the program decodes NetBox's answers and one claim
  annotation with it: the syntax check and the value tree of \<open>Unmarshal\<close>, and the decoders
  of the Go types it decodes into. The scanner is a state machine over the bytes and the
  parser a stack machine over the tokens, as in Go, so both are structural recursions.

  Not modelled: an object that repeats a member name merges into the earlier value for a slice
  or a map, and a later null leaves an earlier string or number; here the last member wins (as it
  does otherwise for strings, numbers and map entries).
\<close>

datatype json =
  JNull | JBool bool | JNum string | JStr string | JArr "json list" | JObj "(string \<times> json) list"

section \<open>Scanner\<close>

datatype tok =
  TOpenO | TCloseO | TOpenA | TCloseA | TColon | TComma
| TString string | TNumber string | TTrue | TFalse | TNull

text \<open>Inside a string literal the accumulator holds raw bytes and \<open>\u\<close> code units.\<close>

datatype lex_state =
  LTop
| LWord string
| LStr "(char + nat) list"
| LEsc "(char + nat) list"
| LHex "(char + nat) list" nat nat

definition utf8_clean :: "string \<Rightarrow> string" where
  "utf8_clean s = concat (map encode_rune (runes s))"

definition is_high :: "nat \<Rightarrow> bool" where
  "is_high u = (0xD800 \<le> u \<and> u \<le> 0xDBFF)"

definition is_low :: "nat \<Rightarrow> bool" where
  "is_low u = (0xDC00 \<le> u \<and> u \<le> 0xDFFF)"

fun unquote :: "string \<Rightarrow> (char + nat) list \<Rightarrow> string" where
  "unquote acc [] = utf8_clean (rev acc)"
| "unquote acc (Inl c # xs) = unquote (c # acc) xs"
| "unquote acc (Inr u # Inr v # xs) =
     (if is_high u \<and> is_low v
      then utf8_clean (rev acc)
           @ encode_rune ((u - 0xD800) * 1024 + (v - 0xDC00) + 0x10000) @ unquote [] xs
      else utf8_clean (rev acc) @ encode_rune u @ unquote [] (Inr v # xs))"
| "unquote acc (Inr u # xs) = utf8_clean (rev acc) @ encode_rune u @ unquote [] xs"

text \<open>The grammar of a number: an optional minus, an integer part without leading zeros, an
  optional fraction and an optional exponent.\<close>

definition all_digits1 :: "string \<Rightarrow> bool" where
  "all_digits1 s = (s \<noteq> [] \<and> list_all is_digit s)"

definition valid_exponent :: "string \<Rightarrow> bool" where
  "valid_exponent s =
     (case s of
        [] \<Rightarrow> True
      | e # t \<Rightarrow> (e = CHR ''e'' \<or> e = CHR ''E'') \<and>
          all_digits1 (case t of [] \<Rightarrow> [] | c # u \<Rightarrow> if c = CHR ''+'' \<or> c = CHR ''-'' then u else t))"

definition valid_number :: "string \<Rightarrow> bool" where
  "valid_number s =
     (let body = (case s of [] \<Rightarrow> [] | c # t \<Rightarrow> if c = CHR ''-'' then t else s);
          ip = takeWhile is_digit body;
          rest = dropWhile is_digit body
      in ip \<noteq> [] \<and> (hd ip = CHR ''0'' \<longrightarrow> length ip = 1) \<and>
         (case rest of
            c # t \<Rightarrow>
              if c = CHR ''.''
              then takeWhile is_digit t \<noteq> [] \<and> valid_exponent (dropWhile is_digit t)
              else valid_exponent rest
          | [] \<Rightarrow> True))"

definition word_tok :: "string \<Rightarrow> tok option" where
  "word_tok w =
     (if w = ''true'' then Some TTrue
      else if w = ''false'' then Some TFalse
      else if w = ''null'' then Some TNull
      else if valid_number w then Some (TNumber w)
      else None)"

definition word_char :: "char \<Rightarrow> bool" where
  "word_char c = (is_digit c \<or> is_lower c \<or> is_upper c \<or> c \<in> set ''+-.'')"

definition json_space :: "char \<Rightarrow> bool" where
  "json_space c = (c \<in> set [CHR 0x20, CHR 0x09, CHR 0x0A, CHR 0x0D])"

definition punct_tok :: "char \<Rightarrow> tok option" where
  "punct_tok c =
     (if c = CHR ''{'' then Some TOpenO else if c = CHR ''}'' then Some TCloseO
      else if c = CHR ''['' then Some TOpenA else if c = CHR '']'' then Some TCloseA
      else if c = CHR '':'' then Some TColon else if c = CHR '','' then Some TComma
      else None)"

definition escape_char :: "char \<Rightarrow> char option" where
  "escape_char c =
     (if c = CHR 0x22 \<or> c = CHR 0x5C \<or> c = CHR ''/'' then Some c
      else if c = CHR ''b'' then Some (CHR 0x08) else if c = CHR ''f'' then Some (CHR 0x0C)
      else if c = CHR ''n'' then Some (CHR 0x0A) else if c = CHR ''r'' then Some (CHR 0x0D)
      else if c = CHR ''t'' then Some (CHR 0x09) else None)"

definition hex_digit :: "char \<Rightarrow> nat option" where
  "hex_digit c =
     (if is_digit c then Some (byte c - 48)
      else if CHR ''a'' \<le> c \<and> c \<le> CHR ''f'' then Some (byte c - 87)
      else if CHR ''A'' \<le> c \<and> c \<le> CHR ''F'' then Some (byte c - 55)
      else None)"

text \<open>One byte outside any literal: the next state and the token it completes.\<close>

definition lex_top :: "char \<Rightarrow> (lex_state \<times> tok list) option" where
  "lex_top c =
     (if json_space c then Some (LTop, [])
      else if c = CHR 0x22 then Some (LStr [], [])
      else if word_char c then Some (LWord [c], [])
      else case punct_tok c of Some t \<Rightarrow> Some (LTop, [t]) | None \<Rightarrow> None)"

definition lex_step :: "lex_state \<Rightarrow> char \<Rightarrow> (lex_state \<times> tok list) option" where
  "lex_step st c =
     (case st of
        LTop \<Rightarrow> lex_top c
      | LWord w \<Rightarrow>
          if word_char c then Some (LWord (c # w), [])
          else (case word_tok (rev w) of
                  None \<Rightarrow> None
                | Some t \<Rightarrow> (case lex_top c of None \<Rightarrow> None | Some (st', ts) \<Rightarrow> Some (st', t # ts)))
      | LStr acc \<Rightarrow>
          if c = CHR 0x22 then Some (LTop, [TString (unquote [] (rev acc))])
          else if c = CHR 0x5C then Some (LEsc acc, [])
          else if byte c < 0x20 then None
          else Some (LStr (Inl c # acc), [])
      | LEsc acc \<Rightarrow>
          if c = CHR ''u'' then Some (LHex acc 0 0, [])
          else (case escape_char c of None \<Rightarrow> None | Some d \<Rightarrow> Some (LStr (Inl d # acc), []))
      | LHex acc k v \<Rightarrow>
          (case hex_digit c of
             None \<Rightarrow> None
           | Some d \<Rightarrow> if k = 3 then Some (LStr (Inr (v * 16 + d) # acc), [])
                       else Some (LHex acc (Suc k) (v * 16 + d), [])))"

fun lex :: "lex_state \<Rightarrow> string \<Rightarrow> tok list option" where
  "lex st [] =
     (case st of
        LTop \<Rightarrow> Some []
      | LWord w \<Rightarrow> (case word_tok (rev w) of None \<Rightarrow> None | Some t \<Rightarrow> Some [t])
      | _ \<Rightarrow> None)"
| "lex st (c # s) =
     (case lex_step st c of
        None \<Rightarrow> None
      | Some (st', ts) \<Rightarrow> (case lex st' s of None \<Rightarrow> None | Some us \<Rightarrow> Some (ts @ us)))"

section \<open>Parser\<close>

datatype frame = FArr "json list" | FObj "(string \<times> json) list" string

datatype pstate = ExpVal | ExpValOrClose | ExpKey | ExpKeyOrClose | ExpColon | AfterVal json

definition max_nesting_depth :: nat where
  "max_nesting_depth = 10000"

definition parse_value :: "frame list \<Rightarrow> tok \<Rightarrow> (pstate \<times> frame list) option" where
  "parse_value stk t =
     (case t of
        TNull \<Rightarrow> Some (AfterVal JNull, stk)
      | TTrue \<Rightarrow> Some (AfterVal (JBool True), stk)
      | TFalse \<Rightarrow> Some (AfterVal (JBool False), stk)
      | TNumber s \<Rightarrow> Some (AfterVal (JNum s), stk)
      | TString s \<Rightarrow> Some (AfterVal (JStr s), stk)
      | TOpenA \<Rightarrow> if length stk < max_nesting_depth then Some (ExpValOrClose, FArr [] # stk) else None
      | TOpenO \<Rightarrow> if length stk < max_nesting_depth then Some (ExpKeyOrClose, FObj [] [] # stk) else None
      | _ \<Rightarrow> None)"

definition parse_key :: "frame list \<Rightarrow> tok \<Rightarrow> (pstate \<times> frame list) option" where
  "parse_key stk t =
     (case (t, stk) of
        (TString k, FObj kvs _ # stk') \<Rightarrow> Some (ExpColon, FObj kvs k # stk')
      | _ \<Rightarrow> None)"

definition parse_after :: "json \<Rightarrow> frame list \<Rightarrow> tok \<Rightarrow> (pstate \<times> frame list) option" where
  "parse_after v stk t =
     (case stk of
        FArr vs # stk' \<Rightarrow>
          (case t of
             TComma \<Rightarrow> Some (ExpVal, FArr (v # vs) # stk')
           | TCloseA \<Rightarrow> Some (AfterVal (JArr (rev (v # vs))), stk')
           | _ \<Rightarrow> None)
      | FObj kvs k # stk' \<Rightarrow>
          (case t of
             TComma \<Rightarrow> Some (ExpKey, FObj ((k, v) # kvs) [] # stk')
           | TCloseO \<Rightarrow> Some (AfterVal (JObj (rev ((k, v) # kvs))), stk')
           | _ \<Rightarrow> None)
      | [] \<Rightarrow> None)"

definition parse_step :: "pstate \<Rightarrow> frame list \<Rightarrow> tok \<Rightarrow> (pstate \<times> frame list) option" where
  "parse_step ps stk t =
     (case ps of
        ExpVal \<Rightarrow> parse_value stk t
      | ExpValOrClose \<Rightarrow> if t = TCloseA then Some (AfterVal (JArr []), tl stk) else parse_value stk t
      | ExpKey \<Rightarrow> parse_key stk t
      | ExpKeyOrClose \<Rightarrow> if t = TCloseO then Some (AfterVal (JObj []), tl stk) else parse_key stk t
      | ExpColon \<Rightarrow> if t = TColon then Some (ExpVal, stk) else None
      | AfterVal v \<Rightarrow> parse_after v stk t)"

fun parse_toks :: "pstate \<Rightarrow> frame list \<Rightarrow> tok list \<Rightarrow> json option" where
  "parse_toks ps stk [] = (case (ps, stk) of (AfterVal v, []) \<Rightarrow> Some v | _ \<Rightarrow> None)"
| "parse_toks ps stk (t # ts) =
     (case parse_step ps stk t of None \<Rightarrow> None | Some (ps', stk') \<Rightarrow> parse_toks ps' stk' ts)"

definition json_parse :: "string \<Rightarrow> json option" where
  "json_parse s = (case lex LTop s of None \<Rightarrow> None | Some ts \<Rightarrow> parse_toks ExpVal [] ts)"

section \<open>Decoding into Go types\<close>

text \<open>
  A decoder maps a value to what \<open>Unmarshal\<close> stores in a zeroed destination of its type,
  \<open>None\<close> for an \<open>UnmarshalTypeError\<close>. JSON null leaves the zero value.
  A number decoded into an \<open>any\<close> becomes a float64: the parameter \<open>fl\<close> maps the literal to
  the text that \<open>fmt.Sprint\<close> gives its float64, \<open>None\<close> when the literal is out of range.
\<close>

definition dec_string :: "json \<Rightarrow> string option" where
  "dec_string j = (case j of JNull \<Rightarrow> Some [] | JStr s \<Rightarrow> Some s | _ \<Rightarrow> None)"

definition dec_int :: "nat \<Rightarrow> json \<Rightarrow> int option" where
  "dec_int bits j = (case j of JNull \<Rightarrow> Some 0 | JNum s \<Rightarrow> parse_int bits s | _ \<Rightarrow> None)"

definition dec_int32 :: "json \<Rightarrow> int32 option" where
  "dec_int32 j = map_option word_of_int (dec_int 32 j)"

definition dec_slice :: "(json \<Rightarrow> 'a option) \<Rightarrow> json \<Rightarrow> 'a list option" where
  "dec_slice d j = (case j of JNull \<Rightarrow> Some [] | JArr js \<Rightarrow> those (map d js) | _ \<Rightarrow> None)"

fun dec_any_ok :: "(string \<Rightarrow> string option) \<Rightarrow> json \<Rightarrow> bool" where
  "dec_any_ok fl (JNum s) = (fl s \<noteq> None)"
| "dec_any_ok fl (JArr js) = (\<forall>j \<in> set js. dec_any_ok fl j)"
| "dec_any_ok fl (JObj kvs) = (\<forall>kv \<in> set kvs. dec_any_ok fl (snd kv))"
| "dec_any_ok fl _ = True"

definition dec_map_any :: "(string \<Rightarrow> string option) \<Rightarrow> json \<Rightarrow> (string \<times> json) list option" where
  "dec_map_any fl j =
     (case j of
        JNull \<Rightarrow> Some []
      | JObj kvs \<Rightarrow> if dec_any_ok fl j then Some (AList.updates (map fst kvs) (map snd kvs) []) else None
      | _ \<Rightarrow> None)"

definition dec_map_string :: "json \<Rightarrow> (string \<times> string) list option" where
  "dec_map_string j =
     (case j of
        JNull \<Rightarrow> Some []
      | JObj kvs \<Rightarrow>
          (case those (map (\<lambda>kv. dec_string (snd kv)) kvs) of
             None \<Rightarrow> None
           | Some vs \<Rightarrow> Some (AList.updates (map fst kvs) vs []))
      | _ \<Rightarrow> None)"

text \<open>Field matching of a struct ignores case: ASCII letters, the Kelvin sign (a K) and the
  long s (an S) fold together.\<close>

fun fold_name :: "string \<Rightarrow> string" where
  "fold_name (c # d # e # s) =
     (if c = CHR 0xC5 \<and> d = CHR 0xBF then CHR ''s'' # fold_name (e # s)
      else if c = CHR 0xE2 \<and> d = CHR 0x84 \<and> e = CHR 0xAA then CHR ''k'' # fold_name s
      else lower_byte c # fold_name (d # e # s))"
| "fold_name [c, d] =
     (if c = CHR 0xC5 \<and> d = CHR 0xBF then ''s'' else [lower_byte c, lower_byte d])"
| "fold_name [c] = [lower_byte c]"
| "fold_name [] = []"

definition dec_field :: "string \<Rightarrow> (json \<Rightarrow> 'a option) \<Rightarrow> (string \<times> json) list \<Rightarrow> 'a option" where
  "dec_field name d kvs =
     (case those (map (\<lambda>kv. d (snd kv)) (filter (\<lambda>kv. fold_name (fst kv) = name) kvs)) of
        None \<Rightarrow> None
      | Some [] \<Rightarrow> d JNull
      | Some vs \<Rightarrow> Some (last vs))"

text \<open>\<open>fmt.Sprint\<close> of a decoded \<open>any\<close>. Maps print in the order of their keys.\<close>

fun sprint_any :: "(string \<Rightarrow> string option) \<Rightarrow> json \<Rightarrow> string" where
  "sprint_any fl JNull = ''<nil>''"
| "sprint_any fl (JBool b) = (if b then ''true'' else ''false'')"
| "sprint_any fl (JNum s) = (case fl s of None \<Rightarrow> [] | Some t \<Rightarrow> t)"
| "sprint_any fl (JStr s) = s"
| "sprint_any fl (JArr js) = ''['' @ join_with '' '' (map (sprint_any fl) js) @ '']''"
| "sprint_any fl (JObj kvs) =
     ''map['' @ join_with '' ''
        (map (\<lambda>(k, t). k @ '':'' @ t)
          (sort_key fst (AList.updates (map fst kvs) (map (\<lambda>kv. sprint_any fl (snd kv)) kvs) [])))
      @ '']''"

text \<open>Facts that evaluate the parser on ASCII text by simplification.\<close>

lemma encode_bytes_ascii: "list_all is_ascii s \<Longrightarrow> concat (map encode_rune (map byte s)) = s"
  by (induction s) (auto simp: encode_ascii)

lemma utf8_clean_ascii: "list_all is_ascii s \<Longrightarrow> utf8_clean s = s"
  by (simp add: utf8_clean_def runes_ascii encode_bytes_ascii del: map_map)

lemmas json_eval =
  json_parse_def lex_step_def lex_top_def json_space_def word_char_def is_digit_def is_upper_def
  is_lower_def punct_tok_def word_tok_def valid_number_def utf8_clean_ascii is_ascii_def byte_def
  parse_step_def parse_value_def parse_key_def parse_after_def max_nesting_depth_def

lemma those_Some_length: "those xs = Some ys \<Longrightarrow> length ys = length xs"
  by (induction xs arbitrary: ys) (auto split: option.splits)

lemma those_map_Some:
  "those (map f xs) = Some ys \<Longrightarrow> list_all2 (\<lambda>x y. f x = Some y) xs ys"
  by (induction xs arbitrary: ys) (auto split: option.splits)

lemma those_map_Some_iff: "those (map Some xs) = Some xs"
  by (induction xs) auto

end
