(* ===== verification/Go_Url.thy ===== *)
theory Go_Url
  imports Go_Strings "HOL-Library.List_Lexorder"
begin

text \<open>
  The functions of package net/url that the program calls: \<open>Parse\<close>, the method \<open>Query\<close> of its
  result, and \<open>Values.Encode\<close>. A parsed URL keeps what the program reads of it: scheme, host, path
  and query values. How the text of a host is checked (ports, IP literals, escapes) differs between
  releases of Go, so it is the parameter \<open>hostf\<close>, a function of the scheme and the nonempty text
  after any user information.
\<close>

type_synonym url_query = "(string \<times> string list) list"

record url =
  u_Scheme :: string
  u_Host :: string
  u_Path :: string
  u_Query :: url_query

section \<open>Escaping\<close>

definition query_keep :: "char \<Rightarrow> bool" where
  "query_keep c = (is_lower c \<or> is_upper c \<or> is_digit c \<or> c \<in> set ''-_.~'')"

definition upper_hex :: "nat \<Rightarrow> char" where
  "upper_hex n = (if n < 10 then char_of (48 + n) else char_of (55 + n))"

definition escape_byte :: "char \<Rightarrow> string" where
  "escape_byte c =
     (if query_keep c then [c]
      else if c = CHR '' '' then ''+''
      else [CHR ''%'', upper_hex (byte c div 16), upper_hex (byte c mod 16)])"

definition query_escape :: "string \<Rightarrow> string" where
  "query_escape s = concat (map escape_byte s)"

definition unhex :: "char \<Rightarrow> nat option" where
  "unhex c =
     (if is_digit c then Some (byte c - 48)
      else if CHR ''a'' \<le> c \<and> c \<le> CHR ''f'' then Some (byte c - 87)
      else if CHR ''A'' \<le> c \<and> c \<le> CHR ''F'' then Some (byte c - 55)
      else None)"

text \<open>\<open>unescape\<close> for a path, a fragment or user information (\<open>query\<close> is False), and for a query
  component, where a plus sign is a space.\<close>

fun unescape :: "bool \<Rightarrow> string \<Rightarrow> string option" where
  "unescape query [] = Some []"
| "unescape query (c # s) =
     (if c = CHR ''%'' then
        (case s of
           a # b # t \<Rightarrow>
             (case (unhex a, unhex b) of
                (Some x, Some y) \<Rightarrow> map_option ((#) (char_of (16 * x + y))) (unescape query t)
              | _ \<Rightarrow> None)
         | _ \<Rightarrow> None)
      else map_option ((#) (if query \<and> c = CHR ''+'' then CHR '' '' else c)) (unescape query s))"

section \<open>Query values\<close>

text \<open>\<open>url.Values.Encode\<close>: sorted by key, each value of a key as its own pair.\<close>

definition encode_pair :: "string \<times> string \<Rightarrow> string" where
  "encode_pair kv = query_escape (fst kv) @ ''='' @ query_escape (snd kv)"

definition query_pairs :: "url_query \<Rightarrow> (string \<times> string) list" where
  "query_pairs q = concat (map (\<lambda>(k, vs). map (Pair k) vs) q)"

definition encode_query :: "url_query \<Rightarrow> string" where
  "encode_query q = join_with ''&'' (map encode_pair (query_pairs (sort_key fst q)))"

text \<open>\<open>Query\<close>: pairs that are malformed are left out, and so is everything beyond the limit on their
  number.\<close>

definition maxQueryParams :: nat where
  "maxQueryParams = 10000"

definition parse_pair :: "string \<Rightarrow> (string \<times> string) option" where
  "parse_pair s =
     (if CHR '';'' \<in> set s \<or> s = [] then None
      else
        (let (k, v) = (case cut_at (CHR ''='') s of None \<Rightarrow> (s, []) | Some kv \<Rightarrow> kv)
         in case (unescape True k, unescape True v) of
              (Some k', Some v') \<Rightarrow> Some (k', v')
            | _ \<Rightarrow> None))"

fun add_value :: "url_query \<Rightarrow> string \<times> string \<Rightarrow> url_query" where
  "add_value [] (k, v) = [(k, [v])]"
| "add_value ((k', vs) # q) (k, v) =
     (if k' = k then (k', vs @ [v]) # q else (k', vs) # add_value q (k, v))"

definition parse_query :: "string \<Rightarrow> url_query" where
  "parse_query s =
     (let parts = split_on (CHR ''&'') s
      in if maxQueryParams < length parts then []
         else foldl add_value [] (List.map_filter parse_pair parts))"

section \<open>Parse\<close>

definition has_ctl :: "string \<Rightarrow> bool" where
  "has_ctl s = list_ex (\<lambda>c. c < CHR '' '' \<or> c = CHR 0x7F) s"

text \<open>\<open>getScheme\<close>: the scheme before the first colon and the rest; no scheme and the whole text if
  another byte comes first; \<open>None\<close> is a missing scheme.\<close>

fun get_scheme :: "string \<Rightarrow> string \<Rightarrow> string \<Rightarrow> (string \<times> string) option" where
  "get_scheme raw acc [] = Some ([], raw)"
| "get_scheme raw acc (c # s) =
     (if is_lower c \<or> is_upper c then get_scheme raw (acc @ [c]) s
      else if is_digit c \<or> c \<in> set ''+-.'' then
        if acc = [] then Some ([], raw) else get_scheme raw (acc @ [c]) s
      else if c = CHR '':'' then if acc = [] then None else Some (acc, s)
      else Some ([], raw))"

text \<open>\<open>strings.Cut\<close> at a byte: all of the text and nothing if it does not occur.\<close>

definition cut_text :: "char \<Rightarrow> string \<Rightarrow> string \<times> string" where
  "cut_text d s = (case cut_at d s of None \<Rightarrow> (s, []) | Some p \<Rightarrow> p)"

definition user_char :: "char \<Rightarrow> bool" where
  "user_char c = (is_lower c \<or> is_upper c \<or> is_digit c \<or> c \<in> set ''-._:~!$&()*+,;=%@'' \<or> c = CHR 0x27)"

text \<open>\<open>parseAuthority\<close>: user information up to the last at sign is checked and dropped.\<close>

definition parse_authority :: "(string \<Rightarrow> string option) \<Rightarrow> string \<Rightarrow> string option" where
  "parse_authority hostf s =
     (let (host, user) =
        (case cut_at (CHR ''@'') (rev s) of None \<Rightarrow> (s, []) | Some (h, u) \<Rightarrow> (rev h, rev u))
      in if list_all user_char user \<and> unescape False user \<noteq> None
         then if host = [] then Some [] else hostf host
         else None)"

definition parse_rest :: "(string \<Rightarrow> string \<Rightarrow> string option) \<Rightarrow> string \<Rightarrow> string \<Rightarrow> url_query \<Rightarrow> url option" where
  "parse_rest hostf scheme rest q =
     (if \<not> has_prefix rest ''/'' \<and> scheme \<noteq> [] then
        Some \<lparr>u_Scheme = scheme, u_Host = [], u_Path = [], u_Query = q\<rparr>
      else if \<not> has_prefix rest ''/'' \<and> CHR '':'' \<in> set (fst (cut_text (CHR ''/'') rest)) then None
      else
        (let (authority, path) =
           (if has_prefix rest ''//'' \<and> (scheme \<noteq> [] \<or> \<not> has_prefix rest ''///'')
            then (takeWhile (\<lambda>c. c \<noteq> CHR ''/'') (drop 2 rest), dropWhile (\<lambda>c. c \<noteq> CHR ''/'') (drop 2 rest))
            else ([], rest))
         in case (parse_authority (hostf scheme) authority, unescape False path) of
              (Some h, Some p) \<Rightarrow> Some \<lparr>u_Scheme = scheme, u_Host = h, u_Path = p, u_Query = q\<rparr>
            | _ \<Rightarrow> None))"

definition parse_url :: "(string \<Rightarrow> string \<Rightarrow> string option) \<Rightarrow> string \<Rightarrow> url option" where
  "parse_url hostf raw =
     (let (s, frag) = cut_text (CHR ''#'') raw
      in if has_ctl s \<or> unescape False frag = None then None
         else if s = ''*'' then Some \<lparr>u_Scheme = [], u_Host = [], u_Path = ''*'', u_Query = []\<rparr>
         else (case get_scheme s [] s of
             None \<Rightarrow> None
           | Some (scheme, rest) \<Rightarrow>
               (let (rest, rawQuery) = cut_text (CHR ''?'') rest
                in parse_rest hostf (map lower_byte scheme) rest (parse_query rawQuery))))"

end
