(* ===== verification/World.thy ===== *)
theory World
  imports Api_Types Go_Json Go_Url
begin

text \<open>
  Everything the program uses that is not under src/: NetBox behind HTTP, the Kubernetes API
  server behind controller-runtime's client, the helpers of controller-runtime and Cluster API,
  and the parts of the Go library that are not defined in the \<open>Go_*\<close> theories. It is one
  record of functions, \<open>env\<close>, an argument of every definition that reaches outside.

  A call answers from the history of all calls made before it, so an \<open>env\<close> covers any
  server with any internal state, other clients, failures at any moment, and answers that change
  from one call to the next. Each call appends its event to the history; theorems about what the
  program does to the outside are about these events.
\<close>

text \<open>An outgoing HTTP request; the body is the JSON value that is marshalled.\<close>

record http_request =
  rq_Method :: string
  rq_URL :: string
  rq_Headers :: "(string \<times> string) list"
  rq_Body :: "json option"

text \<open>A response: reading the body may fail.\<close>

record http_response =
  rs_StatusCode :: int
  rs_Status :: string
  rs_Body :: "ext_err + string"

text \<open>\<open>*http.Client\<close> as \<open>NewHTTPClient\<close> configures it; the timeout is in nanoseconds.\<close>

record http_client =
  hc_ProxyFromEnvironment :: bool
  hc_InsecureSkipVerify :: bool
  hc_RootCAs :: "string option"
  hc_Timeout :: int

datatype op_result = OpNone | OpCreated | OpUpdated

datatype event_type = EventNormal | EventWarning

datatype event =
  EHttp http_request
| EGetSecret string string
| EGetClaim string string
| EGetPool string string
| EGetGlobalPool string
| EGetAddress string string
| EGetCluster string string
| EGetClusterFromMeta object_meta
| EListAddresses string string
| EListClaims string
| EFetchAddress string string              \<comment> \<open>the read of CreateOrPatch\<close>
| EWriteAddress "IPAddress option" IPAddress   \<comment> \<open>its create (no object before) or patch\<close>
| EPatchAddress IPAddress IPAddress
| EDeleteAddress string string
| ENewPatchHelper string
| EPatchClaim IPAddressClaim IPAddressClaim
| EPatchPool any_pool any_pool
| ERecord string event_type string string message
| EPollTick

type_synonym hist = "event list"

type_synonym 'a io = "hist \<Rightarrow> ('a \<times> hist) option"

record env =
  \<comment> \<open>the Go library\<close>
  unicode :: unicode_tables
  float_text :: "string \<Rightarrow> string option"
  url_host :: "string \<Rightarrow> string \<Rightarrow> string option"
  pem_ok :: "string \<Rightarrow> bool"
  user_agent :: string
  \<comment> \<open>the HTTP transport\<close>
  http_do :: "hist \<Rightarrow> http_client \<Rightarrow> http_request \<Rightarrow> ext_err + http_response"
  \<comment> \<open>the Kubernetes client\<close>
  get_secret :: "hist \<Rightarrow> string \<Rightarrow> string \<Rightarrow> ext_err + str_map"
  get_claim :: "hist \<Rightarrow> string \<Rightarrow> string \<Rightarrow> ext_err + IPAddressClaim"
  get_pool :: "hist \<Rightarrow> string \<Rightarrow> string \<Rightarrow> ext_err + NetBoxIPPool"
  get_global_pool :: "hist \<Rightarrow> string \<Rightarrow> ext_err + GlobalNetBoxIPPool"
  get_address :: "hist \<Rightarrow> string \<Rightarrow> string \<Rightarrow> ext_err + IPAddress"
  list_addresses :: "hist \<Rightarrow> string \<Rightarrow> string \<Rightarrow> ext_err + IPAddress list"
  list_claims :: "hist \<Rightarrow> string \<Rightarrow> ext_err + IPAddressClaim list"
  patch_address :: "hist \<Rightarrow> IPAddress \<Rightarrow> IPAddress \<Rightarrow> ext_err option"
  delete_address :: "hist \<Rightarrow> string \<Rightarrow> string \<Rightarrow> ext_err option"
  \<comment> \<open>controllerutil.CreateOrPatch: what it reads, and the outcome of its write\<close>
  fetch_address :: "hist \<Rightarrow> string \<Rightarrow> string \<Rightarrow> ext_err + IPAddress option"
  write_address :: "hist \<Rightarrow> IPAddress option \<Rightarrow> IPAddress \<Rightarrow> ext_err + (IPAddress \<times> op_result)"
  \<comment> \<open>the patch helper of Cluster API\<close>
  new_patch_helper :: "hist \<Rightarrow> string \<Rightarrow> ext_err option"
  patch_claim :: "hist \<Rightarrow> IPAddressClaim \<Rightarrow> IPAddressClaim \<Rightarrow> ext_err option"
  patch_pool :: "hist \<Rightarrow> any_pool \<Rightarrow> any_pool \<Rightarrow> ext_err option"
  \<comment> \<open>clusterutil.GetClusterByName and GetClusterFromMetadata\<close>
  cluster_by_name :: "hist \<Rightarrow> string \<Rightarrow> string \<Rightarrow> ext_err + cluster"
  cluster_from_meta :: "hist \<Rightarrow> object_meta \<Rightarrow> ext_err + cluster"
  \<comment> \<open>how often wait.PollUntilContextTimeout tries its condition before the timeout\<close>
  poll_attempts :: "hist \<Rightarrow> nat"
  \<comment> \<open>pure helpers of controllerutil, conditions and annotations\<close>
  AddFinalizer :: "string list \<Rightarrow> string \<Rightarrow> string list \<times> bool"
  RemoveFinalizer :: "string list \<Rightarrow> string \<Rightarrow> string list \<times> bool"
  conditions_Set :: "condition list \<Rightarrow> condition \<Rightarrow> condition list"
  HasPaused :: "object_meta \<Rightarrow> bool"
  IsPaused :: "cluster \<Rightarrow> bool"
  SetControllerReference :: "IPAddressClaim \<Rightarrow> owner_ref list \<Rightarrow> ext_err + owner_ref list"
  SetOwnerReference :: "client_object \<Rightarrow> owner_ref list \<Rightarrow> ext_err + owner_ref list"

definition url_Parse :: "env \<Rightarrow> string \<Rightarrow> url option" where
  "url_Parse E = parse_url (url_host E)"

text \<open>
  What the code relies on of the finalizer helpers, from their documentation: \<open>AddFinalizer\<close>
  adds the finalizer if it is not present and reports whether it did; \<open>RemoveFinalizer\<close>
  removes it if present and reports whether it did.
\<close>

definition finalizers_ok :: "env \<Rightarrow> bool" where
  "finalizers_ok E \<longleftrightarrow>
     (\<forall>fs f. snd (AddFinalizer E fs f) = (f \<notin> set fs) \<and>
             set (fst (AddFinalizer E fs f)) = insert f (set fs) \<and>
             snd (RemoveFinalizer E fs f) = (f \<in> set fs) \<and>
             set (fst (RemoveFinalizer E fs f)) = set fs - {f})"

text \<open>\<open>conditions.Set\<close>: afterwards the condition of that type is the given one, up to the
  timestamp and observed generation it fills in, and conditions of other types are as before.\<close>

definition find_condition :: "string \<Rightarrow> condition list \<Rightarrow> condition option" where
  "find_condition t cs = List.find (\<lambda>c. co_Type c = t) cs"

definition conditions_ok :: "env \<Rightarrow> bool" where
  "conditions_ok E \<longleftrightarrow>
     (\<forall>cs c. (\<exists>d. find_condition (co_Type c) (conditions_Set E cs c) = Some d \<and>
                   co_Status d = co_Status c \<and> co_Reason d = co_Reason c \<and>
                   co_Message d = co_Message c) \<and>
             (\<forall>t. t \<noteq> co_Type c \<longrightarrow>
                   find_condition t (conditions_Set E cs c) = find_condition t cs))"

section \<open>Calls\<close>

text \<open>A call of the outside: its event, then its answer.\<close>

definition call :: "event \<Rightarrow> (hist \<Rightarrow> ext_err + 'a) \<Rightarrow> (err + 'a) io" where
  "call ev f h = Some ((case f h of Inl x \<Rightarrow> Inl (Ext x) | Inr r \<Rightarrow> Inr r), h @ [ev])"

definition call_ok :: "event \<Rightarrow> (hist \<Rightarrow> ext_err option) \<Rightarrow> (err option) io" where
  "call_ok ev f h = Some (map_option Ext (f h), h @ [ev])"

definition emit :: "event \<Rightarrow> unit io" where
  "emit ev h = Some ((), h @ [ev])"

lemma holds_call [holds_simps]:
  "holds Q (call ev f h) = Q (case f h of Inl x \<Rightarrow> Inl (Ext x) | Inr r \<Rightarrow> Inr r) (h @ [ev])"
  by (simp add: call_def)

lemma holds_call_ok [holds_simps]: "holds Q (call_ok ev f h) = Q (map_option Ext (f h)) (h @ [ev])"
  by (simp add: call_ok_def)

lemma holds_emit [holds_simps]: "holds Q (emit ev h) = Q () (h @ [ev])"
  by (simp add: emit_def)

lemma returns_call [holds_simps]:
  "returns Q (call ev f h) = Q (case f h of Inl x \<Rightarrow> Inl (Ext x) | Inr r \<Rightarrow> Inr r) (h @ [ev])"
  by (simp add: call_def)

lemma returns_call_ok [holds_simps]:
  "returns Q (call_ok ev f h) = Q (map_option Ext (f h)) (h @ [ev])"
  by (simp add: call_ok_def)

lemma returns_emit [holds_simps]: "returns Q (emit ev h) = Q () (h @ [ev])"
  by (simp add: emit_def)

text \<open>An environment whose every call fails, with the documented behaviour of the pure
  helpers: the base of the concrete environments in the witnesses.\<close>

definition put_condition :: "condition list \<Rightarrow> condition \<Rightarrow> condition list" where
  "put_condition cs c = c # filter (\<lambda>d. co_Type d \<noteq> co_Type c) cs"

definition down :: "ext_err" where
  "down = OtherErr ''unavailable''"

definition dead_env :: env where
  "dead_env =
     \<lparr>unicode = \<lparr>uni_lower = (\<lambda>r. r), uni_letter = (\<lambda>r. False), uni_digit = (\<lambda>r. False)\<rparr>,
      float_text = Some,
      url_host = (\<lambda>scheme s. Some s),
      pem_ok = (\<lambda>s. True), user_agent = ''agent'',
      http_do = (\<lambda>h c r. Inl down),
      get_secret = (\<lambda>h n s. Inl down), get_claim = (\<lambda>h n s. Inl down),
      get_pool = (\<lambda>h n s. Inl down), get_global_pool = (\<lambda>h s. Inl down),
      get_address = (\<lambda>h n s. Inl down), list_addresses = (\<lambda>h n s. Inl down),
      list_claims = (\<lambda>h s. Inl down), patch_address = (\<lambda>h a b. Some down),
      delete_address = (\<lambda>h n s. Some down), fetch_address = (\<lambda>h n s. Inl down),
      write_address = (\<lambda>h a b. Inl down), new_patch_helper = (\<lambda>h s. None),
      patch_claim = (\<lambda>h a b. Some down), patch_pool = (\<lambda>h a b. Some down),
      cluster_by_name = (\<lambda>h n s. Inl down), cluster_from_meta = (\<lambda>h m. Inl down),
      poll_attempts = (\<lambda>h. 1),
      AddFinalizer = (\<lambda>fs f. if f \<in> set fs then (fs, False) else (fs @ [f], True)),
      RemoveFinalizer = (\<lambda>fs f. (filter (\<lambda>g. g \<noteq> f) fs, f \<in> set fs)),
      conditions_Set = put_condition,
      HasPaused = (\<lambda>m. map_of (om_Annotations m) ''cluster.x-k8s.io/paused'' \<noteq> None),
      IsPaused = cu_Paused,
      SetControllerReference = (\<lambda>c rs. Inr rs), SetOwnerReference = (\<lambda>ob rs. Inr rs)\<rparr>"

lemma dead_env_finalizers: "finalizers_ok dead_env"
  by (auto simp: finalizers_ok_def dead_env_def)

lemma find_filter_other:
  "t \<noteq> s \<Longrightarrow> List.find (\<lambda>c. co_Type c = t) (filter (\<lambda>d. co_Type d \<noteq> s) cs) =
     List.find (\<lambda>c. co_Type c = t) cs"
  by (induction cs) auto

lemma put_condition_ok:
  "find_condition t (put_condition cs c) = (if t = co_Type c then Some c else find_condition t cs)"
  by (auto simp: put_condition_def find_condition_def find_filter_other)

lemma dead_env_conditions: "conditions_ok dead_env"
  by (auto simp: conditions_ok_def dead_env_def put_condition_ok)

end
