(* ===== verification/Reconcile_Util.thy ===== *)
theory Reconcile_Util
  imports World
begin

text \<open>
  The small packages the reconcilers share: pkg/reconcileutil (event recording), pkg/predicates
  (which watch events concern the provider's pool kinds), internal/index (the field index
  that finds the addresses of a pool) and internal/version.
\<close>

section \<open>pkg/reconcileutil\<close>

text \<open>Of a \<open>ControllerBase\<close> only whether its recorder is set matters: client and scheme are the
  environment. An \<open>EventRecorder\<close> interface value may itself be nil.\<close>

record ControllerBase =
  cb_HasRecorder :: bool

definition recordEvent ::
  "ControllerBase \<Rightarrow> string \<Rightarrow> event_type \<Rightarrow> string \<Rightarrow> string \<Rightarrow> message \<Rightarrow> unit io" where
  "recordEvent b obj ty reason action msg h =
     (if \<not> cb_HasRecorder b then Some ((), h) else emit (ERecord obj ty reason action msg) h)"

definition RecordNormal :: "ControllerBase \<Rightarrow> string \<Rightarrow> string \<Rightarrow> string \<Rightarrow> message \<Rightarrow> unit io" where
  "RecordNormal b obj reason action msg h = recordEvent b obj EventNormal reason action msg h"

definition RecordWarning :: "ControllerBase \<Rightarrow> string \<Rightarrow> string \<Rightarrow> string \<Rightarrow> message \<Rightarrow> unit io" where
  "RecordWarning b obj reason action msg h = recordEvent b obj EventWarning reason action msg h"

definition is_record :: "event \<Rightarrow> bool" where
  "is_record ev = (case ev of ERecord obj ty reason action msg \<Rightarrow> True | _ \<Rightarrow> False)"

lemma recordEvent_holds:
  "holds (\<lambda>r h'. h' = (if cb_HasRecorder b then h @ [ERecord obj ty reason action msg] else h))
    (recordEvent b obj ty reason action msg h)"
  by (simp add: recordEvent_def holds_simps)

lemma RecordWarning_holds:
  "holds (\<lambda>r h'. grows is_record h h') (RecordWarning b obj reason action msg h)"
  by (simp add: RecordWarning_def recordEvent_def holds_simps is_record_def)

lemma RecordNormal_holds:
  "holds (\<lambda>r h'. grows is_record h h') (RecordNormal b obj reason action msg h)"
  by (simp add: RecordNormal_def recordEvent_def holds_simps is_record_def)

text \<open>\<open>kerrors.NewAggregate\<close> of the error a reconcile returns and the error of its deferred patch;
  nil entries are dropped.\<close>

definition join_patch_error :: "err option \<Rightarrow> err option \<Rightarrow> err option" where
  "join_patch_error reterr patchErr =
     (case patchErr of
        None \<Rightarrow> reterr
      | Some p \<Rightarrow> Some (Aggregate (case reterr of None \<Rightarrow> [p] | Some e \<Rightarrow> [e, p])))"

section \<open>internal/index\<close>

text \<open>An object in the cache.\<close>

datatype kube_object =
  ObjClaim IPAddressClaim | ObjAddress IPAddress | ObjPool any_pool | ObjCluster cluster | ObjOther

definition IPAddressPoolRefCombinedField :: string where
  "IPAddressPoolRefCombinedField = ''index.poolRef''"

definition IPAddressClaimPoolRefCombinedField :: string where
  "IPAddressClaimPoolRefCombinedField = ''index.poolRef''"

definition IPPoolRefValue :: "pool_reference \<Rightarrow> string" where
  "IPPoolRefValue ref = plr_Kind ref @ ''/'' @ plr_Name ref"

text \<open>The index functions panic on an object of another type: \<open>None\<close>.\<close>

definition IPAddressByCombinedPoolRef :: "kube_object \<Rightarrow> string list option" where
  "IPAddressByCombinedPoolRef obj =
     (case obj of ObjAddress ip \<Rightarrow> Some [IPPoolRefValue (ip_PoolRef ip)] | _ \<Rightarrow> None)"

definition ipAddressClaimByCombinedPoolRef :: "kube_object \<Rightarrow> string list option" where
  "ipAddressClaimByCombinedPoolRef obj =
     (case obj of ObjClaim c \<Rightarrow> Some [IPPoolRefValue (cl_PoolRef c)] | _ \<Rightarrow> None)"

text \<open>\<open>SetupIndexes\<close>: the registrations it makes, up to the first that fails.\<close>

definition SetupIndexes :: "(string \<Rightarrow> string \<Rightarrow> ext_err option) \<Rightarrow> ext_err option" where
  "SetupIndexes IndexField =
     (case IndexField ''IPAddress'' IPAddressPoolRefCombinedField of
        Some e \<Rightarrow> Some e
      | None \<Rightarrow> IndexField ''IPAddressClaim'' IPAddressClaimPoolRefCombinedField)"

text \<open>Kinds hold no slash, so the index value determines kind and name.\<close>

lemma IPPoolRefValue_inj:
  assumes "IPPoolRefValue a = IPPoolRefValue b"
    and "CHR ''/'' \<notin> set (plr_Kind a)" "CHR ''/'' \<notin> set (plr_Kind b)"
  shows "plr_Kind a = plr_Kind b \<and> plr_Name a = plr_Name b"
proof -
  have "cut_at (CHR ''/'') (IPPoolRefValue r) = Some (plr_Kind r, plr_Name r)"
    if "CHR ''/'' \<notin> set (plr_Kind r)" for r :: pool_reference
    using that by (simp add: cut_at_Some IPPoolRefValue_def)
  from this [of a] this [of b] assms show ?thesis by simp
qed

section \<open>pkg/predicates\<close>

definition refersToKind :: "group_kind \<Rightarrow> pool_reference \<Rightarrow> bool" where
  "refersToKind gk ref \<longleftrightarrow> plr_Kind ref = gk_Kind gk \<and> plr_APIGroup ref = gk_Group gk"

definition claimReferencesPoolKind :: "group_kind \<Rightarrow> kube_object \<Rightarrow> bool" where
  "claimReferencesPoolKind gk obj =
     (case obj of ObjClaim c \<Rightarrow> refersToKind gk (cl_PoolRef c) | _ \<Rightarrow> False)"

definition addressReferencesPoolKind :: "group_kind \<Rightarrow> kube_object \<Rightarrow> bool" where
  "addressReferencesPoolKind gk obj =
     (case obj of ObjAddress a \<Rightarrow> refersToKind gk (ip_PoolRef a) | _ \<Rightarrow> False)"

datatype watch_event =
  CreateEvent kube_object | DeleteEvent kube_object | UpdateEvent kube_object kube_object
| GenericEvent kube_object

fun ClaimReferencesPoolKind :: "group_kind \<Rightarrow> watch_event \<Rightarrow> bool" where
  "ClaimReferencesPoolKind gk (CreateEvent ob) = claimReferencesPoolKind gk ob"
| "ClaimReferencesPoolKind gk (DeleteEvent ob) = claimReferencesPoolKind gk ob"
| "ClaimReferencesPoolKind gk (UpdateEvent old new) = claimReferencesPoolKind gk new"
| "ClaimReferencesPoolKind gk (GenericEvent ob) = claimReferencesPoolKind gk ob"

fun AddressReferencesPoolKind :: "group_kind \<Rightarrow> watch_event \<Rightarrow> bool" where
  "AddressReferencesPoolKind gk (CreateEvent ob) = addressReferencesPoolKind gk ob"
| "AddressReferencesPoolKind gk (DeleteEvent ob) = addressReferencesPoolKind gk ob"
| "AddressReferencesPoolKind gk (UpdateEvent old new) = addressReferencesPoolKind gk new"
| "AddressReferencesPoolKind gk (GenericEvent ob) = addressReferencesPoolKind gk ob"

section \<open>internal/version\<close>

text \<open>The version is stamped into the binary when it is built: an argument.\<close>

definition Get :: "string \<Rightarrow> string" where
  "Get gitVersion = gitVersion"

definition UserAgent :: "string \<Rightarrow> string \<Rightarrow> string \<Rightarrow> string \<Rightarrow> string" where
  "UserAgent gitVersion goos goarch goversion =
     ''cluster-api-ipam-provider-netbox/'' @ gitVersion @ '' ('' @ goos @ ''/'' @ goarch @ '') ''
     @ goversion"

end
