(* ===== verification/Ipam_Util.thy ===== *)
theory Ipam_Util
  imports Reconcile_Util
begin

text \<open>
  pkg/ipamutil without the reconcile loop: the interface \<open>ClaimHandler\<close> a provider implements, and
  address.go, which builds the \<open>IPAddress\<close> object of a claim.
\<close>

section \<open>The interface ClaimHandler\<close>

text \<open>The pair \<open>(*ctrl.Result, error)\<close> of the handler's methods.\<close>

type_synonym handler_result = "reconcile_result option \<times> err option"

text \<open>
  The methods, over the handler's own state: \<open>FetchPool\<close> may change the state;
  \<open>EnsureAddress\<close> returns the address it was given, with what it wrote to it.
\<close>

record 's claim_handler_ops =
  chFetchPool :: "'s \<Rightarrow> ((client_object option \<times> handler_result) \<times> 's) io"
  chEnsureAddress :: "'s \<Rightarrow> IPAddress \<Rightarrow> (handler_result \<times> IPAddress) io"
  chReleaseAddress :: "'s \<Rightarrow> handler_result io"

text \<open>A provider adapter: how it makes the handler of a claim, and the handler's methods.\<close>

record 's provider_adapter =
  adClaimHandlerFor :: "IPAddressClaim \<Rightarrow> 's"
  adOps :: "'s claim_handler_ops"

section \<open>address.go\<close>

definition NewIPAddress :: "IPAddressClaim \<Rightarrow> client_object \<Rightarrow> IPAddress" where
  "NewIPAddress claim pool =
     \<lparr>ip_meta = empty_meta\<lparr>om_Name := om_Name (cl_meta claim),
                            om_Namespace := om_Namespace (cl_meta claim)\<rparr>,
      ip_ClaimRef = om_Name (cl_meta claim),
      ip_PoolRef = \<lparr>plr_APIGroup = gvk_Group (ob_gvk pool), plr_Kind = gvk_Kind (ob_gvk pool),
                    plr_Name = om_Name (ob_meta pool)\<rparr>,
      ip_Address = [], ip_Prefix = None, ip_Gateway = []\<rparr>"

text \<open>\<open>GroupVersion.String()\<close>.\<close>

definition gv_string :: "gvk \<Rightarrow> string" where
  "gv_string g = (if gvk_Group g = [] then gvk_Version g else gvk_Group g @ ''/'' @ gvk_Version g)"

definition is_pool_ref :: "client_object \<Rightarrow> owner_ref \<Rightarrow> bool" where
  "is_pool_ref pool ref \<longleftrightarrow>
     or_APIVersion ref = gv_string (ob_gvk pool) \<and> or_Kind ref = gvk_Kind (ob_gvk pool) \<and>
     or_Name ref = om_Name (ob_meta pool)"

text \<open>The loop over the owner references: the last index that refers to the pool, or the initial
  value of \<open>poolRefIdx\<close>.\<close>

fun pool_ref_index :: "client_object \<Rightarrow> owner_ref list \<Rightarrow> nat \<Rightarrow> nat \<Rightarrow> nat" where
  "pool_ref_index pool [] i idx = idx"
| "pool_ref_index pool (ref # refs) i idx =
     pool_ref_index pool refs (Suc i) (if is_pool_ref pool ref then i else idx)"

definition not_controller :: "owner_ref \<Rightarrow> owner_ref" where
  "not_controller ref = ref\<lparr>or_Controller := Some False, or_BlockOwnerDeletion := Some True\<rparr>"

text \<open>\<open>None\<close> is the panic of indexing an empty list.\<close>

definition ensureIPAddressOwnerReferences ::
  "env \<Rightarrow> IPAddress \<Rightarrow> IPAddressClaim \<Rightarrow> client_object \<Rightarrow> (err + IPAddress) option" where
  "ensureIPAddressOwnerReferences E address claim pool =
     (let refs = om_OwnerReferences (ip_meta address) in
      case (case SetControllerReference E claim refs of
              Inr refs1 \<Rightarrow> Inr refs1
            | Inl x \<Rightarrow> if is_AlreadyOwned (Ext x) then Inr refs else Inl x) of
        Inl x \<Rightarrow> Some (Inl (Wrapf ''failed to update address claim owner reference: %w'' [] (Ext x)))
      | Inr refs1 \<Rightarrow>
          (case SetOwnerReference E pool refs1 of
             Inl x \<Rightarrow> Some (Inl (Wrapf ''failed to update address pool owner reference: %w'' [] (Ext x)))
           | Inr refs2 \<Rightarrow>
               (let i = pool_ref_index pool refs2 0 0 in
                if i < length refs2 then
                  Some (Inr (address\<lparr>ip_meta := (ip_meta address)\<lparr>om_OwnerReferences :=
                    refs2[i := not_controller (refs2 ! i)]\<rparr>\<rparr>))
                else None)))"

section \<open>Facts\<close>

lemma pool_ref_index_cases:
  "pool_ref_index pool refs i idx = idx \<and> (\<forall>r \<in> set refs. \<not> is_pool_ref pool r) \<or>
   (\<exists>k < length refs. pool_ref_index pool refs i idx = i + k \<and> is_pool_ref pool (refs ! k))"
proof (induction refs arbitrary: i idx)
  case (Cons r refs)
  consider "pool_ref_index pool refs (Suc i) (if is_pool_ref pool r then i else idx) =
      (if is_pool_ref pool r then i else idx)" "\<forall>s \<in> set refs. \<not> is_pool_ref pool s"
    | k where "k < length refs"
      "pool_ref_index pool refs (Suc i) (if is_pool_ref pool r then i else idx) = Suc i + k"
      "is_pool_ref pool (refs ! k)"
    using Cons.IH by blast
  then show ?case
  proof cases
    case 1
    then show ?thesis by (cases "is_pool_ref pool r") (auto intro: exI [of _ 0])
  next
    case 2
    then show ?thesis by (intro disjI2 exI [of _ "Suc k"]) auto
  qed
qed simp

lemma pool_ref_index_hit:
  "\<exists>r \<in> set refs. is_pool_ref pool r \<Longrightarrow>
     pool_ref_index pool refs 0 0 < length refs \<and> is_pool_ref pool (refs ! pool_ref_index pool refs 0 0)"
  using pool_ref_index_cases [of pool refs 0 0] by auto

text \<open>What the code relies on of \<open>SetOwnerReference\<close>, from its documentation: afterwards the
  object is among the owners.\<close>

definition owner_refs_ok :: "env \<Rightarrow> bool" where
  "owner_refs_ok E \<longleftrightarrow>
     (\<forall>ob refs refs'. SetOwnerReference E ob refs = Inr refs' \<longrightarrow> (\<exists>r \<in> set refs'. is_pool_ref ob r))"

lemma ensureIPAddressOwnerReferences_err:
  "ensureIPAddressOwnerReferences E address claim pool = Some (Inl e) \<Longrightarrow> chain_only e \<and> api_free e"
  by (auto simp: ensureIPAddressOwnerReferences_def Let_def split: sum.splits if_splits)

lemma ensureIPAddressOwnerReferences_fields:
  "ensureIPAddressOwnerReferences E address claim pool = Some (Inr a) \<Longrightarrow>
     \<exists>refs. a = address\<lparr>ip_meta := (ip_meta address)\<lparr>om_OwnerReferences := refs\<rparr>\<rparr>"
  by (auto simp: ensureIPAddressOwnerReferences_def Let_def split: sum.splits if_splits)

lemma ensureIPAddressOwnerReferences_total:
  "owner_refs_ok E \<Longrightarrow> ensureIPAddressOwnerReferences E address claim pool \<noteq> None"
  using pool_ref_index_hit
  by (fastforce simp: ensureIPAddressOwnerReferences_def owner_refs_ok_def Let_def split: sum.splits)

end
