(* ===== verification/Claim_Reconciler.thy ===== *)
theory Claim_Reconciler
  imports Ipam_Util
begin

text \<open>
  pkg/ipamutil/reconciler.go: the reconcile loop of an \<open>IPAddressClaim\<close>, over any provider that
  implements \<open>ClaimHandler\<close>. The claim that the Go code mutates in place is passed and returned;
  the deferred patch compares it with what was read. \<open>None\<close> is a panic or a handler call that
  never returns.
\<close>

definition ReleaseAddressFinalizer :: string where
  "ReleaseAddressFinalizer = ''ipam.cluster.x-k8s.io/ReleaseAddress''"

definition ProtectAddressFinalizer :: string where
  "ProtectAddressFinalizer = ''ipam.cluster.x-k8s.io/ProtectAddress''"

definition reasonAddressAllocated :: string where "reasonAddressAllocated = ''AddressAllocated''"
definition reasonAddressReleased :: string where "reasonAddressReleased = ''AddressReleased''"

text \<open>Names of the Cluster API contract, as the readme lists them.\<close>

definition ReadyCondition :: string where "ReadyCondition = ''Ready''"
definition AllocationFailedReason :: string where "AllocationFailedReason = ''AllocationFailed''"
definition PoolNotReadyReason :: string where "PoolNotReadyReason = ''PoolNotReady''"
definition PoolExhaustedReason :: string where "PoolExhaustedReason = ''PoolExhausted''"
definition ClusterLabel :: string where "ClusterLabel = ''cluster.x-k8s.io/cluster-name''"

section \<open>Watches\<close>

definition unpaused :: "env \<Rightarrow> kube_object \<Rightarrow> bool" where
  "unpaused E ob = (case ob of ObjCluster c \<Rightarrow> \<not> IsPaused E c | _ \<Rightarrow> False)"

text \<open>The predicate on cluster events; \<open>predicate.Funcs\<close> lets generic events through.\<close>

fun watches_cluster :: "env \<Rightarrow> watch_event \<Rightarrow> bool" where
  "watches_cluster E (UpdateEvent old new) =
     (case (old, new) of
        (ObjCluster c, ObjCluster d) \<Rightarrow> IsPaused E c \<and> \<not> IsPaused E d
      | _ \<Rightarrow> False)"
| "watches_cluster E (CreateEvent ob) = unpaused E ob"
| "watches_cluster E (DeleteEvent ob) = unpaused E ob"
| "watches_cluster E (GenericEvent ob) = True"

definition indexClusterName :: "kube_object \<Rightarrow> string list" where
  "indexClusterName ob =
     (case ob of
        ObjClaim claim \<Rightarrow>
          if cl_ClusterName claim \<noteq> [] then [cl_ClusterName claim]
          else (case map_of (om_Labels (cl_meta claim)) ClusterLabel of
                  Some n \<Rightarrow> [n]
                | None \<Rightarrow> [])
      | _ \<Rightarrow> [])"

definition clusterToIPClaims :: "env \<Rightarrow> object_meta \<Rightarrow> ((string \<times> string) list) io" where
  "clusterToIPClaims E cluster h = do {
     (r, h1) \<leftarrow> call (EListClaims (om_Name cluster)) (\<lambda>h. list_claims E h (om_Name cluster)) h;
     Some (case r of
        Inl e \<Rightarrow> []
      | Inr claims \<Rightarrow> map (\<lambda>c. (om_Namespace (cl_meta c), om_Name (cl_meta c))) claims, h1)
   }"

section \<open>Helpers\<close>

definition unwrapResult :: "reconcile_result option \<Rightarrow> reconcile_result" where
  "unwrapResult r = (case r of None \<Rightarrow> no_requeue | Some x \<Rightarrow> x)"

definition setClaimReady ::
  "env \<Rightarrow> cond_status \<Rightarrow> string \<Rightarrow> message \<Rightarrow> IPAddressClaim \<Rightarrow> IPAddressClaim" where
  "setClaimReady E status reason msg claim =
     claim\<lparr>cl_Conditions := conditions_Set E (cl_Conditions claim)
       \<lparr>co_Type = ReadyCondition, co_Status = status, co_Reason = reason, co_Message = msg,
        co_ObservedGeneration = 0\<rparr>\<rparr>"

definition set_claim_finalizers :: "string list \<Rightarrow> IPAddressClaim \<Rightarrow> IPAddressClaim" where
  "set_claim_finalizers fs claim = claim\<lparr>cl_meta := (cl_meta claim)\<lparr>om_Finalizers := fs\<rparr>\<rparr>"

definition set_address_finalizers :: "string list \<Rightarrow> IPAddress \<Rightarrow> IPAddress" where
  "set_address_finalizers fs address = address\<lparr>ip_meta := (ip_meta address)\<lparr>om_Finalizers := fs\<rparr>\<rparr>"

text \<open>The cluster, if any was found, and the error.\<close>

definition getLinkedCluster :: "env \<Rightarrow> IPAddressClaim \<Rightarrow> (cluster option \<times> err option) io" where
  "getLinkedCluster E claim h =
     (if cl_ClusterName claim \<noteq> [] then do {
        (r, h1) \<leftarrow> (let ns = om_Namespace (cl_meta claim) in
          call (EGetCluster ns (cl_ClusterName claim))
            (\<lambda>h. cluster_by_name E h ns (cl_ClusterName claim)) h);
        Some (case r of Inl e \<Rightarrow> (None, Some e) | Inr c \<Rightarrow> (Some c, None), h1)
      }
      else if map_of (om_Labels (cl_meta claim)) ClusterLabel \<noteq> None then do {
        (r, h1) \<leftarrow> call (EGetClusterFromMeta (cl_meta claim))
          (\<lambda>h. cluster_from_meta E h (cl_meta claim)) h;
        Some (case r of Inl e \<Rightarrow> (None, Some e) | Inr c \<Rightarrow> (Some c, None), h1)
      }
      else Some ((None, None), h))"

section \<open>ensureAddress\<close>

definition copy_cluster_label :: "IPAddressClaim \<Rightarrow> IPAddress \<Rightarrow> IPAddress" where
  "copy_cluster_label claim address =
     (case map_of (om_Labels (cl_meta claim)) ClusterLabel of
        None \<Rightarrow> address
      | Some val \<Rightarrow> address\<lparr>ip_meta := (ip_meta address)\<lparr>om_Labels :=
          AList.update ClusterLabel val (om_Labels (ip_meta address))\<rparr>\<rparr>)"

definition protect_address :: "env \<Rightarrow> IPAddress \<Rightarrow> IPAddress" where
  "protect_address E address = set_address_finalizers
     (fst (AddFinalizer E (om_Finalizers (ip_meta address)) ProtectAddressFinalizer)) address"

text \<open>The function that \<open>CreateOrPatch\<close> calls on the object before it writes it: the result
  captured in \<open>res\<close>, the error it returns, and the object.\<close>

definition mutate_address ::
  "env \<Rightarrow> 's claim_handler_ops \<Rightarrow> 's \<Rightarrow> IPAddressClaim \<Rightarrow> client_object \<Rightarrow> IPAddress \<Rightarrow>
     (handler_result \<times> IPAddress) io" where
  "mutate_address E ops s claim pool address h = do {
     (((res, ensureErr), address1), h1) \<leftarrow> chEnsureAddress ops s address h;
     case ensureErr of
       Some e \<Rightarrow> Some (((res, Some e), address1), h1)
     | None \<Rightarrow> do {
         o1 \<leftarrow> ensureIPAddressOwnerReferences E address1 claim pool;
         case o1 of
           Inl e \<Rightarrow> Some (((res, Some (Wrapf ''ensure owner references: %w'' [] e)), address1), h1)
         | Inr address2 \<Rightarrow>
             Some (((res, None), protect_address E (copy_cluster_label claim address2)), h1)
       }
   }"

text \<open>
  \<open>controllerutil.CreateOrPatch\<close>: it reads the object, keeps the given one if there is
  none, mutates it and writes it. The result, the error, the object and what was done.
\<close>

definition create_or_patch ::
  "env \<Rightarrow> IPAddress \<Rightarrow> (IPAddress \<Rightarrow> (handler_result \<times> IPAddress) io) \<Rightarrow>
     (handler_result \<times> IPAddress \<times> op_result) io" where
  "create_or_patch E initial mutate h =
     (let ns = om_Namespace (ip_meta initial); name = om_Name (ip_meta initial) in do {
        (r, h1) \<leftarrow> call (EFetchAddress ns name) (\<lambda>h. fetch_address E h ns name) h;
        case r of
          Inl e \<Rightarrow> Some (((None, Some e), initial, OpNone), h1)
        | Inr old \<Rightarrow> do {
            (((res, mutErr), address), h2) \<leftarrow>
              mutate (case old of None \<Rightarrow> initial | Some a \<Rightarrow> a) h1;
            case mutErr of
              Some e \<Rightarrow> Some (((res, Some e), address, OpNone), h2)
            | None \<Rightarrow> do {
                (w, h3) \<leftarrow> call (EWriteAddress old address) (\<lambda>h. write_address E h old address) h2;
                Some (case w of
                   Inl e \<Rightarrow> ((res, Some e), address, OpNone)
                 | Inr (stored, opr) \<Rightarrow> ((res, None), stored, opr), h3)
              }
          }
      })"

text \<open>\<open>wait.PollUntilContextTimeout\<close> over a number of attempts.\<close>

fun poll_visible :: "env \<Rightarrow> string \<Rightarrow> string \<Rightarrow> nat \<Rightarrow> (err option) io" where
  "poll_visible E ns name 0 h = Some (Some (Ext (OtherErr ''context deadline exceeded'')), h)"
| "poll_visible E ns name (Suc n) h = do {
     (r, h1) \<leftarrow> call (EGetAddress ns name) (\<lambda>h. get_address E h ns name) h;
     case r of
       Inr a \<Rightarrow> Some (None, h1)
     | Inl e \<Rightarrow>
         (case ignoreNotFound e of
            Some e' \<Rightarrow> Some (Some e', h1)
          | None \<Rightarrow> do { (u, h2) \<leftarrow> emit EPollTick h1; poll_visible E ns name n h2 })
   }"

record ensured =
  en_address :: IPAddress
  en_operation :: op_result
  en_result :: reconcile_result
  en_err :: "err option"

definition ensureAddress ::
  "env \<Rightarrow> 's claim_handler_ops \<Rightarrow> 's \<Rightarrow> client_object \<Rightarrow> IPAddressClaim \<Rightarrow>
     (ensured \<times> IPAddressClaim) io" where
  "ensureAddress E ops s pool claim h = do {
     (((res, err), address, opr), h1) \<leftarrow>
       create_or_patch E (NewIPAddress claim pool) (mutate_address E ops s claim pool) h;
     case (res, err) of
       (_, Some e) \<Rightarrow>
         Some ((\<lparr>en_address = address, en_operation = opr, en_result = unwrapResult res,
                 en_err = Some (Wrapf ''create or patch address: %w'' [] e)\<rparr>,
                setClaimReady E ConditionFalse
                  (if res \<noteq> None then PoolExhaustedReason else AllocationFailedReason)
                  (MsgErr e) claim), h1)
     | (Some x, None) \<Rightarrow>
         Some ((\<lparr>en_address = address, en_operation = opr, en_result = x, en_err = None\<rparr>, claim), h1)
     | (None, None) \<Rightarrow> do {
         (p, h2) \<leftarrow> poll_visible E (om_Namespace (ip_meta address)) (om_Name (ip_meta address))
           (poll_attempts E h1) h1;
         case p of
           Some e \<Rightarrow>
             Some ((\<lparr>en_address = address, en_operation = opr, en_result = no_requeue,
                     en_err = Some (Wrapf ''wait for IPAddress %s/%s cache visibility: %w''
                       [om_Namespace (ip_meta address), om_Name (ip_meta address)] e)\<rparr>,
                    setClaimReady E ConditionFalse AllocationFailedReason (MsgErr e) claim), h2)
         | None \<Rightarrow>
             Some ((\<lparr>en_address = address, en_operation = opr, en_result = no_requeue,
                     en_err = None\<rparr>, claim), h2)
       }
   }"

section \<open>reconcileDelete\<close>

text \<open>The part that removes the \<open>IPAddress\<close> object that was read: an error, if any.\<close>

definition delete_ip_address ::
  "env \<Rightarrow> ControllerBase \<Rightarrow> IPAddressClaim \<Rightarrow> IPAddress \<Rightarrow> (err option) io" where
  "delete_ip_address E b claim address h =
     (let (fs, removed) =
        RemoveFinalizer E (om_Finalizers (ip_meta address)) ProtectAddressFinalizer;
          address1 = set_address_finalizers fs address in do {
        (p, h1) \<leftarrow> (if removed
          then call_ok (EPatchAddress address address1) (\<lambda>h. patch_address E h address address1) h
          else Some (None, h));
        case Option.bind p ignoreNotFound of
          Some e \<Rightarrow> Some (Some (Wrapf ''remove address finalizer: %w'' [] e), h1)
        | None \<Rightarrow> do {
            (d, h2) \<leftarrow> (let ns = om_Namespace (ip_meta address1); name = om_Name (ip_meta address1) in
              call_ok (EDeleteAddress ns name) (\<lambda>h. delete_address E h ns name) h1);
            case Option.bind d ignoreNotFound of
              Some e \<Rightarrow> Some (Some e, h2)
            | None \<Rightarrow> do {
                (u, h3) \<leftarrow> RecordNormal b (om_Name (cl_meta claim)) reasonAddressReleased
                  ''ReleaseAddress'' (MsgText (''Released IP address '' @ ip_Address address1)) h2;
                Some (None, h3)
              }
          }
      })"

type_synonym claim_outcome = "(reconcile_result \<times> err option) \<times> IPAddressClaim"

definition reconcileDelete ::
  "env \<Rightarrow> ControllerBase \<Rightarrow> 's claim_handler_ops \<Rightarrow> 's \<Rightarrow> IPAddressClaim \<Rightarrow> claim_outcome io" where
  "reconcileDelete E b ops s claim h = do {
     ((res, err), h1) \<leftarrow> chReleaseAddress ops s h;
     case err of
       Some e \<Rightarrow> Some (((unwrapResult res, Some (Wrapf ''release address: %w'' [] e)), claim), h1)
     | None \<Rightarrow> do {
         (g, h2) \<leftarrow> (let ns = om_Namespace (cl_meta claim); name = om_Name (cl_meta claim) in
           call (EGetAddress ns name) (\<lambda>h. get_address E h ns name) h1);
         case (case g of Inr a \<Rightarrow> Inr a | Inl e \<Rightarrow> if is_NotFound e then Inr empty_address else Inl e) of
           Inl e \<Rightarrow> Some (((no_requeue, Some (Wrapf ''fetch address: %w'' [] e)), claim), h2)
         | Inr address \<Rightarrow> do {
             (d, h3) \<leftarrow> (if om_Name (ip_meta address) \<noteq> [] then delete_ip_address E b claim address h2
                         else Some (None, h2));
             case d of
               Some e \<Rightarrow> Some (((no_requeue, Some e), claim), h3)
             | None \<Rightarrow>
                 Some (((no_requeue, None), set_claim_finalizers
                   (fst (RemoveFinalizer E (om_Finalizers (cl_meta claim)) ReleaseAddressFinalizer))
                   claim), h3)
           }
       }
   }"

section \<open>reconcileClaimAddress and Reconcile\<close>

text \<open>The tail of \<open>reconcileClaimAddress\<close> once the address is ensured.\<close>

definition finish_claim ::
  "env \<Rightarrow> ControllerBase \<Rightarrow> bool \<Rightarrow> IPAddress \<Rightarrow> IPAddressClaim \<Rightarrow> claim_outcome io" where
  "finish_claim E b hadAddressRef address claim h =
     (let claim1 = claim\<lparr>cl_AddressRef := om_Name (ip_meta address)\<rparr> in do {
        (u, h1) \<leftarrow> (if \<not> hadAddressRef \<and> ip_Address address \<noteq> []
          then RecordNormal b (om_Name (cl_meta claim)) reasonAddressAllocated ''AllocateAddress''
            (MsgText (''Allocated IP address '' @ ip_Address address)) h
          else Some ((), h));
        Some (((no_requeue, None), setClaimReady E ConditionTrue reasonAddressAllocated
          (MsgText (''IP address '' @ ip_Address address @ '' allocated'')) claim1), h1)
      })"

definition reconcileClaimAddress ::
  "env \<Rightarrow> ControllerBase \<Rightarrow> 's provider_adapter \<Rightarrow> IPAddressClaim \<Rightarrow> claim_outcome io" where
  "reconcileClaimAddress E b ad claim h =
     (let ops = adOps ad in do {
        (((pool, res, err), s), h1) \<leftarrow> chFetchPool ops (adClaimHandlerFor ad claim) h;
        case (err, res) of
          (Some e, _) \<Rightarrow>
            if is_NotFound e then
              (if om_Deleting (cl_meta claim) then reconcileDelete E b ops s claim h1
               else Some (((no_requeue, None), setClaimReady E ConditionFalse PoolNotReadyReason
                      (MsgText ''referenced pool not found'') claim), h1))
            else Some (((unwrapResult res, Some (Wrapf ''fetch pool: %w'' [] e)),
                   setClaimReady E ConditionFalse AllocationFailedReason (MsgErr e) claim), h1)
        | (None, Some _) \<Rightarrow> None    \<comment> \<open>\<open>err.Error()\<close> on a nil error panics\<close>
        | (None, None) \<Rightarrow>
            (case pool of
               None \<Rightarrow> Some (((no_requeue, Some (Errorf ''pool is nil'' [])), claim), h1)
             | Some p \<Rightarrow>
                 if HasPaused E (ob_meta p) then
                   Some (((no_requeue, None), setClaimReady E ConditionFalse PoolNotReadyReason
                     (MsgText ''referenced pool is paused'') claim), h1)
                 else if om_Deleting (cl_meta claim) then reconcileDelete E b ops s claim h1
                 else do {
                   ((en, claim1), h2) \<leftarrow> ensureAddress E ops s p claim h1;
                   case en_err en of
                     Some e \<Rightarrow> Some (((en_result en, Some e), claim1), h2)
                   | None \<Rightarrow> finish_claim E b (cl_AddressRef claim \<noteq> []) (en_address en) claim1 h2
                 })
      })"

text \<open>From the patch helper on; the deferred patch runs on every return.\<close>

definition reconcile_patched ::
  "env \<Rightarrow> ControllerBase \<Rightarrow> 's provider_adapter \<Rightarrow> IPAddressClaim \<Rightarrow>
     (reconcile_result \<times> err option) io" where
  "reconcile_patched E b ad claim h = do {
     (n, h1) \<leftarrow> call_ok (ENewPatchHelper (om_Name (cl_meta claim)))
       (\<lambda>h. new_patch_helper E h (om_Name (cl_meta claim))) h;
     case n of
       Some e \<Rightarrow> Some ((no_requeue, Some e), h1)
     | None \<Rightarrow> do {
         (((res, reterr), claim'), h2) \<leftarrow>
           (let (fs, added) = AddFinalizer E (om_Finalizers (cl_meta claim)) ReleaseAddressFinalizer;
                claim1 = set_claim_finalizers fs claim
            in if added then Some (((no_requeue, None), claim1), h1)
               else reconcileClaimAddress E b ad claim1 h1);
         (p, h3) \<leftarrow> call_ok (EPatchClaim claim claim') (\<lambda>h. patch_claim E h claim claim') h2;
         Some ((res, join_patch_error reterr p), h3)
       }
   }"

definition Reconcile ::
  "env \<Rightarrow> ControllerBase \<Rightarrow> 's provider_adapter \<Rightarrow> string \<Rightarrow> string \<Rightarrow>
     (reconcile_result \<times> err option) io" where
  "Reconcile E b ad namespace name h = do {
     (g, h1) \<leftarrow> call (EGetClaim namespace name) (\<lambda>h. get_claim E h namespace name) h;
     case g of
       Inl e \<Rightarrow> Some ((no_requeue, if is_NotFound e then None else Some e), h1)
     | Inr claim \<Rightarrow> do {
         ((cl, err), h2) \<leftarrow> getLinkedCluster E claim h1;
         case err of
           Some e \<Rightarrow>
             if \<not> is_NotFound e then Some ((no_requeue, Some e), h2)
             else if \<not> om_Deleting (cl_meta claim) then Some ((no_requeue, None), h2)
             else reconcile_patched E b ad claim h2
         | None \<Rightarrow>
             if (case cl of None \<Rightarrow> False | Some c \<Rightarrow> IsPaused E c) then Some ((no_requeue, None), h2)
             else reconcile_patched E b ad claim h2
       }
   }"

end
