(* ===== verification/Netbox_Config.thy ===== *)
theory Netbox_Config
  imports World
begin

text \<open>
  internal/netbox/config.go: the connection to NetBox from a Kubernetes Secret
  (\<open>LoadConnectionConfig\<close>), the HTTP client built from it (\<open>NewHTTPClient\<close>) and the check of
  its URL (\<open>SplitBaseURL\<close>). A \<open>time.Duration\<close> is a number of nanoseconds.
\<close>

definition SecretKeyURL :: string where
  "SecretKeyURL = ''url''"

definition SecretKeyToken :: string where
  "SecretKeyToken = ''token''"

definition SecretKeyInsecureSkipVerify :: string where
  "SecretKeyInsecureSkipVerify = ''insecureSkipVerify''"

definition SecretKeyCABundle :: string where
  "SecretKeyCABundle = ''caBundle''"

definition DefaultRequestTimeout :: int where
  "DefaultRequestTimeout = 30 * 1000000000"

record ConnectionConfig =
  cc_BaseURL :: string
  cc_Token :: string
  cc_InsecureSkipVerify :: bool
  cc_CABundle :: string
  cc_RequestTimeout :: int

text \<open>\<open>secret.Data[key]\<close>: the empty value when the key is absent.\<close>

definition secret_value :: "str_map \<Rightarrow> string \<Rightarrow> string" where
  "secret_value data key = (case map_of data key of None \<Rightarrow> [] | Some v \<Rightarrow> v)"

definition secret_namespace :: "string \<Rightarrow> NamespacedSecretReference \<Rightarrow> string" where
  "secret_namespace namespace ref =
     (if sr_Namespace ref = [] then namespace else sr_Namespace ref)"

text \<open>The part of \<open>LoadConnectionConfig\<close> after the Secret has been read.\<close>

definition config_of_secret :: "string \<Rightarrow> string \<Rightarrow> str_map \<Rightarrow> err + ConnectionConfig" where
  "config_of_secret ns name data =
     (let cfg = \<lparr>cc_BaseURL = secret_value data SecretKeyURL,
                 cc_Token = secret_value data SecretKeyToken,
                 cc_InsecureSkipVerify = False,
                 cc_CABundle = secret_value data SecretKeyCABundle,
                 cc_RequestTimeout = 0\<rparr>;
          raw = secret_value data SecretKeyInsecureSkipVerify
      in if cc_BaseURL cfg = [] then
           Inl (Errorf ''connection secret %s/%s is missing %q'' [ns, name, SecretKeyURL])
         else if cc_Token cfg = [] then
           Inl (Errorf ''connection secret %s/%s is missing %q'' [ns, name, SecretKeyToken])
         else if raw = [] then Inr cfg
         else case parse_bool raw of
           None \<Rightarrow> Inl (Wrapf ''parse %q: %w'' [SecretKeyInsecureSkipVerify]
                          (Ext (OtherErr ''strconv.ParseBool'')))
         | Some b \<Rightarrow> Inr (cfg\<lparr>cc_InsecureSkipVerify := b\<rparr>))"

definition LoadConnectionConfig ::
  "env \<Rightarrow> string \<Rightarrow> NamespacedSecretReference \<Rightarrow> (err + ConnectionConfig) io" where
  "LoadConnectionConfig E namespace ref h =
     (let ns = secret_namespace namespace ref in do {
        (r, h1) \<leftarrow> call (EGetSecret ns (sr_Name ref)) (\<lambda>h. get_secret E h ns (sr_Name ref)) h;
        case r of
          Inl e \<Rightarrow> Some (Inl (Wrapf ''get connection secret: %w'' [] e), h1)
        | Inr data \<Rightarrow> Some (config_of_secret ns (sr_Name ref) data, h1)
      })"

definition NewHTTPClient :: "env \<Rightarrow> ConnectionConfig \<Rightarrow> err + http_client" where
  "NewHTTPClient E cfg =
     (if cc_CABundle cfg \<noteq> [] \<and> \<not> pem_ok E (cc_CABundle cfg) then
        Inl (Errorf ''parse CA bundle'' [])
      else
        Inr \<lparr>hc_ProxyFromEnvironment = True,
             hc_InsecureSkipVerify = cc_InsecureSkipVerify cfg,
             hc_RootCAs = (if cc_CABundle cfg = [] then None else Some (cc_CABundle cfg)),
             hc_Timeout = (if cc_RequestTimeout cfg \<le> 0 then DefaultRequestTimeout
                           else cc_RequestTimeout cfg)\<rparr>)"

definition SplitBaseURL :: "env \<Rightarrow> string \<Rightarrow> err + (string \<times> string)" where
  "SplitBaseURL E rawURL =
     (case url_Parse E rawURL of
        None \<Rightarrow> Inl (Wrapf ''parse url: %w'' [] (Ext (OtherErr ''url.Parse'')))
      | Some u \<Rightarrow>
          if u_Scheme u = [] \<or> u_Host u = [] then
            Inl (Errorf ''url %q must include scheme and host'' [rawURL])
          else Inr (u_Scheme u, u_Host u))"

section \<open>Facts\<close>

lemma config_of_secret_Inr:
  assumes "config_of_secret ns name data = Inr cfg"
  shows "cc_BaseURL cfg \<noteq> [] \<and> cc_Token cfg \<noteq> [] \<and>
    map_of data SecretKeyURL = Some (cc_BaseURL cfg) \<and>
    map_of data SecretKeyToken = Some (cc_Token cfg) \<and> cc_RequestTimeout cfg = 0 \<and>
    (cc_InsecureSkipVerify cfg \<longrightarrow>
       parse_bool (secret_value data SecretKeyInsecureSkipVerify) = Some True)"
  using assms
  by (auto simp: config_of_secret_def Let_def secret_value_def split: if_splits option.splits)

lemma config_of_secret_err: "config_of_secret ns name data = Inl e \<Longrightarrow> chain_only e \<and> api_free e"
  by (auto simp: config_of_secret_def Let_def split: if_splits option.splits)

lemma LoadConnectionConfig_holds:
  "holds (\<lambda>r h'. h' = h @ [EGetSecret (secret_namespace ns ref) (sr_Name ref)] \<and>
      (\<forall>e. r = Inl e \<longrightarrow> chain_only e \<and> api_free e) \<and>
      (\<forall>cfg. r = Inr cfg \<longrightarrow> cc_BaseURL cfg \<noteq> [] \<and> cc_Token cfg \<noteq> []))
    (LoadConnectionConfig E ns ref h)"
  by (auto simp: LoadConnectionConfig_def Let_def holds_simps
      dest: config_of_secret_Inr config_of_secret_err split: sum.splits)

lemma LoadConnectionConfig_returns: "LoadConnectionConfig E ns ref h \<noteq> None"
  by (auto simp: LoadConnectionConfig_def Let_def call_def split: sum.splits)

lemma NewHTTPClient_timeout: "NewHTTPClient E cfg = Inr hc \<Longrightarrow> 0 < hc_Timeout hc"
  by (auto simp: NewHTTPClient_def DefaultRequestTimeout_def split: if_splits)

end
