(* ===== verification/Netbox_Metadata.thy ===== *)
theory Netbox_Metadata
  imports Api_Types Go_Json
begin

text \<open>
  internal/netbox/annotations.go: the metadata of an allocation is the pool's defaults,
  overridden field by field by the claim's annotations (\<open>EffectivePoolMetadata\<close>), with
  \<open>splitCSV\<close> and \<open>parseInt32\<close>. The lemmas give the result field by field and the
  condition of each error.
\<close>

definition AnnotationPrefix :: string where
  "AnnotationPrefix = ''ipam.netbox.cluster.x-k8s.io/''"

definition AnnotationTenantID :: string where
  "AnnotationTenantID = AnnotationPrefix @ ''tenant-id''"

definition AnnotationVRFID :: string where
  "AnnotationVRFID = AnnotationPrefix @ ''vrf-id''"

definition AnnotationDNSName :: string where
  "AnnotationDNSName = AnnotationPrefix @ ''dns-name''"

definition AnnotationTags :: string where
  "AnnotationTags = AnnotationPrefix @ ''tags''"

definition AnnotationCustomFields :: string where
  "AnnotationCustomFields = AnnotationPrefix @ ''custom-fields''"

record EffectiveMetadata =
  em_TenantID :: "int32 option"
  em_VRFID :: "int32 option"
  em_DNSName :: string
  em_Tags :: "string list"
  em_CustomFields :: str_map

definition splitCSV :: "string \<Rightarrow> string list" where
  "splitCSV raw = filter (\<lambda>s. s \<noteq> []) (map trim_space (split_on (CHR '','') raw))"

definition parseInt32 :: "string \<Rightarrow> err + int32" where
  "parseInt32 raw =
     (case parse_int 32 raw of
        None \<Rightarrow> Inl (Ext (OtherErr ''strconv.ParseInt''))
      | Some v \<Rightarrow> Inr (word_of_int v))"

text \<open>\<open>maps.Copy(dst, src)\<close>.\<close>

definition maps_copy :: "('k \<times> 'v) list \<Rightarrow> ('k \<times> 'v) list \<Rightarrow> ('k \<times> 'v) list" where
  "maps_copy dst src = AList.updates (map fst src) (map snd src) dst"

text \<open>\<open>raw, ok := annotations[key]; ok && raw != ""\<close>.\<close>

definition annotation_set :: "str_map \<Rightarrow> string \<Rightarrow> string option" where
  "annotation_set m key =
     (case map_of m key of None \<Rightarrow> None | Some raw \<Rightarrow> if raw = [] then None else Some raw)"

text \<open>The steps of \<open>EffectivePoolMetadata\<close>, one per annotation.\<close>

definition override_int32 :: "str_map \<Rightarrow> string \<Rightarrow> int32 option \<Rightarrow> err + int32 option" where
  "override_int32 m key old =
     (case annotation_set m key of
        None \<Rightarrow> Inr old
      | Some raw \<Rightarrow>
          (case parseInt32 raw of
             Inl e \<Rightarrow> Inl (Wrapf ''parse %s: %w'' [key] e)
           | Inr v \<Rightarrow> Inr (Some v)))"

definition override_custom_fields :: "str_map \<Rightarrow> str_map \<Rightarrow> err + str_map" where
  "override_custom_fields m old =
     (case annotation_set m AnnotationCustomFields of
        None \<Rightarrow> Inr old
      | Some raw \<Rightarrow>
          (case Option.bind (json_parse raw) dec_map_string of
             None \<Rightarrow> Inl (Wrapf ''parse %s: %w'' [AnnotationCustomFields] (Ext (OtherErr ''json'')))
           | Some values \<Rightarrow> Inr (maps_copy old values)))"

definition EffectivePoolMetadata :: "NetBoxMetadata \<Rightarrow> IPAddressClaim \<Rightarrow> err + EffectiveMetadata" where
  "EffectivePoolMetadata d claim =
     (let m = om_Annotations (cl_meta claim) in
      case override_int32 m AnnotationTenantID (md_TenantID d) of
        Inl e \<Rightarrow> Inl e
      | Inr tenant \<Rightarrow>
          (case override_int32 m AnnotationVRFID (md_VRFID d) of
             Inl e \<Rightarrow> Inl e
           | Inr vrf \<Rightarrow>
               (let dns = (case map_of m AnnotationDNSName of None \<Rightarrow> md_DNSName d | Some raw \<Rightarrow> raw);
                    tags = (case annotation_set m AnnotationTags of
                              None \<Rightarrow> md_Tags d | Some raw \<Rightarrow> splitCSV raw)
                in case override_custom_fields m (maps_copy [] (md_CustomFields d)) of
                     Inl e \<Rightarrow> Inl e
                   | Inr cf \<Rightarrow>
                       Inr \<lparr>em_TenantID = tenant, em_VRFID = vrf, em_DNSName = dns,
                            em_Tags = tags, em_CustomFields = cf\<rparr>)))"

section \<open>Facts\<close>

lemma splitCSV_trimmed: "s \<in> set (splitCSV raw) \<Longrightarrow> s \<noteq> [] \<and> trim_space s = s \<and> CHR '','' \<notin> set s"
  by (auto simp: splitCSV_def dest: split_on_free subsetD [OF set_trim_space])

lemma splitCSV_join:
  assumes "\<And>s. s \<in> set ss \<Longrightarrow> s \<noteq> [] \<and> trim_space s = s \<and> CHR '','' \<notin> set s"
  shows "splitCSV (join_with [CHR '',''] ss) = ss"
proof (cases "ss = []")
  case True
  then show ?thesis by (simp add: splitCSV_def)
next
  case False
  then have "split_on (CHR '','') (join_with [CHR '',''] ss) = ss"
    using assms by (intro split_on_join) auto
  moreover have "map trim_space ss = ss" "filter (\<lambda>s. s \<noteq> []) ss = ss"
    using assms by (auto intro: map_idI simp: filter_id_conv)
  ultimately show ?thesis by (simp add: splitCSV_def)
qed

lemma parseInt32_show: "parseInt32 (show_int32 w) = Inr w"
  by (simp add: parseInt32_def parse_show_int32)

lemma parseInt32_Inr:
  "parseInt32 raw = Inr w \<longleftrightarrow> (\<exists>i. parse_int 32 raw = Some i \<and> w = word_of_int i)"
  by (auto simp: parseInt32_def split: option.splits)

lemma map_of_updates:
  "length ks = length vs \<Longrightarrow>
     map_of (AList.updates ks vs al) = (map_of al)(ks [\<mapsto>] vs)"
  by (simp add: updates_conv')

lemma map_of_maps_copy:
  "map_of (maps_copy dst src) k =
     (case map_of (rev src) k of Some v \<Rightarrow> Some v | None \<Rightarrow> map_of dst k)"
proof -
  have "map_of (maps_copy dst src) = (map_of dst)(map fst src [\<mapsto>] map snd src)"
    by (simp add: maps_copy_def updates_conv')
  also have "\<dots> = map_of dst ++ map_of (rev src)"
    by (simp add: map_upds_def zip_map_fst_snd)
  finally show ?thesis by (simp add: map_add_def split: option.splits)
qed

lemma distinct_maps_copy: "distinct (map fst dst) \<Longrightarrow> distinct (map fst (maps_copy dst src))"
  by (simp add: maps_copy_def distinct_updates)

lemma map_of_rev_distinct:
  assumes "distinct (map fst xs)"
  shows "map_of (rev xs) = map_of xs"
proof -
  have "distinct (map fst (rev xs))" using assms by (simp add: rev_map [symmetric])
  with assms show ?thesis by (simp add: map_of_inject_set)
qed

lemma override_int32_err: "override_int32 m k old = Inl e \<Longrightarrow> client_err e \<and> api_free e"
  by (auto simp: override_int32_def parseInt32_def split: option.splits sum.splits)

lemma EffectivePoolMetadata_err:
  "EffectivePoolMetadata d claim = Inl e \<Longrightarrow> client_err e \<and> api_free e"
  by (auto simp: EffectivePoolMetadata_def override_custom_fields_def Let_def
      dest: override_int32_err split: option.splits sum.splits)

end
