(* ===== verification/Netbox_Client.thy ===== *)
theory Netbox_Client
  imports Netbox_Config Netbox_Metadata
begin

text \<open>
  internal/netbox/client.go: the NetBox REST client. The Go interface \<open>Client\<close> is the record
  of functions \<open>nb_client\<close>, and \<open>APIClient_as_Client\<close> is its implementation by \<open>APIClient\<close>
  over HTTP. \<open>listAll\<close> follows pagination links for as long as the server gives them, so it may
  not return: then it is \<open>None\<close>.
\<close>

section \<open>Types\<close>

record PrefixDetail =
  pd_ID :: int32
  pd_CIDR :: string
  pd_CustomFields :: "(string \<times> json) list"

record AllocationRequest =
  ar_Metadata :: EffectiveMetadata
  ar_OwnershipTag :: string
  ar_ClaimUIDFieldName :: string
  ar_ClaimUID :: string
  ar_Description :: string
  ar_Status :: string

record AllocatedAddress =
  aa_ID :: int32
  aa_Address :: string
  aa_Prefix :: int32
  aa_DNSName :: string

record nb_client =
  nbResolvePrefixIDs :: "NetBoxPrefixReference list \<Rightarrow> (err + int32 list) io"
  nbGetPrefixDetails :: "int32 list \<Rightarrow> (err + PrefixDetail list) io"
  nbEnsureIPAddressCustomField :: "string \<Rightarrow> (err + unit) io"
  nbAllocateIPAddress :: "int32 \<Rightarrow> AllocationRequest \<Rightarrow> (err + AllocatedAddress) io"
  nbFindIPAddressByClaimUID ::
    "string \<Rightarrow> string \<Rightarrow> string \<Rightarrow> (err + AllocatedAddress option) io"
  nbFindIPAddressByAddress :: "string \<Rightarrow> string \<Rightarrow> (err + AllocatedAddress option) io"
  nbDeleteIPAddress :: "int32 \<Rightarrow> (err + unit) io"

record APIClient =
  ac_baseURL :: string
  ac_token :: string
  ac_httpClient :: http_client

definition v2TokenPrefix :: string where
  "v2TokenPrefix = ''nbt_''"

definition AuthorizationHeaderValue :: "string \<Rightarrow> string" where
  "AuthorizationHeaderValue token =
     (if has_prefix token v2TokenPrefix \<and> str_contains token ''.'' then ''Bearer '' @ token
      else ''Token '' @ token)"

definition ComposeV2Token :: "string \<Rightarrow> string \<Rightarrow> string" where
  "ComposeV2Token key secret = v2TokenPrefix @ key @ ''.'' @ secret"

section \<open>The JSON types of the API\<close>

record 'a netBoxListResponse =
  lr_Count :: int
  lr_Next :: string
  lr_Results :: "'a list"

record netBoxTag =
  tg_Name :: string
  tg_Slug :: string

record netBoxPrefix =
  px_ID :: int32
  px_Prefix :: string
  px_CustomFields :: "(string \<times> json) list"

record netBoxStatus =
  ns_Value :: string
  ns_Label :: string

record netBoxIPAddress =
  ia_ID :: int32
  ia_Address :: string
  ia_DNSName :: string
  ia_Status :: "netBoxStatus option"
  ia_Tags :: "netBoxTag list"
  ia_CustomFields :: "(string \<times> json) list"

record netBoxCustomField =
  cf_Name :: string

text \<open>The members of an object; JSON null decodes like the empty object.\<close>

definition members :: "json \<Rightarrow> (string \<times> json) list option" where
  "members j = (case j of JNull \<Rightarrow> Some [] | JObj kvs \<Rightarrow> Some kvs | _ \<Rightarrow> None)"

definition dec_list_response ::
  "(json \<Rightarrow> 'a option) \<Rightarrow> json \<Rightarrow> 'a netBoxListResponse option" where
  "dec_list_response d j = do {
     kvs \<leftarrow> members j;
     count \<leftarrow> dec_field ''count'' (dec_int 64) kvs;
     next \<leftarrow> dec_field ''next'' dec_string kvs;
     results \<leftarrow> dec_field ''results'' (dec_slice d) kvs;
     Some \<lparr>lr_Count = count, lr_Next = next, lr_Results = results\<rparr>
   }"

definition dec_tag :: "json \<Rightarrow> netBoxTag option" where
  "dec_tag j = do {
     kvs \<leftarrow> members j;
     name \<leftarrow> dec_field ''name'' dec_string kvs;
     slug \<leftarrow> dec_field ''slug'' dec_string kvs;
     Some \<lparr>tg_Name = name, tg_Slug = slug\<rparr>
   }"

definition dec_prefix :: "(string \<Rightarrow> string option) \<Rightarrow> json \<Rightarrow> netBoxPrefix option" where
  "dec_prefix fl j = do {
     kvs \<leftarrow> members j;
     i \<leftarrow> dec_field ''id'' dec_int32 kvs;
     p \<leftarrow> dec_field ''prefix'' dec_string kvs;
     cf \<leftarrow> dec_field ''custom_fields'' (dec_map_any fl) kvs;
     Some \<lparr>px_ID = i, px_Prefix = p, px_CustomFields = cf\<rparr>
   }"

definition dec_status :: "json \<Rightarrow> netBoxStatus option option" where
  "dec_status j =
     (case j of
        JNull \<Rightarrow> Some None
      | _ \<Rightarrow> do {
          kvs \<leftarrow> members j;
          v \<leftarrow> dec_field ''value'' dec_string kvs;
          l \<leftarrow> dec_field ''label'' dec_string kvs;
          Some (Some \<lparr>ns_Value = v, ns_Label = l\<rparr>)
        })"

definition dec_ip :: "(string \<Rightarrow> string option) \<Rightarrow> json \<Rightarrow> netBoxIPAddress option" where
  "dec_ip fl j = do {
     kvs \<leftarrow> members j;
     i \<leftarrow> dec_field ''id'' dec_int32 kvs;
     a \<leftarrow> dec_field ''address'' dec_string kvs;
     n \<leftarrow> dec_field ''dns_name'' dec_string kvs;
     s \<leftarrow> dec_field ''status'' dec_status kvs;
     ts \<leftarrow> dec_field ''tags'' (dec_slice dec_tag) kvs;
     cf \<leftarrow> dec_field ''custom_fields'' (dec_map_any fl) kvs;
     Some \<lparr>ia_ID = i, ia_Address = a, ia_DNSName = n, ia_Status = s, ia_Tags = ts,
           ia_CustomFields = cf\<rparr>
   }"

definition dec_custom_field :: "json \<Rightarrow> netBoxCustomField option" where
  "dec_custom_field j = do {
     kvs \<leftarrow> members j;
     name \<leftarrow> dec_field ''name'' dec_string kvs;
     Some \<lparr>cf_Name = name\<rparr>
   }"

section \<open>Pure helpers\<close>

definition mapIPAddress :: "netBoxIPAddress \<Rightarrow> AllocatedAddress" where
  "mapIPAddress ip =
     (let address = trim_space (ia_Address ip);
          (address, prefix) =
            (case cut_at (CHR ''/'') address of
               None \<Rightarrow> (address, 0)
             | Some (a, b) \<Rightarrow> (a, case parseInt32 b of Inl e \<Rightarrow> 0 | Inr v \<Rightarrow> v))
      in \<lparr>aa_ID = ia_ID ip, aa_Address = address, aa_Prefix = prefix, aa_DNSName = ia_DNSName ip\<rparr>)"

fun append_unique_loop :: "string list \<Rightarrow> string list \<Rightarrow> string list" where
  "append_unique_loop out [] = out"
| "append_unique_loop out (value # vs) =
     (let value = trim_space value in
      if value = [] then append_unique_loop out vs
      else if value \<in> set out then append_unique_loop out vs
      else append_unique_loop (out @ [value]) vs)"

definition appendUnique :: "string list \<Rightarrow> string list \<Rightarrow> string list" where
  "appendUnique values extras = append_unique_loop [] (values @ extras)"

definition slug_char :: "char \<Rightarrow> bool" where
  "slug_char c = (is_lower c \<or> is_digit c \<or> c = CHR ''_'' \<or> c = CHR ''-'')"

text \<open>\<open>nonSlugCharacters.ReplaceAllString(slug, "-")\<close>: each maximal run of other characters
  becomes one hyphen.\<close>

fun replace_non_slug :: "bool \<Rightarrow> string \<Rightarrow> string" where
  "replace_non_slug inrun [] = []"
| "replace_non_slug inrun (c # s) =
     (if slug_char c then c # replace_non_slug False s
      else if inrun then replace_non_slug True s
      else CHR ''-'' # replace_non_slug True s)"

text \<open>The loop of \<open>slugifyTag\<close> over the runes: the builder and \<open>lastHyphen\<close>.\<close>

fun slug_loop :: "unicode_tables \<Rightarrow> nat list \<Rightarrow> string \<Rightarrow> bool \<Rightarrow> string" where
  "slug_loop U [] b lastHyphen = b"
| "slug_loop U (r # rs) b lastHyphen =
     (if is_letter_rune U r \<or> is_digit_rune U r then slug_loop U rs (b @ encode_rune r) False
      else if r = byte (CHR ''_'') \<or> r = byte (CHR ''-'') then
        (if \<not> lastHyphen \<and> b \<noteq> [] then slug_loop U rs (b @ encode_rune r) True
         else slug_loop U rs b lastHyphen)
      else
        (if \<not> lastHyphen \<and> b \<noteq> [] then slug_loop U rs (b @ ''-'') True
         else slug_loop U rs b lastHyphen))"

definition slugifyTag :: "unicode_tables \<Rightarrow> string \<Rightarrow> string" where
  "slugifyTag U raw =
     (let value = trim_space (to_lower U raw) in
      if value = [] then ''tag''
      else
        (let slug = trim_set ''-_'' (slug_loop U (runes value) [] False);
             slug = trim_set ''-_'' (replace_non_slug False slug)
         in if slug = [] then ''tag'' else slug))"

definition isNoAvailableIPError :: "unicode_tables \<Rightarrow> err \<Rightarrow> bool" where
  "isNoAvailableIPError U e =
     (case as_apiError e of
        None \<Rightarrow> False
      | Some (statusCode, status, raw) \<Rightarrow>
          if statusCode \<noteq> 400 \<and> statusCode \<noteq> 409 then False
          else
            (let body = to_lower U raw in
             str_contains body ''available ip'' \<or> str_contains body ''available addresses''))"

section \<open>Requests\<close>

definition request_headers :: "env \<Rightarrow> APIClient \<Rightarrow> bool \<Rightarrow> (string \<times> string) list" where
  "request_headers E c has_body =
     [(''Authorization'', AuthorizationHeaderValue (ac_token c)),
      (''Accept'', ''application/json''),
      (''User-Agent'', user_agent E)]
     @ (if has_body then [(''Content-Type'', ''application/json'')] else [])"

definition build_request ::
  "env \<Rightarrow> APIClient \<Rightarrow> string \<Rightarrow> string \<Rightarrow> url_query \<Rightarrow> json option \<Rightarrow> http_request" where
  "build_request E c method path query body =
     \<lparr>rq_Method = method,
      rq_URL = ac_baseURL c @ path @ (if query = [] then [] else ''?'' @ encode_query query),
      rq_Headers = request_headers E c (body \<noteq> None),
      rq_Body = body\<rparr>"

definition containsStatus :: "int list \<Rightarrow> int \<Rightarrow> bool" where
  "containsStatus statuses status = (status \<in> set statuses)"

text \<open>
  What \<open>do\<close> makes of a response: \<open>zero\<close> is the zero value of the destination, and
  \<open>decoder\<close> is \<open>None\<close> for a nil destination.
\<close>

definition read_response ::
  "string \<Rightarrow> string \<Rightarrow> 'a \<Rightarrow> (json \<Rightarrow> 'a option) option \<Rightarrow> int list \<Rightarrow> http_response \<Rightarrow> err + 'a" where
  "read_response method path zero decoder expected resp =
     (case rs_Body resp of
        Inl x \<Rightarrow> Inl (Wrapf ''read %s %s response: %w'' [method, path] (Ext x))
      | Inr body \<Rightarrow>
          if \<not> containsStatus expected (rs_StatusCode resp) then
            Inl (APIError (rs_StatusCode resp) (rs_Status resp) body)
          else (case decoder of
            None \<Rightarrow> Inr zero
          | Some d \<Rightarrow>
              if body = [] then Inr zero
              else (case Option.bind (json_parse body) d of
                None \<Rightarrow> Inl (Wrapf ''decode %s %s response: %w'' [method, path]
                          (Ext (OtherErr ''json'')))
              | Some v \<Rightarrow> Inr v)))"

definition client_do ::
  "env \<Rightarrow> APIClient \<Rightarrow> string \<Rightarrow> string \<Rightarrow> url_query \<Rightarrow> json option \<Rightarrow>
     'a \<Rightarrow> (json \<Rightarrow> 'a option) option \<Rightarrow> int list \<Rightarrow> (err + 'a) io" where
  "client_do E c method path query body zero decoder expected h =
     (let req = build_request E c method path query body in
      case url_Parse E (rq_URL req) of
        None \<Rightarrow> Some (Inl (Wrapf ''build %s %s request: %w'' [method, path]
                        (Ext (OtherErr ''url.Parse''))), h)
      | Some _ \<Rightarrow> do {
          (r, h1) \<leftarrow> call (EHttp req) (\<lambda>h. http_do E h (ac_httpClient c) req) h;
          case r of
            Inl e \<Rightarrow> Some (Inl e, h1)
          | Inr resp \<Rightarrow> Some (read_response method path zero decoder expected resp, h1)
        })"

definition client_get ::
  "env \<Rightarrow> APIClient \<Rightarrow> string \<Rightarrow> url_query \<Rightarrow> 'a \<Rightarrow> (json \<Rightarrow> 'a option) \<Rightarrow> (err + 'a) io" where
  "client_get E c path query zero d h =
     client_do E c ''GET'' path query None zero (Some d) [200] h"

definition client_post ::
  "env \<Rightarrow> APIClient \<Rightarrow> string \<Rightarrow> json \<Rightarrow> 'a \<Rightarrow> (json \<Rightarrow> 'a option) \<Rightarrow> int list \<Rightarrow> (err + 'a) io" where
  "client_post E c path body zero d expected h =
     client_do E c ''POST'' path [] (Some body) zero (Some d) expected h"

definition zero_list_response :: "'a netBoxListResponse" where
  "zero_list_response = \<lparr>lr_Count = 0, lr_Next = [], lr_Results = []\<rparr>"

partial_function (option) listAll_loop ::
  "env \<Rightarrow> APIClient \<Rightarrow> (json \<Rightarrow> 'a option) \<Rightarrow> string \<Rightarrow> url_query \<Rightarrow> 'a list \<Rightarrow> hist \<Rightarrow>
     ((err + 'a list) \<times> hist) option" where
  "listAll_loop E c d nextPath nextQuery all h = do {
     (r, h1) \<leftarrow> client_get E c nextPath nextQuery zero_list_response (dec_list_response d) h;
     case r of
       Inl e \<Rightarrow> Some (Inl e, h1)
     | Inr page \<Rightarrow>
         (let all' = all @ lr_Results page in
          if lr_Next page = [] then Some (Inr all', h1)
          else case url_Parse E (lr_Next page) of
            None \<Rightarrow> Some (Inl (Wrapf ''parse next page url %q: %w'' [lr_Next page]
                            (Ext (OtherErr ''url.Parse''))), h1)
          | Some u \<Rightarrow> listAll_loop E c d (u_Path u) (u_Query u) all' h1)
   }"

definition listAll ::
  "env \<Rightarrow> APIClient \<Rightarrow> (json \<Rightarrow> 'a option) \<Rightarrow> string \<Rightarrow> url_query \<Rightarrow> (err + 'a list) io" where
  "listAll E c d path query h = listAll_loop E c d path query [] h"

section \<open>The operations of the client\<close>

definition prefixes_path :: string where
  "prefixes_path = ''/api/ipam/prefixes/''"

definition addresses_path :: string where
  "addresses_path = ''/api/ipam/ip-addresses/''"

definition tags_path :: string where
  "tags_path = ''/api/extras/tags/''"

definition custom_fields_path :: string where
  "custom_fields_path = ''/api/extras/custom-fields/''"

definition available_ips_path :: "int32 \<Rightarrow> string" where
  "available_ips_path i = prefixes_path @ show_int32 i @ ''/available-ips/''"

definition address_path :: "int32 \<Rightarrow> string" where
  "address_path i = addresses_path @ show_int32 i @ ''/''"

definition prefix_query :: "NetBoxPrefixReference \<Rightarrow> url_query" where
  "prefix_query ref =
     (''prefix'', [pr_CIDR ref]) #
     (case pr_VRFID ref of None \<Rightarrow> [] | Some v \<Rightarrow> [(''vrf_id'', [show_int32 v])])"

fun resolve_loop ::
  "env \<Rightarrow> APIClient \<Rightarrow> int32 list \<Rightarrow> NetBoxPrefixReference list \<Rightarrow> hist \<Rightarrow>
     ((err + int32 list) \<times> hist) option" where
  "resolve_loop E c ids [] h = Some (Inr ids, h)"
| "resolve_loop E c ids (ref # refs) h =
     (case pr_ID ref of
        Some i \<Rightarrow> resolve_loop E c (ids @ [i]) refs h
      | None \<Rightarrow>
          if pr_CIDR ref \<noteq> [] then do {
            (r, h1) \<leftarrow> listAll E c (dec_prefix (float_text E)) prefixes_path (prefix_query ref) h;
            case r of
              Inl e \<Rightarrow> Some (Inl (Wrapf ''list prefixes for %q: %w'' [pr_CIDR ref] e), h1)
            | Inr results \<Rightarrow>
                (case results of
                   [] \<Rightarrow> Some (Inl (Errorf ''no NetBox prefix matches %q'' [pr_CIDR ref]), h1)
                 | [p] \<Rightarrow> resolve_loop E c (ids @ [px_ID p]) refs h1
                 | _ \<Rightarrow> Some (Inl (Errorf ''prefix reference %q is ambiguous'' [pr_CIDR ref]), h1))
          }
          else Some (Inl (Errorf ''prefix reference must include id or cidr'' []), h))"

definition ResolvePrefixIDs ::
  "env \<Rightarrow> APIClient \<Rightarrow> NetBoxPrefixReference list \<Rightarrow> (err + int32 list) io" where
  "ResolvePrefixIDs E c refs h = resolve_loop E c [] refs h"

text \<open>\<open>byID[id]\<close> after storing the results in order: the last prefix with that ID.\<close>

definition prefix_by_id :: "netBoxPrefix list \<Rightarrow> int32 \<Rightarrow> netBoxPrefix option" where
  "prefix_by_id results i = List.find (\<lambda>p. px_ID p = i) (rev results)"

definition prefix_details :: "netBoxPrefix list \<Rightarrow> int32 list \<Rightarrow> PrefixDetail list" where
  "prefix_details results ids =
     List.map_filter (\<lambda>i. map_option
       (\<lambda>p. \<lparr>pd_ID = px_ID p, pd_CIDR = trim_space (px_Prefix p), pd_CustomFields = px_CustomFields p\<rparr>)
       (prefix_by_id results i)) ids"

definition GetPrefixDetails :: "env \<Rightarrow> APIClient \<Rightarrow> int32 list \<Rightarrow> (err + PrefixDetail list) io" where
  "GetPrefixDetails E c ids h =
     (if ids = [] then Some (Inr [], h)
      else do {
        (r, h1) \<leftarrow> listAll E c (dec_prefix (float_text E)) prefixes_path
          [(''id__in'', [join_with '','' (map show_int32 ids)])] h;
        case r of
          Inl e \<Rightarrow> Some (Inl (Wrapf ''list prefix details: %w'' [] e), h1)
        | Inr results \<Rightarrow> Some (Inr (prefix_details results ids), h1)
      })"

definition EnsureIPAddressCustomField :: "env \<Rightarrow> APIClient \<Rightarrow> string \<Rightarrow> (err + unit) io" where
  "EnsureIPAddressCustomField E c fieldName h = do {
     (r, h1) \<leftarrow> listAll E c dec_custom_field custom_fields_path
       [(''name'', [fieldName]), (''object_type'', [''ipam.ipaddress''])] h;
     case r of
       Inl e \<Rightarrow> Some (Inl (Wrapf ''list custom fields: %w'' [] e), h1)
     | Inr results \<Rightarrow>
         Some (if results = [] then
                 Inl (Errorf ''NetBox custom field %q for ipam.ipaddress does not exist'' [fieldName])
               else Inr (), h1)
   }"

definition tag_json :: "netBoxTag \<Rightarrow> json" where
  "tag_json t = JObj [(''name'', JStr (tg_Name t)), (''slug'', JStr (tg_Slug t))]"

definition ensureTag :: "env \<Rightarrow> APIClient \<Rightarrow> string \<Rightarrow> (err + netBoxTag) io" where
  "ensureTag E c name h = do {
     (r, h1) \<leftarrow> listAll E c dec_tag tags_path [(''name'', [name])] h;
     case r of
       Inl e \<Rightarrow> Some (Inl (Wrapf ''list tag %q: %w'' [name] e), h1)
     | Inr results \<Rightarrow>
         (case List.find (\<lambda>t. tg_Name t = name) results of
            Some t \<Rightarrow> Some (Inr t, h1)
          | None \<Rightarrow> do {
              (r2, h2) \<leftarrow> client_post E c tags_path
                (tag_json \<lparr>tg_Name = name, tg_Slug = slugifyTag (unicode E) name\<rparr>)
                \<lparr>tg_Name = [], tg_Slug = []\<rparr> dec_tag [201] h1;
              case r2 of
                Inl e \<Rightarrow> Some (Inl (Wrapf ''create tag %q: %w'' [name] e), h2)
              | Inr created \<Rightarrow>
                  Some (if tg_Name created = [] then
                          Inl (Errorf ''create tag %q: empty response'' [name])
                        else Inr created, h2)
            })
   }"

fun ensureTags_loop ::
  "env \<Rightarrow> APIClient \<Rightarrow> netBoxTag list \<Rightarrow> string list \<Rightarrow> hist \<Rightarrow>
     ((err + netBoxTag list) \<times> hist) option" where
  "ensureTags_loop E c out [] h = Some (Inr out, h)"
| "ensureTags_loop E c out (n # names) h =
     (let name = trim_space n in
      if name = [] then ensureTags_loop E c out names h
      else do {
        (r, h1) \<leftarrow> ensureTag E c name h;
        case r of
          Inl e \<Rightarrow> Some (Inl e, h1)
        | Inr tag \<Rightarrow> ensureTags_loop E c (out @ [tag]) names h1
      })"

definition ensureTags :: "env \<Rightarrow> APIClient \<Rightarrow> string list \<Rightarrow> (err + netBoxTag list) io" where
  "ensureTags E c names h = ensureTags_loop E c [] names h"

text \<open>The payload of an allocation, with the claim UID stored last into the custom fields.\<close>

definition allocation_custom_fields :: "AllocationRequest \<Rightarrow> str_map" where
  "allocation_custom_fields req =
     AList.update (ar_ClaimUIDFieldName req) (ar_ClaimUID req)
       (maps_copy [] (em_CustomFields (ar_Metadata req)))"

definition str_map_json :: "str_map \<Rightarrow> json" where
  "str_map_json m = JObj (map (\<lambda>(k, v). (k, JStr v)) m)"

definition allocation_payload :: "AllocationRequest \<Rightarrow> netBoxTag list \<Rightarrow> json" where
  "allocation_payload req tags =
     JObj ([(''status'', JStr (ar_Status req)),
            (''description'', JStr (ar_Description req)),
            (''custom_fields'', str_map_json (allocation_custom_fields req)),
            (''tags'', JArr (map tag_json tags))]
       @ (if em_DNSName (ar_Metadata req) = [] then []
          else [(''dns_name'', JStr (em_DNSName (ar_Metadata req)))])
       @ (case em_TenantID (ar_Metadata req) of
            None \<Rightarrow> [] | Some t \<Rightarrow> [(''tenant'', JNum (show_int32 t))])
       @ (case em_VRFID (ar_Metadata req) of
            None \<Rightarrow> [] | Some v \<Rightarrow> [(''vrf'', JNum (show_int32 v))]))"

definition AllocateIPAddress ::
  "env \<Rightarrow> APIClient \<Rightarrow> int32 \<Rightarrow> AllocationRequest \<Rightarrow> (err + AllocatedAddress) io" where
  "AllocateIPAddress E c prefixID req h = do {
     (r, h1) \<leftarrow> ensureTags E c (appendUnique (em_Tags (ar_Metadata req)) [ar_OwnershipTag req]) h;
     case r of
       Inl e \<Rightarrow> Some (Inl (Wrapf ''ensure tags: %w'' [] e), h1)
     | Inr tags \<Rightarrow> do {
         (r2, h2) \<leftarrow> client_post E c (available_ips_path prefixID)
           (JArr [allocation_payload req tags]) [] (dec_slice (dec_ip (float_text E))) [200, 201] h1;
         case r2 of
           Inl e \<Rightarrow>
             Some (Inl (if isNoAvailableIPError (unicode E) e then ErrNoAvailableIP
                        else Wrapf ''allocate available ip from prefix %d: %w'' [show_int32 prefixID] e), h2)
         | Inr created \<Rightarrow>
             Some (case created of [] \<Rightarrow> Inl ErrNoAvailableIP | ip # _ \<Rightarrow> Inr (mapIPAddress ip), h2)
       }
   }"

text \<open>\<open>fmt.Sprint(item.CustomFields[fieldName])\<close>: an absent field is nil.\<close>

definition custom_field_text :: "(string \<Rightarrow> string option) \<Rightarrow> (string \<times> json) list \<Rightarrow> string \<Rightarrow> string" where
  "custom_field_text fl cf name =
     sprint_any fl (case map_of cf name of None \<Rightarrow> JNull | Some j \<Rightarrow> j)"

definition FindIPAddressByClaimUID ::
  "env \<Rightarrow> APIClient \<Rightarrow> string \<Rightarrow> string \<Rightarrow> string \<Rightarrow> (err + AllocatedAddress option) io" where
  "FindIPAddressByClaimUID E c ownershipTag fieldName claimUID h = do {
     (t, h1) \<leftarrow> ensureTag E c ownershipTag h;
     case t of
       Inl e \<Rightarrow> Some (Inl (Wrapf ''ensure ownership tag: %w'' [] e), h1)
     | Inr _ \<Rightarrow> do {
         (r, h2) \<leftarrow> listAll E c (dec_ip (float_text E)) addresses_path [(''tag'', [ownershipTag])] h1;
         case r of
           Inl e \<Rightarrow> Some (Inl (Wrapf ''list IP addresses: %w'' [] e), h2)
         | Inr results \<Rightarrow>
             Some (Inr (map_option mapIPAddress
               (List.find (\<lambda>item.
                  custom_field_text (float_text E) (ia_CustomFields item) fieldName = claimUID)
                results)), h2)
       }
   }"

definition matches_address :: "string \<Rightarrow> netBoxIPAddress \<Rightarrow> bool" where
  "matches_address address item \<longleftrightarrow>
     trim_space (ia_Address item) = address \<or> trim_space (aa_Address (mapIPAddress item)) = address"

definition FindIPAddressByAddress ::
  "env \<Rightarrow> APIClient \<Rightarrow> string \<Rightarrow> string \<Rightarrow> (err + AllocatedAddress option) io" where
  "FindIPAddressByAddress E c ownershipTag address h = do {
     (t, h1) \<leftarrow> ensureTag E c ownershipTag h;
     case t of
       Inl e \<Rightarrow> Some (Inl (Wrapf ''ensure ownership tag: %w'' [] e), h1)
     | Inr _ \<Rightarrow> do {
         (r, h2) \<leftarrow> listAll E c (dec_ip (float_text E)) addresses_path
           [(''tag'', [ownershipTag]), (''address'', [address])] h1;
         case r of
           Inl e \<Rightarrow> Some (Inl (Wrapf ''list IP addresses by address: %w'' [] e), h2)
         | Inr results \<Rightarrow>
             Some (Inr (map_option mapIPAddress (List.find (matches_address address) results)), h2)
       }
   }"

definition DeleteIPAddress :: "env \<Rightarrow> APIClient \<Rightarrow> int32 \<Rightarrow> (err + unit) io" where
  "DeleteIPAddress E c i h = do {
     (r, h1) \<leftarrow> client_do E c ''DELETE'' (address_path i) [] None () None [204, 404] h;
     case r of
       Inr _ \<Rightarrow> Some (Inr (), h1)
     | Inl e \<Rightarrow>
         Some (case as_apiError e of
             Some (code, _, _) \<Rightarrow>
               if code = 404 then Inr ()
               else Inl (Wrapf ''delete ip address %d: %w'' [show_int32 i] e)
           | None \<Rightarrow> Inl (Wrapf ''delete ip address %d: %w'' [show_int32 i] e), h1)
   }"

definition APIClient_as_Client :: "env \<Rightarrow> APIClient \<Rightarrow> nb_client" where
  "APIClient_as_Client E c =
     \<lparr>nbResolvePrefixIDs = ResolvePrefixIDs E c,
      nbGetPrefixDetails = GetPrefixDetails E c,
      nbEnsureIPAddressCustomField = EnsureIPAddressCustomField E c,
      nbAllocateIPAddress = AllocateIPAddress E c,
      nbFindIPAddressByClaimUID = FindIPAddressByClaimUID E c,
      nbFindIPAddressByAddress = FindIPAddressByAddress E c,
      nbDeleteIPAddress = DeleteIPAddress E c\<rparr>"

definition NewClient :: "env \<Rightarrow> ConnectionConfig \<Rightarrow> err + nb_client" where
  "NewClient E cfg =
     (case NewHTTPClient E cfg of
        Inl e \<Rightarrow> Inl e
      | Inr hc \<Rightarrow>
          (case SplitBaseURL E (cc_BaseURL cfg) of
             Inl e \<Rightarrow> Inl e
           | Inr _ \<Rightarrow> Inr (APIClient_as_Client E
               \<lparr>ac_baseURL = trim_right_byte (CHR ''/'') (cc_BaseURL cfg),
                ac_token = cc_Token cfg, ac_httpClient = hc\<rparr>)))"

end
