(* ===== verification/Go_Url_Facts.thy ===== *)
theory Go_Url_Facts
  imports Go_Url
begin

text \<open>
  Facts of net/url: encoded query values are read back, an absolute URL is parsed by its parts, and a
  URL with a scheme and a host stays one when a plain path and an encoded query are appended to it.
\<close>

section \<open>Round trips\<close>

lemma unhex_upper_hex: "n < 16 \<Longrightarrow> unhex (upper_hex n) = Some n"
proof -
  have "\<forall>n\<in>set [0..<16]. unhex (upper_hex n) = Some n" by code_simp
  then show "n < 16 \<Longrightarrow> unhex (upper_hex n) = Some n" by simp
qed

lemma hex_digit_bytes: "n < 16 \<Longrightarrow> query_keep (upper_hex n)"
proof -
  have "\<forall>n\<in>set [0..<16]. query_keep (upper_hex n)" by code_simp
  then show "n < 16 \<Longrightarrow> query_keep (upper_hex n)" by simp
qed

lemma byte_halves: "byte c div 16 < 16" "byte c mod 16 < 16"
proof -
  have "byte c < 256" by (simp add: byte_def)
  then show "byte c div 16 < 16" by simp
qed simp

lemma not_query_keep:
  "\<not> query_keep (CHR ''%'')" "\<not> query_keep (CHR ''+'')" "\<not> query_keep (CHR ''&'')" "\<not> query_keep (CHR ''='')"
  "\<not> query_keep (CHR '';'')" "\<not> query_keep (CHR ''#'')" "\<not> query_keep (CHR ''?'')"
  by code_simp+

lemma unescape_escape_byte: "unescape True (escape_byte c @ t) = map_option ((#) c) (unescape True t)"
proof -
  have "char_of (byte c) = c" by (simp add: byte_def)
  moreover have "c \<noteq> CHR ''%'' \<and> c \<noteq> CHR ''+''" if "query_keep c" using that not_query_keep by auto
  ultimately show ?thesis by (simp add: escape_byte_def unhex_upper_hex byte_halves)
qed

lemma unescape_query_escape [simp]: "unescape True (query_escape s) = Some s"
  by (induction s) (simp_all add: query_escape_def unescape_escape_byte)

lemma query_escape_bytes: "c \<in> set (query_escape s) \<Longrightarrow> query_keep c \<or> c = CHR ''+'' \<or> c = CHR ''%''"
  by (auto simp: query_escape_def escape_byte_def hex_digit_bytes byte_halves split: if_splits)

lemma query_escape_free:
  "CHR ''&'' \<notin> set (query_escape s)" "CHR ''='' \<notin> set (query_escape s)" "CHR '';'' \<notin> set (query_escape s)"
  using query_escape_bytes not_query_keep by fastforce+

lemma parse_encode_pair [simp]: "parse_pair (encode_pair kv) = Some kv"
proof -
  have "cut_at (CHR ''='') (encode_pair kv) = Some (query_escape (fst kv), query_escape (snd kv))"
    by (simp add: encode_pair_def cut_at_Some query_escape_free)
  moreover have "CHR '';'' \<notin> set (encode_pair kv)" "encode_pair kv \<noteq> []"
    by (simp_all add: encode_pair_def query_escape_free)
  ultimately show ?thesis by (simp add: parse_pair_def)
qed

lemma add_value_new: "k \<notin> fst ` set q \<Longrightarrow> add_value q (k, v) = q @ [(k, [v])]"
  by (induction q) auto

lemma add_value_old: "k \<notin> fst ` set q \<Longrightarrow> add_value (q @ [(k, vs)]) (k, v) = q @ [(k, vs @ [v])]"
  by (induction q) auto

lemma add_values:
  "k \<notin> fst ` set q \<Longrightarrow> foldl add_value (q @ [(k, vs)]) (map (Pair k) ws) = q @ [(k, vs @ ws)]"
  by (induction ws arbitrary: vs) (simp_all add: add_value_old)

text \<open>Values as the program and \<open>Query\<close> make them: one entry for a key, with some value.\<close>

definition proper_query :: "url_query \<Rightarrow> bool" where
  "proper_query q \<longleftrightarrow> distinct (map fst q) \<and> (\<forall>(k, vs)\<in>set q. vs \<noteq> []) \<and> length (query_pairs (sort_key fst q)) \<le> maxQueryParams"

lemma foldl_query_pairs:
  "distinct (map fst (acc @ q)) \<Longrightarrow> \<forall>(k, vs)\<in>set q. vs \<noteq> [] \<Longrightarrow>
     foldl add_value acc (query_pairs q) = acc @ q"
proof (induction q arbitrary: acc)
  case Nil
  then show ?case by (simp add: query_pairs_def)
next
  case (Cons e q)
  obtain k v vs where e: "e = (k, v # vs)" using Cons.prems(2) by (cases e; cases "snd e") auto
  then have k: "k \<notin> fst ` set acc" using Cons.prems(1) by auto
  have "foldl add_value acc (query_pairs (e # q)) = foldl add_value (acc @ [e]) (query_pairs q)"
    using add_values [OF k, of "[v]" vs] by (simp add: query_pairs_def e add_value_new [OF k])
  with Cons show ?case by simp
qed

lemma split_encoded:
  "split_on (CHR ''&'') (join_with ''&'' (map encode_pair ps)) = (if ps = [] then [[]] else map encode_pair ps)"
proof (cases "ps = []")
  case False
  then have "split_on (CHR ''&'') (join_with [CHR ''&''] (map encode_pair ps)) = map encode_pair ps"
    by (intro split_on_join) (auto simp: encode_pair_def query_escape_free)
  with False show ?thesis by simp
qed simp

lemma map_filter_parse_pair: "List.map_filter parse_pair (map encode_pair ps) = ps"
  by (induction ps) (simp_all add: List.map_filter_simps)

lemma parse_encode_query:
  assumes "proper_query q"
  shows "parse_query (encode_query q) = sort_key fst q"
proof -
  let ?ps = "query_pairs (sort_key fst q)"
  have q: "distinct (map fst ([] @ sort_key fst q))" "\<forall>(k, vs)\<in>set (sort_key fst q). vs \<noteq> []"
    using assms by (auto simp: proper_query_def distinct_map)
  have len: "length ?ps \<le> maxQueryParams" using assms by (simp add: proper_query_def)
  show ?thesis
  proof (cases "?ps = []")
    case True
    have "parse_pair [] = None" by (simp add: parse_pair_def)
    with True foldl_query_pairs [OF q] show ?thesis
      by (simp add: parse_query_def encode_query_def maxQueryParams_def List.map_filter_simps)
  next
    case False
    with len foldl_query_pairs [OF q] show ?thesis
      by (simp add: parse_query_def encode_query_def split_encoded map_filter_parse_pair)
  qed
qed

section \<open>The parts of an absolute URL\<close>

definition scheme_char :: "char \<Rightarrow> bool" where
  "scheme_char c = (is_lower c \<or> is_upper c \<or> is_digit c \<or> c \<in> set ''+-.'')"

text \<open>A scheme as \<open>getScheme\<close> accepts it.\<close>

definition scheme_text :: "string \<Rightarrow> bool" where
  "scheme_text s = (case s of [] \<Rightarrow> False | c # t \<Rightarrow> (is_lower c \<or> is_upper c) \<and> list_all scheme_char t)"

lemma scheme_char_not: "\<not> scheme_char (CHR '':'')" "\<not> scheme_char (CHR ''#'')" "\<not> scheme_char (CHR ''?'')" "\<not> scheme_char (CHR ''*'')"
  by code_simp+

lemma scheme_text_char: "scheme_text s \<Longrightarrow> c \<in> set s \<Longrightarrow> scheme_char c"
  by (auto simp: scheme_text_def scheme_char_def list_all_iff split: list.splits)

lemma get_scheme_tail:
  "acc \<noteq> [] \<Longrightarrow> list_all scheme_char t \<Longrightarrow> get_scheme raw acc (t @ CHR '':'' # s) = Some (acc @ t, s)"
proof (induction t arbitrary: acc)
  case Nil
  then show ?case using scheme_char_not(1) by (simp add: scheme_char_def)
next
  case (Cons c t)
  then show ?case by (auto simp: scheme_char_def)
qed

lemma get_scheme_text: "scheme_text sc \<Longrightarrow> get_scheme raw [] (sc @ CHR '':'' # s) = Some (sc, s)"
  by (cases sc) (auto simp: scheme_text_def get_scheme_tail)

lemma get_scheme_inv:
  "get_scheme raw acc s = Some (sc, r) \<Longrightarrow> sc \<noteq> [] \<Longrightarrow>
     (acc = [] \<or> scheme_text acc) \<Longrightarrow> acc @ s = sc @ CHR '':'' # r \<and> scheme_text sc"
proof (induction raw acc s rule: get_scheme.induct)
  case (1 raw acc)
  then show ?case by simp
next
  case (2 raw acc c s)
  have snoc: "scheme_text (acc @ [c])" if "acc \<noteq> []" "scheme_char c" "scheme_text acc"
    using that by (cases acc) (auto simp: scheme_text_def)
  consider "is_lower c \<or> is_upper c" | "\<not> (is_lower c \<or> is_upper c)" "is_digit c \<or> c \<in> set ''+-.''"
    | "\<not> (is_lower c \<or> is_upper c)" "\<not> (is_digit c \<or> c \<in> set ''+-.'')" by blast
  then show ?case
  proof cases
    case 1
    then have "scheme_text (acc @ [c])" using snoc "2.prems"(3)
      by (cases "acc = []") (auto simp: scheme_text_def scheme_char_def)
    with 1 "2.IH"(1) "2.prems" show ?thesis by simp
  next
    case 2
    then have "scheme_text (acc @ [c])" if "acc \<noteq> []" using snoc "2.prems"(3) that by (auto simp: scheme_char_def)
    with 2 "2.IH"(2) "2.prems" show ?thesis by (auto split: if_splits)
  next
    case 3
    with "2.prems" show ?thesis by (auto split: if_splits)
  qed
qed

lemma cut_text_append: "d \<notin> set s \<Longrightarrow> cut_text d (s @ d # t) = (s, t)"
proof -
  assume "d \<notin> set s"
  then have "cut_at d (s @ d # t) = Some (s, t)" by (simp add: cut_at_Some)
  then show ?thesis by (simp add: cut_text_def)
qed

lemma cut_text_free: "d \<notin> set s \<Longrightarrow> cut_text d s = (s, [])"
  by (simp add: cut_text_def cut_at_None [THEN iffD2])

text \<open>Text that is empty or begins with a byte.\<close>

definition starts :: "char \<Rightarrow> string \<Rightarrow> bool" where
  "starts d s \<longleftrightarrow> s = [] \<or> (\<exists>t. s = d # t)"

lemma cut_text_starts: "d \<notin> set s \<Longrightarrow> starts d t \<Longrightarrow> cut_text d (s @ t) = (s, tl t)"
  using cut_text_append cut_text_free by (auto simp: starts_def)

lemma cut_text_inv: "cut_text d s = (a, b) \<Longrightarrow> \<exists>t. s = a @ t \<and> starts d t \<and> b = tl t \<and> d \<notin> set a"
  by (cases "cut_at d s") (auto simp: cut_text_def cut_at_None cut_at_Some starts_def)

lemma takeWhile_starts:
  "d \<notin> set a \<Longrightarrow> starts d p \<Longrightarrow> takeWhile (\<lambda>c. c \<noteq> d) (a @ p) = a \<and> dropWhile (\<lambda>c. c \<noteq> d) (a @ p) = p"
  by (induction a) (auto simp: starts_def)

text \<open>The text of an absolute URL, in parts that keep their first byte.\<close>

record url_text =
  ut_scheme :: string
  ut_authority :: string
  ut_path :: string
  ut_query :: string
  ut_fragment :: string

definition url_string :: "url_text \<Rightarrow> string" where
  "url_string t = ut_scheme t @ ''://'' @ ut_authority t @ ut_path t @ ut_query t @ ut_fragment t"

definition url_text_ok :: "url_text \<Rightarrow> bool" where
  "url_text_ok t \<longleftrightarrow>
     scheme_text (ut_scheme t) \<and>
     (CHR ''/'' \<notin> set (ut_authority t) \<and> CHR ''?'' \<notin> set (ut_authority t) \<and> CHR ''#'' \<notin> set (ut_authority t)) \<and>
     (starts (CHR ''/'') (ut_path t) \<and> CHR ''?'' \<notin> set (ut_path t) \<and> CHR ''#'' \<notin> set (ut_path t)) \<and>
     (starts (CHR ''?'') (ut_query t) \<and> CHR ''#'' \<notin> set (ut_query t)) \<and>
     starts (CHR ''#'') (ut_fragment t)"

definition parse_url_text :: "(string \<Rightarrow> string \<Rightarrow> string option) \<Rightarrow> url_text \<Rightarrow> url option" where
  "parse_url_text hostf t =
     (if has_ctl (ut_authority t @ ut_path t @ ut_query t) \<or> unescape False (tl (ut_fragment t)) = None then None
      else case (parse_authority (hostf (map lower_byte (ut_scheme t))) (ut_authority t), unescape False (ut_path t)) of
          (Some h, Some p) \<Rightarrow>
            Some \<lparr>u_Scheme = map lower_byte (ut_scheme t), u_Host = h, u_Path = p, u_Query = parse_query (tl (ut_query t))\<rparr>
        | _ \<Rightarrow> None)"

lemma scheme_no_ctl: "scheme_text s \<Longrightarrow> \<not> has_ctl s"
proof -
  have "\<not> scheme_char c" if "c < CHR '' '' \<or> c = CHR 0x7F" for c
    using that by (auto simp: scheme_char_def is_lower_def is_upper_def is_digit_def less_char_def less_eq_char_def)
  then show "scheme_text s \<Longrightarrow> \<not> has_ctl s" by (auto simp: has_ctl_def list_ex_iff dest: scheme_text_char)
qed

lemma has_ctl_append [simp]: "has_ctl (s @ t) \<longleftrightarrow> has_ctl s \<or> has_ctl t"
  by (auto simp: has_ctl_def)

lemma parse_url_string:
  assumes "url_text_ok t"
  shows "parse_url hostf (url_string t) = parse_url_text hostf t"
proof -
  obtain sc au pa qu fr where t: "t = \<lparr>ut_scheme = sc, ut_authority = au, ut_path = pa, ut_query = qu, ut_fragment = fr\<rparr>"
    by (cases t) auto
  from assms have sc: "scheme_text sc" and au: "CHR ''/'' \<notin> set au" "CHR ''?'' \<notin> set au" "CHR ''#'' \<notin> set au"
    and pa: "starts (CHR ''/'') pa" "CHR ''?'' \<notin> set pa" "CHR ''#'' \<notin> set pa"
    and qu: "starts (CHR ''?'') qu" "CHR ''#'' \<notin> set qu" and fr: "starts (CHR ''#'') fr"
    by (simp_all add: t url_text_ok_def)
  let ?s = "sc @ ''://'' @ au @ pa @ qu"
  have scs: "CHR ''#'' \<notin> set sc" "sc \<noteq> []" using sc scheme_text_char scheme_char_not
    by (auto simp: scheme_text_def)
  have "CHR ''#'' \<notin> set ?s" using scs au pa qu by simp
  from cut_text_starts [OF this fr] have cut: "cut_text (CHR ''#'') (url_string t) = (?s, tl fr)"
    by (simp add: url_string_def t)
  have ctl: "has_ctl ?s \<longleftrightarrow> has_ctl (au @ pa @ qu)" using scheme_no_ctl [OF sc] by (simp add: has_ctl_def)
  have star: "(?s = ''*'') = False" using scs(2) by (cases sc) auto
  have scheme: "get_scheme ?s [] ?s = Some (sc, (''//'' @ au @ pa) @ qu)"
    using get_scheme_text [OF sc, of ?s "''//'' @ au @ pa @ qu"] by simp
  have query: "cut_text (CHR ''?'') ((''//'' @ au @ pa) @ qu) = (''//'' @ au @ pa, tl qu)"
    using au pa qu by (intro cut_text_starts) auto
  have "parse_url hostf (url_string t) =
      (if has_ctl (au @ pa @ qu) \<or> unescape False (tl fr) = None then None
       else parse_rest hostf (map lower_byte sc) (''//'' @ au @ pa) (parse_query (tl qu)))"
    unfolding parse_url_def cut Let_def prod.case ctl star if_False scheme option.case query ..
  then show ?thesis
    using takeWhile_starts [OF au(1) pa(1)] scs(2)
    by (simp add: parse_url_text_def t parse_rest_def has_prefix_def split: option.split)
qed

text \<open>Every URL with a scheme and a host has the parts.\<close>

lemma parse_authority_Nil [simp]: "parse_authority hostf [] = Some []"
  by (simp add: parse_authority_def)

lemma has_prefix_iff: "has_prefix s p \<longleftrightarrow> (\<exists>t. s = p @ t)"
  by (metis append_eq_conv_conj has_prefix_def)

lemma parse_rest_host:
  assumes "parse_rest hostf sc rest q = Some u" "sc \<noteq> []" "u_Host u \<noteq> []"
  shows "\<exists>au pa. rest = ''//'' @ au @ pa \<and> au \<noteq> [] \<and> CHR ''/'' \<notin> set au \<and> starts (CHR ''/'') pa"
proof -
  have slash: "has_prefix rest ''/''"
  proof (rule ccontr)
    assume "\<not> has_prefix rest ''/''"
    with assms(1,2) have "u_Host u = []" by (auto simp: parse_rest_def)
    with assms(3) show False ..
  qed
  have "has_prefix rest ''//''"
  proof (rule ccontr)
    assume "\<not> has_prefix rest ''//''"
    with assms slash show False by (auto simp: parse_rest_def split: option.splits)
  qed
  then obtain r where rest: "rest = ''//'' @ r" by (auto simp: has_prefix_iff)
  let ?au = "takeWhile (\<lambda>c. c \<noteq> CHR ''/'') r" and ?pa = "dropWhile (\<lambda>c. c \<noteq> CHR ''/'') r"
  have "?au \<noteq> []"
    using assms by (auto simp: parse_rest_def rest has_prefix_def split: option.splits)
  moreover have "starts (CHR ''/'') ?pa"
    using hd_dropWhile [of "\<lambda>c. c \<noteq> CHR ''/''" r] by (cases ?pa) (auto simp: starts_def)
  moreover have "CHR ''/'' \<notin> set ?au" by (auto dest: set_takeWhileD)
  ultimately show ?thesis by (intro exI [of _ ?au] exI [of _ ?pa]) (simp add: rest)
qed

lemma parse_url_parts:
  assumes "parse_url hostf raw = Some u" "u_Scheme u \<noteq> []" "u_Host u \<noteq> []"
  shows "\<exists>t. raw = url_string t \<and> url_text_ok t \<and> ut_authority t \<noteq> []"
proof -
  obtain s frag where cut: "cut_text (CHR ''#'') raw = (s, frag)" by (cases "cut_text (CHR ''#'') raw")
  then obtain fr where fr: "raw = s @ fr" "starts (CHR ''#'') fr" "CHR ''#'' \<notin> set s" using cut_text_inv by blast
  from assms cut obtain sc r where scheme: "get_scheme s [] s = Some (sc, r)"
    by (auto simp: parse_url_def split: if_splits option.splits)
  obtain r' rq where query: "cut_text (CHR ''?'') r = (r', rq)" by (cases "cut_text (CHR ''?'') r")
  then obtain qu where qu: "r = r' @ qu" "starts (CHR ''?'') qu" "CHR ''?'' \<notin> set r'" using cut_text_inv by blast
  from assms cut scheme query have rest: "parse_rest hostf (map lower_byte sc) r' (parse_query rq) = Some u"
    by (auto simp: parse_url_def split: if_splits)
  then have "u_Scheme u = map lower_byte sc" by (auto simp: parse_rest_def split: if_splits option.splits prod.splits)
  with assms(2) have sc: "sc \<noteq> []" by auto
  with get_scheme_inv [OF scheme] have s: "s = sc @ CHR '':'' # r" "scheme_text sc" by simp_all
  from parse_rest_host [OF rest _ assms(3)] sc obtain au pa where
    r: "r' = ''//'' @ au @ pa" "au \<noteq> []" "CHR ''/'' \<notin> set au" "starts (CHR ''/'') pa" by auto
  let ?t = "\<lparr>ut_scheme = sc, ut_authority = au, ut_path = pa, ut_query = qu, ut_fragment = fr\<rparr>"
  have "raw = url_string ?t" by (simp add: url_string_def fr(1) s(1) qu(1) r(1))
  moreover have "url_text_ok ?t" using fr qu s r by (simp add: url_text_ok_def)
  ultimately show ?thesis using r(2) by (intro exI [of _ ?t]) simp
qed

section \<open>Extending a base URL\<close>

lemma unescape_append:
  "unescape b x \<noteq> None \<Longrightarrow> unescape b y \<noteq> None \<Longrightarrow> unescape b (x @ y) \<noteq> None"
proof (induction b x rule: unescape.induct)
  case (1 b)
  then show ?case by simp
next
  case (2 b c s)
  show ?case
  proof (cases "c = CHR ''%''")
    case False
    with 2 show ?thesis by simp
  next
    case True
    with "2.prems" obtain a d s' where "s = a # d # s'" by (auto split: list.splits)
    with True "2.prems" "2.IH"(1) show ?thesis by (simp split: option.splits)
  qed
qed

lemma unescape_plain: "CHR ''%'' \<notin> set s \<Longrightarrow> unescape False s = Some s"
  by (induction s) auto

lemma unhex_slash [simp]: "unhex (CHR ''/'') = None"
  by code_simp

lemma unescape_before_slash:
  "unescape b (x @ CHR ''/'' # y) \<noteq> None \<Longrightarrow> unescape b x \<noteq> None"
proof (induction b x rule: unescape.induct)
  case (1 b)
  then show ?case by simp
next
  case (2 b c s)
  show ?case
  proof (cases "c = CHR ''%''")
    case False
    with 2 show ?thesis by auto
  next
    case True
    show ?thesis
    proof (cases s)
      case Nil
      with True "2.prems" show ?thesis by (cases y) simp_all
    next
      case (Cons a s')
      then show ?thesis using True "2.prems" "2.IH"(1)
        by (cases s') (auto split: option.splits)
    qed
  qed
qed

lemma takeWhile_eq_replicate: "takeWhile (\<lambda>c. c = d) s = replicate (length (takeWhile (\<lambda>c. c = d) s)) d"
  by (induction s) auto

lemma trim_right_replicate: "\<exists>n. s = trim_right_byte d s @ replicate n d"
proof -
  let ?n = "length (takeWhile (\<lambda>c. c = d) (rev s))"
  have "rev s = replicate ?n d @ dropWhile (\<lambda>c. c = d) (rev s)"
    unfolding takeWhile_eq_replicate [symmetric] by simp
  then have "rev (rev s) = rev (dropWhile (\<lambda>c. c = d) (rev s)) @ replicate ?n d"
    by (metis rev_append rev_replicate)
  then show ?thesis unfolding trim_right_byte_def by (intro exI [of _ ?n]) simp
qed

lemma unescape_slashes: "unescape b (t @ replicate n (CHR ''/'')) \<noteq> None \<Longrightarrow> unescape b t \<noteq> None"
  by (cases n) (simp, metis replicate_Suc unescape_before_slash)

lemma unescape_trim: "unescape b s \<noteq> None \<Longrightarrow> unescape b (trim_right_byte (CHR ''/'') s) \<noteq> None"
  using trim_right_replicate [of s "CHR ''/''"] by (metis unescape_slashes)

lemma trim_right_append:
  "trim_right_byte d (x @ y) = (if trim_right_byte d y = [] then trim_right_byte d x else x @ trim_right_byte d y)"
  by (auto simp: trim_right_byte_def dropWhile_append)

lemma trim_right_other: "x \<noteq> [] \<Longrightarrow> last x \<noteq> d \<Longrightarrow> trim_right_byte d x = x"
  by (cases x rule: rev_cases) (simp_all add: trim_right_byte_def)

text \<open>The part of a request URL after the base: a plain path and an encoded query.\<close>

definition plain_path :: "string \<Rightarrow> bool" where
  "plain_path p \<longleftrightarrow>
     starts (CHR ''/'') p \<and> CHR ''%'' \<notin> set p \<and> CHR ''?'' \<notin> set p \<and> CHR ''#'' \<notin> set p \<and> \<not> has_ctl p"

definition query_suffix :: "url_query \<Rightarrow> string" where
  "query_suffix q = (if q = [] then [] else ''?'' @ encode_query q)"

lemma encode_pair_bytes: "c \<in> set (encode_pair kv) \<Longrightarrow> query_keep c \<or> c \<in> set ''+%=''"
  by (auto simp: encode_pair_def dest: query_escape_bytes)

lemma set_join_with: "set (join_with sep ss) \<subseteq> set sep \<union> \<Union> (set ` set ss)"
  by (induction sep ss rule: join_with.induct) auto

lemma encode_query_bytes: "c \<in> set (encode_query q) \<Longrightarrow> query_keep c \<or> c \<in> set ''+%=&''"
  using set_join_with [of "''&''"] encode_pair_bytes by (fastforce simp: encode_query_def)

lemma keep_not_ctl: "query_keep c \<Longrightarrow> \<not> c < CHR '' ''" "query_keep c \<Longrightarrow> c \<noteq> CHR 0x7F"
  by (auto simp: query_keep_def is_lower_def is_upper_def is_digit_def less_char_def less_eq_char_def)

lemma unescape_query_escape_path: "unescape False (query_escape s) \<noteq> None"
proof (induction s)
  case Nil
  then show ?case by (simp add: query_escape_def)
next
  case (Cons c s)
  have "unescape False (escape_byte c) \<noteq> None"
    using not_query_keep(1) by (auto simp: escape_byte_def unhex_upper_hex byte_halves)
  from unescape_append [OF this Cons.IH] show ?case by (simp add: query_escape_def)
qed

lemma unescape_join:
  "\<forall>s\<in>set ss. unescape False s \<noteq> None \<Longrightarrow> unescape False (join_with ''&'' ss) \<noteq> None"
proof (induction "''&''" ss rule: join_with.induct)
  case (3 s t ss)
  then have "unescape False (''&'' @ join_with ''&'' (t # ss)) \<noteq> None" by simp
  from unescape_append [OF _ this] 3 show ?case by simp
qed simp_all

lemma unescape_encode_query: "unescape False (encode_query q) \<noteq> None"
proof -
  have "unescape False (encode_pair kv) \<noteq> None" for kv
  proof -
    have "unescape False (''='' @ query_escape (snd kv)) \<noteq> None" using unescape_query_escape_path by simp
    from unescape_append [OF unescape_query_escape_path this] show ?thesis by (simp add: encode_pair_def)
  qed
  then show ?thesis unfolding encode_query_def by (intro unescape_join) simp
qed

lemma query_suffix_facts:
  "starts (CHR ''?'') (query_suffix q)" "CHR ''#'' \<notin> set (query_suffix q)" "\<not> has_ctl (query_suffix q)"
  "unescape False (query_suffix q) \<noteq> None" "CHR ''#'' \<notin> set (encode_query q)"
proof -
  show hash: "CHR ''#'' \<notin> set (encode_query q)" using encode_query_bytes not_query_keep(6) by force
  have "\<not> has_ctl (encode_query q)" using encode_query_bytes keep_not_ctl by (fastforce simp: has_ctl_def list_ex_iff)
  then show "\<not> has_ctl (query_suffix q)" by (simp add: query_suffix_def has_ctl_def)
  show "starts (CHR ''?'') (query_suffix q)" "CHR ''#'' \<notin> set (query_suffix q)" using hash
    by (auto simp: query_suffix_def starts_def)
  show "unescape False (query_suffix q) \<noteq> None" using unescape_encode_query by (simp add: query_suffix_def)
qed

lemma starts_append: "s \<noteq> [] \<Longrightarrow> starts d s \<Longrightarrow> starts d (s @ t)"
  by (auto simp: starts_def)

lemma starts_trim: "starts d s \<Longrightarrow> d \<noteq> c \<Longrightarrow> s \<noteq> [] \<Longrightarrow> starts d (trim_right_byte c s) \<and> trim_right_byte c s \<noteq> []"
proof -
  assume "starts d s" "d \<noteq> c" "s \<noteq> []"
  then obtain t where s: "s = [d] @ t" by (auto simp: starts_def)
  show ?thesis unfolding s trim_right_append using \<open>d \<noteq> c\<close> by (simp add: starts_def trim_right_byte_def)
qed

lemma trim_right_prefix: "\<exists>t. s = trim_right_byte d s @ t"
  using trim_right_replicate by blast

lemma set_trim_right: "set (trim_right_byte d s) \<subseteq> set s"
  by (metis trim_right_prefix set_append Un_upper1)

lemma has_ctl_trim: "\<not> has_ctl s \<Longrightarrow> \<not> has_ctl (trim_right_byte d s)"
  by (metis trim_right_prefix has_ctl_append)

lemma starts_trim_any: "starts d s \<Longrightarrow> starts d (trim_right_byte c s)"
  using trim_right_prefix [of s c] by (cases "trim_right_byte c s") (auto simp: starts_def)

definition extend_text :: "url_text \<Rightarrow> string \<Rightarrow> string \<Rightarrow> url_text" where
  "extend_text t p q =
     (let trim = trim_right_byte (CHR ''/'') in
      if ut_fragment t \<noteq> [] then t\<lparr>ut_fragment := trim (ut_fragment t) @ p @ q\<rparr>
      else if ut_query t \<noteq> [] then t\<lparr>ut_query := trim (ut_query t) @ p @ q\<rparr>
      else t\<lparr>ut_path := trim (ut_path t) @ p, ut_query := q\<rparr>)"

lemma extend_url_string:
  assumes "url_text_ok t" "ut_authority t \<noteq> []"
  shows "trim_right_byte (CHR ''/'') (url_string t) @ p @ q = url_string (extend_text t p q)"
proof -
  obtain sc au pa qu fr where t: "t = \<lparr>ut_scheme = sc, ut_authority = au, ut_path = pa, ut_query = qu, ut_fragment = fr\<rparr>"
    by (cases t) auto
  have ok: "CHR ''/'' \<notin> set au" "au \<noteq> []" "starts (CHR ''?'') qu" "starts (CHR ''#'') fr"
    using assms by (simp_all add: t url_text_ok_def)
  let ?trim = "trim_right_byte (CHR ''/'')"
  have "last au \<noteq> CHR ''/''" using ok(1) last_in_set [OF ok(2)] by metis
  then have au: "?trim (x @ au) = x @ au" for x using ok(2) by (intro trim_right_other) auto
  have pa: "?trim (x @ au @ pa) = x @ au @ ?trim pa" for x
    using trim_right_append [of "CHR ''/''" "x @ au" pa] au [of x] by (cases "?trim pa = []") simp_all
  have nonempty: "?trim fr \<noteq> []" if "fr \<noteq> []" using starts_trim [OF ok(4)] that by simp
  have nonempty': "?trim qu \<noteq> []" if "qu \<noteq> []" using starts_trim [OF ok(3)] that by simp
  have fr: "?trim (x @ fr) = x @ ?trim fr" if "fr \<noteq> []" for x
    using nonempty [OF that] by (simp add: trim_right_append)
  have qu: "?trim (x @ qu) = x @ ?trim qu" if "qu \<noteq> []" for x
    using nonempty' [OF that] by (simp add: trim_right_append)
  show ?thesis
    using fr [of "sc @ ''://'' @ au @ pa @ qu"] qu [of "sc @ ''://'' @ au @ pa"] pa [of "sc @ ''://''"]
    by (simp add: t url_string_def extend_text_def Let_def)
qed

lemma extend_text_ok:
  assumes "url_text_ok t" "plain_path p" "starts (CHR ''?'') q" "CHR ''#'' \<notin> set q"
  shows "url_text_ok (extend_text t p q)"
proof -
  have sub: "c \<notin> set (trim_right_byte (CHR ''/'') s)" if "c \<notin> set s" for c s
    using that set_trim_right by blast
  have p: "starts (CHR ''/'') p" "CHR ''?'' \<notin> set p" "CHR ''#'' \<notin> set p" using assms(2) by (simp_all add: plain_path_def)
  have joined: "starts (CHR ''/'') (trim_right_byte (CHR ''/'') s @ p)" if "starts (CHR ''/'') s" for s
    using starts_trim_any [OF that, of "CHR ''/''"] p(1) by (auto simp: starts_def)
  show ?thesis
    using assms p sub joined starts_trim starts_append
    by (auto simp: url_text_ok_def extend_text_def Let_def)
qed

lemma parse_extended:
  assumes base: "parse_url hostf base = Some u" "u_Scheme u \<noteq> []" "u_Host u \<noteq> []"
    and p: "plain_path p"
  shows "parse_url hostf (trim_right_byte (CHR ''/'') base @ p @ query_suffix q) \<noteq> None"
proof -
  from parse_url_parts [OF base] obtain t where t: "base = url_string t" "url_text_ok t" "ut_authority t \<noteq> []" by blast
  let ?t = "extend_text t p (query_suffix q)"
  have "parse_url_text hostf t = Some u" using base(1) parse_url_string [OF t(2)] by (simp add: t(1))
  then have ctl: "\<not> has_ctl (ut_authority t)" "\<not> has_ctl (ut_path t)" "\<not> has_ctl (ut_query t)"
    and fr: "unescape False (tl (ut_fragment t)) \<noteq> None" and pa: "unescape False (ut_path t) \<noteq> None"
    and au: "parse_authority (hostf (map lower_byte (ut_scheme t))) (ut_authority t) \<noteq> None"
    by (auto simp: parse_url_text_def split: if_splits option.splits)
  have p': "\<not> has_ctl p" "unescape False p \<noteq> None" using p unescape_plain by (simp_all add: plain_path_def)
  note q = query_suffix_facts [of q]
  have tail: "unescape False (p @ query_suffix q) \<noteq> None" using unescape_append [OF p'(2) q(4)] .
  have frag: "unescape False (tl (trim_right_byte (CHR ''/'') (ut_fragment t) @ p @ query_suffix q)) \<noteq> None"
    if "ut_fragment t \<noteq> []"
  proof -
    have st: "starts (CHR ''#'') (ut_fragment t)" using t(2) by (simp add: url_text_ok_def)
    with that obtain f where f: "ut_fragment t = [CHR ''#''] @ f" by (auto simp: starts_def)
    have trim: "trim_right_byte (CHR ''/'') (ut_fragment t) = [CHR ''#''] @ trim_right_byte (CHR ''/'') f"
      unfolding f trim_right_append by (simp add: trim_right_byte_def)
    have "unescape False (trim_right_byte (CHR ''/'') f) \<noteq> None" using fr by (intro unescape_trim) (simp add: f)
    from unescape_append [OF this tail] show ?thesis unfolding trim by simp
  qed
  have path: "unescape False (trim_right_byte (CHR ''/'') (ut_path t) @ p) \<noteq> None"
    using unescape_append [OF unescape_trim [OF pa] p'(2)] .
  have some: "parse_url_text hostf t' \<noteq> None \<longleftrightarrow>
      \<not> has_ctl (ut_authority t' @ ut_path t' @ ut_query t') \<and> unescape False (tl (ut_fragment t')) \<noteq> None \<and>
      parse_authority (hostf (map lower_byte (ut_scheme t'))) (ut_authority t') \<noteq> None \<and>
      unescape False (ut_path t') \<noteq> None" for t'
    by (simp add: parse_url_text_def split: option.split)
  have "parse_url_text hostf ?t \<noteq> None"
    unfolding some
    using ctl fr pa au p' q(3) frag path has_ctl_trim [OF ctl(2)] has_ctl_trim [OF ctl(3)]
    by (simp add: extend_text_def Let_def)
  moreover have "trim_right_byte (CHR ''/'') base @ p @ query_suffix q = url_string ?t"
    unfolding t(1) by (rule extend_url_string [OF t(2,3)])
  ultimately show ?thesis using parse_url_string [OF extend_text_ok [OF t(2) p q(1,2)]] by simp
qed

end
