(* ===== verification/Netbox_Client_Facts.thy ===== *)
theory Netbox_Client_Facts
  imports Netbox_Client Go_Url_Facts
begin

text \<open>
  What the NetBox client promises, for every server: which requests each operation may send,
  that its errors wrap at most one \<open>*apiError\<close> in a chain, and the functional results of its
  pure parts. The promises the controllers rely on are the locale \<open>netbox_client\<close>, interpreted
  at the end on \<open>APIClient_as_Client\<close>.
\<close>

section \<open>Kinds of requests\<close>

definition has_suffix :: "string \<Rightarrow> string \<Rightarrow> bool" where
  "has_suffix s t = has_prefix (rev s) (rev t)"

definition is_get :: "event \<Rightarrow> bool" where
  "is_get ev = (case ev of EHttp r \<Rightarrow> rq_Method r = ''GET'' | _ \<Rightarrow> False)"

definition is_alloc :: "event \<Rightarrow> bool" where
  "is_alloc ev =
     (case ev of
        EHttp r \<Rightarrow> rq_Method r = ''POST'' \<and> has_suffix (rq_URL r) ''/available-ips/''
      | _ \<Rightarrow> False)"

definition is_delete :: "event \<Rightarrow> bool" where
  "is_delete ev = (case ev of EHttp r \<Rightarrow> rq_Method r = ''DELETE'' | _ \<Rightarrow> False)"

definition is_http :: "event \<Rightarrow> bool" where
  "is_http ev = (case ev of EHttp r \<Rightarrow> True | _ \<Rightarrow> False)"

text \<open>A request that neither allocates nor deletes an address.\<close>

definition quiet :: "event \<Rightarrow> bool" where
  "quiet ev \<longleftrightarrow> is_http ev \<and> \<not> is_alloc ev \<and> \<not> is_delete ev"

lemma is_get_quiet: "is_get ev \<Longrightarrow> quiet ev"
  by (auto simp: is_get_def quiet_def is_alloc_def is_delete_def is_http_def split: event.splits)

lemma has_suffix_append: "has_suffix (p @ t) t"
  by (simp add: has_suffix_def)

lemma has_suffix_take: "has_suffix s t \<longleftrightarrow> take (length t) (rev s) = rev t"
  by (simp add: has_suffix_def has_prefix_def)

lemma is_alloc_request:
  "is_alloc (EHttp (build_request E c ''POST'' (available_ips_path i) [] body))"
  by (simp add: is_alloc_def build_request_def available_ips_path_def has_suffix_take)

lemma tag_post_quiet: "quiet (EHttp (build_request E c ''POST'' tags_path [] body))"
  by (simp add: quiet_def is_http_def is_alloc_def is_delete_def build_request_def tags_path_def
      has_suffix_take)

section \<open>The URLs of requests\<close>

text \<open>The base URL of a client that \<open>NewClient\<close> made: a URL with a scheme and a host, without the
  slashes at its end.\<close>

definition base_ok :: "env \<Rightarrow> APIClient \<Rightarrow> bool" where
  "base_ok E c \<longleftrightarrow>
     (\<exists>raw u. url_Parse E raw = Some u \<and> u_Scheme u \<noteq> [] \<and> u_Host u \<noteq> [] \<and>
        ac_baseURL c = trim_right_byte (CHR ''/'') raw)"

lemma request_url: "rq_URL (build_request E c m p q b) = ac_baseURL c @ p @ query_suffix q"
  by (simp add: build_request_def query_suffix_def)

lemma request_parses:
  "base_ok E c \<Longrightarrow> plain_path p \<Longrightarrow> \<exists>u. url_Parse E (rq_URL (build_request E c m p q b)) = Some u"
  using parse_extended by (fastforce simp: base_ok_def request_url url_Parse_def)

definition plain_char :: "char \<Rightarrow> bool" where
  "plain_char c = (c \<notin> set ''%?#'' \<and> \<not> has_ctl [c])"

lemma list_all_plain:
  "list_all plain_char p \<longleftrightarrow> CHR ''%'' \<notin> set p \<and> CHR ''?'' \<notin> set p \<and> CHR ''#'' \<notin> set p \<and> \<not> has_ctl p"
proof (induction p)
  case (Cons c p)
  have "has_ctl (c # p) \<longleftrightarrow> has_ctl [c] \<or> has_ctl p" using has_ctl_append [of "[c]" p] by simp
  with Cons show ?case by (auto simp: plain_char_def)
qed (simp add: has_ctl_def)

lemma plain_path_bytes: "plain_path p \<longleftrightarrow> starts (CHR ''/'') p \<and> list_all plain_char p"
  unfolding plain_path_def list_all_plain ..

lemma digit_plain: "is_digit c \<Longrightarrow> plain_char c"
  by (auto simp: plain_char_def has_ctl_def is_digit_def less_char_def less_eq_char_def)

lemma show_int32_plain: "list_all plain_char (show_int32 i)"
proof -
  have "plain_char (CHR ''-'')" by code_simp
  moreover have "list_all plain_char (show_nat n)" for n
    using show_nat_digits digit_plain by (auto simp: list_all_iff)
  ultimately show ?thesis by (simp add: show_int32_def show_int_def)
qed

lemma fixed_bytes:
  "list_all plain_char prefixes_path" "list_all plain_char addresses_path" "list_all plain_char ''/available-ips/''"
  "list_all plain_char ''/''" "list_all plain_char tags_path" "list_all plain_char custom_fields_path"
  by code_simp+

lemma plain_paths [simp]:
  "plain_path prefixes_path" "plain_path addresses_path" "plain_path tags_path" "plain_path custom_fields_path"
  "plain_path (available_ips_path i)" "plain_path (address_path i)" "plain_path (prefixes_path @ show_int32 i @ ''/'')"
  using fixed_bytes show_int32_plain [of i]
  by (simp_all add: plain_path_bytes available_ips_path_def address_path_def)
     (simp_all add: starts_def prefixes_path_def addresses_path_def tags_path_def custom_fields_path_def)

text \<open>A request of such a client is sent.\<close>

lemma client_do_sent:
  "base_ok E c \<Longrightarrow> plain_path p \<Longrightarrow> client_do E c m p q b z d ex h =
     Some ((case http_do E h (ac_httpClient c) (build_request E c m p q b) of
              Inl x \<Rightarrow> Inl (Ext x) | Inr resp \<Rightarrow> read_response m p z d ex resp),
       h @ [EHttp (build_request E c m p q b)])"
  using request_parses [of E c p m q b]
  by (auto simp: client_do_def call_def Let_def split: sum.split)

section \<open>One request\<close>

lemma read_response_chain: "read_response m p z d ex resp = Inl e \<Longrightarrow> client_err e"
  by (auto simp: read_response_def split: sum.splits option.splits if_splits)

lemma client_do_returns [simp]: "client_do E c m p q b z d ex h \<noteq> None"
  by (auto simp: client_do_def Let_def call_def split: option.splits sum.splits)

lemma client_do_cases:
  assumes "client_do E c m p q b z d ex h = Some (r, h')"
  obtains (unsent) e where "r = Inl e" "h' = h" "client_err e" "as_apiError e = None"
  | (transport) x where "r = Inl (Ext x)" "h' = h @ [EHttp (build_request E c m p q b)]"
      "http_do E h (ac_httpClient c) (build_request E c m p q b) = Inl x"
  | (answered) resp where "r = read_response m p z d ex resp"
      "h' = h @ [EHttp (build_request E c m p q b)]"
      "http_do E h (ac_httpClient c) (build_request E c m p q b) = Inr resp"
  using assms
  by (auto simp: client_do_def Let_def call_def split: option.splits sum.splits)

lemma client_do_holds:
  "holds (\<lambda>r h'. (h' = h \<or> h' = h @ [EHttp (build_request E c m p q b)]) \<and>
      (\<forall>e. r = Inl e \<longrightarrow> client_err e) \<and>
      (\<forall>v. r = Inr v \<longrightarrow> h' = h @ [EHttp (build_request E c m p q b)]))
    (client_do E c m p q b z d ex h)"
  by (rule holdsI) (auto elim!: client_do_cases dest: read_response_chain read_response_chain [OF sym])

lemma client_get_holds:
  "holds (\<lambda>r h'. grows is_get h h' \<and> (\<forall>e. r = Inl e \<longrightarrow> client_err e)) (client_get E c p q z d h)"
  unfolding client_get_def
  by (rule holds_mono [OF client_do_holds]) (auto simp: is_get_def build_request_def)

section \<open>Pagination\<close>

lemma listAll_loop_safe:
  assumes "listAll_loop E c d p q all h = Some res"
  shows "grows is_get h (snd res) \<and> (\<forall>e. fst res = Inl e \<longrightarrow> client_err e) \<and>
    (\<forall>xs. fst res = Inr xs \<longrightarrow> (\<exists>ys. xs = all @ ys))"
proof (rule listAll_loop.raw_induct [where P = "\<lambda>E c d p q all h res.
      grows is_get h (snd res) \<and> (\<forall>e. fst res = Inl e \<longrightarrow> client_err e) \<and>
      (\<forall>xs. fst res = Inr xs \<longrightarrow> (\<exists>ys. xs = all @ ys))", OF _ assms])
  fix f E c d p q all h res
  assume IH: "\<And>E c d p q all h res. f E c d p q all h = Some res \<Longrightarrow>
      grows is_get h (snd res) \<and> (\<forall>e. fst res = Inl e \<longrightarrow> client_err e) \<and>
      (\<forall>xs. fst res = Inr xs \<longrightarrow> (\<exists>ys. xs = all @ ys))"
    and eq: "Option.bind (client_get E c p q zero_list_response (dec_list_response d) h)
      (\<lambda>(r, h1). case r of Inl e \<Rightarrow> Some (Inl e, h1)
        | Inr page \<Rightarrow>
          let all' = all @ lr_Results page in
          if lr_Next page = [] then Some (Inr all', h1)
          else case url_Parse E (lr_Next page) of
            None \<Rightarrow> Some (Inl (Wrapf ''parse next page url %q: %w'' [lr_Next page]
                            (Ext (OtherErr ''url.Parse''))), h1)
          | Some u \<Rightarrow> f E c d (u_Path u) (u_Query u) all' h1) = Some res"
  from eq obtain r h1 where
    get: "client_get E c p q zero_list_response (dec_list_response d) h = Some (r, h1)"
    by (cases "client_get E c p q zero_list_response (dec_list_response d) h") auto
  have g: "grows is_get h h1" "\<And>e. r = Inl e \<Longrightarrow> client_err e"
    using holdsD [OF client_get_holds get] by auto
  show "grows is_get h (snd res) \<and> (\<forall>e. fst res = Inl e \<longrightarrow> client_err e) \<and>
      (\<forall>xs. fst res = Inr xs \<longrightarrow> (\<exists>ys. xs = all @ ys))"
  proof (cases r)
    case (Inl e)
    with eq get g show ?thesis by auto
  next
    case (Inr page)
    show ?thesis
    proof (cases "lr_Next page = [] \<or> url_Parse E (lr_Next page) = None")
      case True
      with eq get g Inr show ?thesis by (auto simp: Let_def split: if_splits)
    next
      case False
      then obtain u where "lr_Next page \<noteq> []" "url_Parse E (lr_Next page) = Some u" by auto
      with eq get Inr have "f E c d (u_Path u) (u_Query u) (all @ lr_Results page) h1 = Some res"
        by (simp add: Let_def)
      from IH [OF this] g show ?thesis by (auto intro: grows_trans)
    qed
  qed
qed

lemma listAll_holds:
  "holds (\<lambda>r h'. grows is_get h h' \<and> (\<forall>e. r = Inl e \<longrightarrow> client_err e)) (listAll E c d p q h)"
  by (rule holdsI) (auto simp: listAll_def dest: listAll_loop_safe)

text \<open>The chain of pages a server offers from a link on, as a relation.\<close>

inductive paged ::
  "env \<Rightarrow> APIClient \<Rightarrow> (json \<Rightarrow> 'a option) \<Rightarrow> string \<Rightarrow> url_query \<Rightarrow> hist \<Rightarrow> 'a list \<Rightarrow> hist \<Rightarrow> bool"
  for E c d where
  last: "client_get E c p q zero_list_response (dec_list_response d) h = Some (Inr page, h1) \<Longrightarrow>
    lr_Next page = [] \<Longrightarrow> paged E c d p q h (lr_Results page) h1"
| more: "client_get E c p q zero_list_response (dec_list_response d) h = Some (Inr page, h1) \<Longrightarrow>
    lr_Next page \<noteq> [] \<Longrightarrow> url_Parse E (lr_Next page) = Some u \<Longrightarrow>
    paged E c d (u_Path u) (u_Query u) h1 xs h' \<Longrightarrow>
    paged E c d p q h (lr_Results page @ xs) h'"

lemma paged_listAll_loop:
  "paged E c d p q h xs h' \<Longrightarrow> listAll_loop E c d p q all h = Some (Inr (all @ xs), h')"
proof (induction arbitrary: all rule: paged.induct)
  case (last p q h page h1)
  then show ?case by (subst listAll_loop.simps) (simp add: Let_def)
next
  case (more p q h page h1 u xs h')
  then show ?case by (subst listAll_loop.simps) (simp add: Let_def)
qed

lemma listAll_loop_paged:
  assumes "listAll_loop E c d p q all h = Some res" "fst res = Inr ys"
  shows "\<exists>xs. ys = all @ xs \<and> paged E c d p q h xs (snd res)"
proof -
  have "\<forall>ys. fst res = Inr ys \<longrightarrow> (\<exists>xs. ys = all @ xs \<and> paged E c d p q h xs (snd res))"
  proof (rule listAll_loop.raw_induct [where P = "\<lambda>E c d p q all h res.
      \<forall>ys. fst res = Inr ys \<longrightarrow> (\<exists>xs. ys = all @ xs \<and> paged E c d p q h xs (snd res))",
      OF _ assms(1)])
    fix f E c d p q all h res
    assume IH: "\<And>E c d p q all h res. f E c d p q all h = Some res \<Longrightarrow>
        \<forall>ys. fst res = Inr ys \<longrightarrow> (\<exists>xs. ys = all @ xs \<and> paged E c d p q h xs (snd res))"
      and eq: "Option.bind (client_get E c p q zero_list_response (dec_list_response d) h)
        (\<lambda>(r, h1). case r of Inl e \<Rightarrow> Some (Inl e, h1)
          | Inr page \<Rightarrow>
            let all' = all @ lr_Results page in
            if lr_Next page = [] then Some (Inr all', h1)
            else case url_Parse E (lr_Next page) of
              None \<Rightarrow> Some (Inl (Wrapf ''parse next page url %q: %w'' [lr_Next page]
                              (Ext (OtherErr ''url.Parse''))), h1)
            | Some u \<Rightarrow> f E c d (u_Path u) (u_Query u) all' h1) = Some res"
    from eq obtain r h1 where
      get: "client_get E c p q zero_list_response (dec_list_response d) h = Some (r, h1)"
      by (cases "client_get E c p q zero_list_response (dec_list_response d) h") auto
    show "\<forall>ys. fst res = Inr ys \<longrightarrow> (\<exists>xs. ys = all @ xs \<and> paged E c d p q h xs (snd res))"
    proof (cases r)
      case (Inl e)
      with eq get show ?thesis by auto
    next
      case (Inr page)
      consider "lr_Next page = []" | "lr_Next page \<noteq> []" "url_Parse E (lr_Next page) = None"
        | u where "lr_Next page \<noteq> []" "url_Parse E (lr_Next page) = Some u" by blast
      then show ?thesis
      proof cases
        case 1
        have "paged E c d p q h (lr_Results page) h1"
          by (rule paged.last) (use get Inr 1 in auto)
        with eq get Inr 1 show ?thesis by (auto simp: Let_def)
      next
        case 2
        with eq get Inr show ?thesis by (auto simp: Let_def)
      next
        case 3
        with eq get Inr have "f E c d (u_Path u) (u_Query u) (all @ lr_Results page) h1 = Some res"
          by (simp add: Let_def)
        from IH [OF this] get Inr 3 show ?thesis by (auto intro: paged.more)
      qed
    qed
  qed
  with assms(2) show ?thesis by blast
qed

lemma listAll_iff_paged: "listAll E c d p q h = Some (Inr xs, h') \<longleftrightarrow> paged E c d p q h xs h'"
  using paged_listAll_loop [of E c d p q h xs h' "[]"]
    listAll_loop_paged [of E c d p q "[]" h "(Inr xs, h')"]
  by (auto simp: listAll_def)

section \<open>The operations, for every server\<close>

text \<open>One ID per reference, in order; a reference by ID resolves to that ID.\<close>

definition aligned :: "NetBoxPrefixReference list \<Rightarrow> int32 list \<Rightarrow> bool" where
  "aligned refs ids =
     list_all2 (\<lambda>ref i. case pr_ID ref of Some j \<Rightarrow> i = j | None \<Rightarrow> pr_CIDR ref \<noteq> []) refs ids"

lemma aligned_simps [simp]:
  "aligned [] ids = (ids = [])"
  "aligned (ref # refs) (i # ids) =
     ((case pr_ID ref of Some j \<Rightarrow> i = j | None \<Rightarrow> pr_CIDR ref \<noteq> []) \<and> aligned refs ids)"
  by (auto simp: aligned_def)

lemma aligned_length: "aligned refs ids \<Longrightarrow> length ids = length refs"
  by (auto simp: aligned_def dest: list_all2_lengthD)

lemma resolve_loop_holds:
  "holds (\<lambda>r h'. grows is_get h h' \<and> (\<forall>e. r = Inl e \<longrightarrow> client_err e) \<and>
      (\<forall>js. r = Inr js \<longrightarrow> (\<exists>ks. js = ids @ ks \<and> aligned refs ks)))
    (resolve_loop E c ids refs h)"
proof (induction refs arbitrary: ids h)
  case Nil
  show ?case by simp
next
  case (Cons ref refs)
  show ?case
  proof (cases "pr_ID ref")
    case (Some i)
    show ?thesis
      unfolding resolve_loop.simps Some option.case
      by (rule holds_mono [OF Cons.IH]) (use Some in auto)
  next
    case None
    have rec: "holds (\<lambda>r h'. grows is_get h h' \<and> (\<forall>e. r = Inl e \<longrightarrow> client_err e) \<and>
      (\<forall>js. r = Inr js \<longrightarrow> (\<exists>ks. js = ids @ ks \<and> aligned (ref # refs) ks)))
      (resolve_loop E c (ids @ [i]) refs h1)"
      if "grows is_get h h1" "pr_CIDR ref \<noteq> []" for h1 i
      by (rule holds_mono [OF Cons.IH]) (use that None in \<open>auto intro: grows_trans\<close>)
    show ?thesis
      unfolding resolve_loop.simps None option.case holds_if holds_bind
      by (auto intro!: holds_mono [OF listAll_holds] simp: rec split: sum.splits list.splits)
  qed
qed

lemma ResolvePrefixIDs_holds:
  "holds (\<lambda>r h'. grows is_get h h' \<and> (\<forall>e. r = Inl e \<longrightarrow> client_err e) \<and>
      (\<forall>ids. r = Inr ids \<longrightarrow> aligned refs ids)) (ResolvePrefixIDs E c refs h)"
  unfolding ResolvePrefixIDs_def
  by (rule holds_mono [OF resolve_loop_holds]) auto

lemma prefix_by_id_ID: "prefix_by_id results i = Some p \<Longrightarrow> px_ID p = i \<and> p \<in> set results"
  by (auto simp: prefix_by_id_def dest: find_SomeD)

lemma prefix_details_IDs:
  "map pd_ID (prefix_details results ids) = filter (\<lambda>i. i \<in> px_ID ` set results) ids"
proof (induction ids)
  case Nil
  show ?case by (simp add: prefix_details_def List.map_filter_def)
next
  case (Cons i ids)
  show ?case
  proof (cases "prefix_by_id results i")
    case None
    then have "i \<notin> px_ID ` set results"
      by (force simp: prefix_by_id_def dest: find_NoneD)
    with None Cons show ?thesis by (simp add: prefix_details_def List.map_filter_simps)
  next
    case (Some p)
    then have "px_ID p = i" "i \<in> px_ID ` set results" using prefix_by_id_ID by force+
    with Some Cons show ?thesis by (simp add: prefix_details_def List.map_filter_simps)
  qed
qed

lemma GetPrefixDetails_holds:
  "holds (\<lambda>r h'. grows is_get h h' \<and> (\<forall>e. r = Inl e \<longrightarrow> client_err e) \<and>
      (\<forall>ds. r = Inr ds \<longrightarrow> (\<exists>S. map pd_ID ds = filter (\<lambda>i. i \<in> S) ids)))
    (GetPrefixDetails E c ids h)"
proof (cases "ids = []")
  case False
  then show ?thesis
    unfolding GetPrefixDetails_def if_not_P [OF False] holds_bind
    by (auto intro!: holds_mono [OF listAll_holds] simp: prefix_details_IDs split: sum.splits)
qed (simp add: GetPrefixDetails_def)

lemma EnsureIPAddressCustomField_holds:
  "holds (\<lambda>r h'. grows is_get h h' \<and> (\<forall>e. r = Inl e \<longrightarrow> client_err e))
    (EnsureIPAddressCustomField E c f h)"
  unfolding EnsureIPAddressCustomField_def holds_bind
  by (auto intro!: holds_mono [OF listAll_holds] split: sum.splits)

text \<open>\<open>ensureTag\<close> only reads, or reads and then posts to the tags endpoint.\<close>

definition tag_post :: "env \<Rightarrow> APIClient \<Rightarrow> string \<Rightarrow> event" where
  "tag_post E c name =
     EHttp (build_request E c ''POST'' tags_path []
       (Some (tag_json \<lparr>tg_Name = name, tg_Slug = slugifyTag (unicode E) name\<rparr>)))"

lemma ensureTag_cases:
  "holds (\<lambda>r h'. (\<forall>e. r = Inl e \<longrightarrow> client_err e) \<and>
      (\<exists>h1. grows is_get h h1 \<and> (h' = h1 \<or> h' = h1 @ [tag_post E c name])))
    (ensureTag E c name h)"
  unfolding ensureTag_def client_post_def holds_bind
  by (rule holds_mono [OF listAll_holds])
     (auto intro!: holds_mono [OF client_do_holds] simp: holds_bind tag_post_def
       split: sum.splits option.splits)

lemma ensureTag_holds:
  "holds (\<lambda>r h'. grows quiet h h' \<and> (\<forall>e. r = Inl e \<longrightarrow> client_err e)) (ensureTag E c name h)"
  by (rule holds_mono [OF ensureTag_cases])
     (auto intro: grows_mono is_get_quiet grows_snoc_trans tag_post_quiet simp: tag_post_def)

lemma ensureTags_loop_holds:
  "holds (\<lambda>r h'. grows quiet h h' \<and> (\<forall>e. r = Inl e \<longrightarrow> client_err e))
    (ensureTags_loop E c out names h)"
proof (induction names arbitrary: out h)
  case (Cons n names)
  show ?case
    unfolding ensureTags_loop.simps Let_def holds_if holds_bind
    by (auto intro!: holds_mono [OF ensureTag_holds] holds_mono [OF Cons.IH] Cons.IH
        intro: grows_trans split: sum.splits)
qed simp

lemma ensureTags_holds:
  "holds (\<lambda>r h'. grows quiet h h' \<and> (\<forall>e. r = Inl e \<longrightarrow> client_err e)) (ensureTags E c names h)"
  by (simp add: ensureTags_def ensureTags_loop_holds)

lemma grows_quiet_get: "grows quiet h h1 \<Longrightarrow> grows is_get h1 h2 \<Longrightarrow> grows quiet h h2"
  by (blast intro: grows_trans grows_mono is_get_quiet)

lemma FindIPAddressByClaimUID_holds:
  "holds (\<lambda>r h'. grows quiet h h' \<and> (\<forall>e. r = Inl e \<longrightarrow> client_err e))
    (FindIPAddressByClaimUID E c tag f uid h)"
  unfolding FindIPAddressByClaimUID_def holds_bind prod.case
  by (rule holds_mono [OF ensureTag_holds])
     (auto intro!: holds_mono [OF listAll_holds] intro: grows_quiet_get
       simp: holds_bind split: sum.splits)

lemma FindIPAddressByAddress_holds:
  "holds (\<lambda>r h'. grows quiet h h' \<and> (\<forall>e. r = Inl e \<longrightarrow> client_err e))
    (FindIPAddressByAddress E c tag a h)"
  unfolding FindIPAddressByAddress_def holds_bind prod.case
  by (rule holds_mono [OF ensureTag_holds])
     (auto intro!: holds_mono [OF listAll_holds] intro: grows_quiet_get
       simp: holds_bind split: sum.splits)

text \<open>How many allocation and deletion requests a stretch of history holds.\<close>

definition allocs :: "event list \<Rightarrow> nat" where
  "allocs es = length (filter is_alloc es)"

definition deletes :: "event list \<Rightarrow> nat" where
  "deletes es = length (filter is_delete es)"

lemma allocs_simps [simp]:
  "allocs [] = 0" "allocs (e # es) = (if is_alloc e then 1 else 0) + allocs es"
  "allocs (es @ fs) = allocs es + allocs fs"
  by (auto simp: allocs_def)

lemma deletes_simps [simp]:
  "deletes [] = 0" "deletes (e # es) = (if is_delete e then 1 else 0) + deletes es"
  "deletes (es @ fs) = deletes es + deletes fs"
  by (auto simp: deletes_def)

lemma quiet_counts: "list_all quiet es \<Longrightarrow> allocs es = 0 \<and> deletes es = 0"
  by (auto simp: list_all_iff quiet_def allocs_def deletes_def filter_empty_conv)

lemma alloc_not_delete: "is_alloc ev \<Longrightarrow> \<not> is_delete ev \<and> is_http ev"
  by (auto simp: is_alloc_def is_delete_def is_http_def split: event.splits)

text \<open>An allocation first ensures the tags, then sends at most one allocation request; it sends
  one whenever it returns an address or reports an exhausted prefix.\<close>

lemma AllocateIPAddress_cases:
  "holds (\<lambda>r h'. (\<exists>h1. grows quiet h h1 \<and>
        (h' = h1 \<and> (\<exists>e. r = Inl e \<and> client_err e) \<or>
         (\<exists>tags. h' = h1 @ [EHttp (build_request E c ''POST'' (available_ips_path i) []
                              (Some (JArr [allocation_payload req tags])))] \<and>
           (\<forall>e. r = Inl e \<longrightarrow> client_err e \<or> e = ErrNoAvailableIP)))))
    (AllocateIPAddress E c i req h)"
  unfolding AllocateIPAddress_def holds_bind prod.case
proof (rule holds_mono [OF ensureTags_holds], goal_cases)
  case (1 r h1)
  show ?case
  proof (cases r)
    case (Inl e)
    with 1 show ?thesis by auto
  next
    case (Inr tags)
    show ?thesis
      unfolding Inr sum.case holds_bind prod.case client_post_def
    proof (rule holdsI, goal_cases)
      case (1 r2 h2)
      with \<open>grows quiet h h1 \<and> (\<forall>e. r = Inl e \<longrightarrow> client_err e)\<close> show ?case
        by (auto elim!: client_do_cases simp: isNoAvailableIPError_def
            dest: read_response_chain [OF sym] split: sum.splits list.splits)
    qed
  qed
qed

text \<open>A request for an address of one prefix.\<close>

definition allocates_from :: "int32 \<Rightarrow> event \<Rightarrow> bool" where
  "allocates_from i ev =
     (case ev of
        EHttp r \<Rightarrow> rq_Method r = ''POST'' \<and> has_suffix (rq_URL r) (available_ips_path i)
      | _ \<Rightarrow> False)"

lemma has_suffix_iff: "has_suffix s t \<longleftrightarrow> (\<exists>p. s = p @ t)"
  by (metis append_eq_conv_conj has_prefix_def has_suffix_append has_suffix_def rev_append rev_rev_ident
      append_take_drop_id)

lemma allocates_from_is_alloc: "allocates_from i ev \<Longrightarrow> is_alloc ev \<and> \<not> is_delete ev \<and> is_http ev"
  by (auto simp: allocates_from_def is_alloc_def is_delete_def is_http_def has_suffix_iff
      available_ips_path_def split: event.splits)

lemma allocates_from_request:
  "allocates_from i (EHttp (build_request E c ''POST'' (available_ips_path i) [] body))"
  by (simp add: allocates_from_def build_request_def has_suffix_append)

text \<open>A deletion of one record.\<close>

definition deletes_id :: "int32 \<Rightarrow> event \<Rightarrow> bool" where
  "deletes_id i ev =
     (case ev of
        EHttp r \<Rightarrow> rq_Method r = ''DELETE'' \<and> has_suffix (rq_URL r) (address_path i)
      | _ \<Rightarrow> False)"

lemma deletes_id_is_delete: "deletes_id i ev \<Longrightarrow> is_delete ev \<and> \<not> is_alloc ev \<and> is_http ev"
  by (auto simp: deletes_id_def is_delete_def is_alloc_def is_http_def split: event.splits)

lemma delete_request: "deletes_id i (EHttp (build_request E c ''DELETE'' (address_path i) [] None))"
  by (simp add: deletes_id_def build_request_def has_suffix_append)

lemma DeleteIPAddress_holds:
  "holds (\<lambda>r h'. (h' = h \<or> (\<exists>ev. deletes_id i ev \<and> h' = h @ [ev])) \<and>
      (\<forall>e. r = Inl e \<longrightarrow> client_err e) \<and> (\<forall>u. r = Inr u \<longrightarrow> h' \<noteq> h))
    (DeleteIPAddress E c i h)"
  unfolding DeleteIPAddress_def holds_bind prod.case
  by (rule holdsI, erule client_do_cases)
     (auto simp: delete_request dest: read_response_chain split: sum.splits option.splits)

section \<open>The interface Client\<close>

text \<open>
  What the controllers rely on of a \<open>Client\<close>: lookups send no request that allocates or
  deletes; an allocation sends at most one allocating request, and one if it yields an address;
  \<open>ErrNoAvailableIP\<close> comes from \<open>AllocateIPAddress\<close> only; a deletion sends at most the one
  request for its record; resolved prefixes are aligned with their references and details keep
  the order of the IDs.
\<close>

locale netbox_client =
  fixes C :: nb_client
  assumes resolve_law:
    "holds (\<lambda>r h'. grows quiet h h' \<and> (\<forall>e. r = Inl e \<longrightarrow> client_err e) \<and>
        (\<forall>ids. r = Inr ids \<longrightarrow> aligned refs ids)) (nbResolvePrefixIDs C refs h)"
    and details_law:
    "holds (\<lambda>r h'. grows quiet h h' \<and> (\<forall>e. r = Inl e \<longrightarrow> client_err e) \<and>
        (\<forall>ds. r = Inr ds \<longrightarrow> (\<exists>S. map pd_ID ds = filter (\<lambda>i. i \<in> S) ids)))
      (nbGetPrefixDetails C ids h)"
    and field_law:
    "holds (\<lambda>r h'. grows quiet h h' \<and> (\<forall>e. r = Inl e \<longrightarrow> client_err e))
      (nbEnsureIPAddressCustomField C f h)"
    and allocate_law:
    "holds (\<lambda>r h'. grows (\<lambda>ev. quiet ev \<or> allocates_from i ev) h h' \<and> allocs (added h h') \<le> 1 \<and>
        (\<forall>a. r = Inr a \<longrightarrow> allocs (added h h') = 1) \<and>
        (\<forall>e. r = Inl e \<longrightarrow> client_err e \<or> (e = ErrNoAvailableIP \<and> allocs (added h h') = 1)))
      (nbAllocateIPAddress C i req h)"
    and find_uid_law:
    "holds (\<lambda>r h'. grows quiet h h' \<and> (\<forall>e. r = Inl e \<longrightarrow> client_err e))
      (nbFindIPAddressByClaimUID C tag f uid h)"
    and find_address_law:
    "holds (\<lambda>r h'. grows quiet h h' \<and> (\<forall>e. r = Inl e \<longrightarrow> client_err e))
      (nbFindIPAddressByAddress C tag a h)"
    and delete_law:
    "holds (\<lambda>r h'. (h' = h \<or> (\<exists>ev. deletes_id i ev \<and> h' = h @ [ev])) \<and>
        (\<forall>e. r = Inl e \<longrightarrow> client_err e) \<and> (\<forall>u. r = Inr u \<longrightarrow> h' \<noteq> h))
      (nbDeleteIPAddress C i h)"

lemma is_alloc_not_quiet: "quiet ev \<Longrightarrow> \<not> is_alloc ev"
  by (simp add: quiet_def)

lemma grows_quiet_allocs: "grows quiet h h' \<Longrightarrow> allocs (added h h') = 0 \<and> deletes (added h h') = 0"
  by (auto simp: grows_added dest: quiet_counts)

lemma AllocateIPAddress_holds:
  "holds (\<lambda>r h'. grows (\<lambda>ev. quiet ev \<or> allocates_from i ev) h h' \<and> allocs (added h h') \<le> 1 \<and>
      (\<forall>a. r = Inr a \<longrightarrow> allocs (added h h') = 1) \<and>
      (\<forall>e. r = Inl e \<longrightarrow> client_err e \<or> (e = ErrNoAvailableIP \<and> allocs (added h h') = 1)))
    (AllocateIPAddress E c i req h)"
proof (rule holds_mono [OF AllocateIPAddress_cases], elim exE conjE disjE)
  fix r h' h1 e
  assume "grows quiet h h1" "h' = h1" "r = Inl e" "client_err e"
  then show "grows (\<lambda>ev. quiet ev \<or> allocates_from i ev) h h' \<and> allocs (added h h') \<le> 1 \<and>
      (\<forall>a. r = Inr a \<longrightarrow> allocs (added h h') = 1) \<and>
      (\<forall>e. r = Inl e \<longrightarrow> client_err e \<or> (e = ErrNoAvailableIP \<and> allocs (added h h') = 1))"
    by (auto dest: grows_quiet_allocs intro: grows_mono)
next
  fix r h' h1 tags
  assume g: "grows quiet h h1" and errs: "\<forall>e. r = Inl e \<longrightarrow> client_err e \<or> e = ErrNoAvailableIP"
    and h': "h' = h1 @ [EHttp (build_request E c ''POST'' (available_ips_path i) []
                  (Some (JArr [allocation_payload req tags])))]"
  from g obtain t where "h1 = h @ t" "list_all quiet t" by (auto simp: grows_def)
  with h' errs show "grows (\<lambda>ev. quiet ev \<or> allocates_from i ev) h h' \<and> allocs (added h h') \<le> 1 \<and>
      (\<forall>a. r = Inr a \<longrightarrow> allocs (added h h') = 1) \<and>
      (\<forall>e. r = Inl e \<longrightarrow> client_err e \<or> (e = ErrNoAvailableIP \<and> allocs (added h h') = 1))"
    by (auto simp: grows_def is_alloc_request allocates_from_request quiet_counts list_all_iff)
qed

lemma get_quiet_law:
  "grows is_get h h' \<Longrightarrow> grows quiet h h'"
  by (blast intro: grows_mono is_get_quiet)

lemma APIClient_fields [simp]:
  "nbResolvePrefixIDs (APIClient_as_Client E c) = ResolvePrefixIDs E c"
  "nbGetPrefixDetails (APIClient_as_Client E c) = GetPrefixDetails E c"
  "nbEnsureIPAddressCustomField (APIClient_as_Client E c) = EnsureIPAddressCustomField E c"
  "nbAllocateIPAddress (APIClient_as_Client E c) = AllocateIPAddress E c"
  "nbFindIPAddressByClaimUID (APIClient_as_Client E c) = FindIPAddressByClaimUID E c"
  "nbFindIPAddressByAddress (APIClient_as_Client E c) = FindIPAddressByAddress E c"
  "nbDeleteIPAddress (APIClient_as_Client E c) = DeleteIPAddress E c"
  by (simp_all add: APIClient_as_Client_def)

interpretation api: netbox_client "APIClient_as_Client E c" for E c
proof (intro netbox_client.intro, unfold APIClient_fields, goal_cases)
  case 1
  show ?case by (rule holds_mono [OF ResolvePrefixIDs_holds]) (blast intro: get_quiet_law)
next
  case 2
  show ?case by (rule holds_mono [OF GetPrefixDetails_holds]) (blast intro: get_quiet_law)
next
  case 3
  show ?case by (rule holds_mono [OF EnsureIPAddressCustomField_holds]) (blast intro: get_quiet_law)
next
  case 4
  show ?case by (rule AllocateIPAddress_holds)
next
  case 5
  show ?case by (rule FindIPAddressByClaimUID_holds)
next
  case 6
  show ?case by (rule FindIPAddressByAddress_holds)
next
  case 7
  show ?case by (rule DeleteIPAddress_holds)
qed

lemma NewClient_cases:
  assumes "NewClient E cfg = Inr C"
  obtains c where "C = APIClient_as_Client E c" "ac_token c = cc_Token cfg"
    "ac_baseURL c = trim_right_byte (CHR ''/'') (cc_BaseURL cfg)" "NewHTTPClient E cfg = Inr (ac_httpClient c)"
    "base_ok E c"
proof -
  from assms obtain hc u where u: "url_Parse E (cc_BaseURL cfg) = Some u" "u_Scheme u \<noteq> []" "u_Host u \<noteq> []"
    and C: "C = APIClient_as_Client E \<lparr>ac_baseURL = trim_right_byte (CHR ''/'') (cc_BaseURL cfg),
                ac_token = cc_Token cfg, ac_httpClient = hc\<rparr>" "NewHTTPClient E cfg = Inr hc"
    by (auto simp: NewClient_def SplitBaseURL_def split: sum.splits option.splits if_splits)
  show thesis by (rule that [OF C(1)]) (use u C(2) in \<open>auto simp: base_ok_def\<close>)
qed

lemma NewClient_err: "NewClient E cfg = Inl e \<Longrightarrow> client_err e"
  by (auto simp: NewClient_def NewHTTPClient_def SplitBaseURL_def
      split: sum.splits if_splits option.splits)

text \<open>
  The factory of clients that the controllers are given (\<open>NewClient\<close>, or a replacement for
  it): its errors and its clients keep the contract.
\<close>

locale client_factory =
  fixes newClient :: "ConnectionConfig \<Rightarrow> err + nb_client"
  assumes factory_client: "newClient cfg = Inr C \<Longrightarrow> netbox_client C"
    and factory_err: "newClient cfg = Inl e \<Longrightarrow> client_err e"

interpretation newclient: client_factory "NewClient E" for E
  by (rule client_factory.intro)
     (auto elim!: NewClient_cases intro: api.netbox_client_axioms NewClient_err)

end
