(* ===== verification/Go_Netip.thy ===== *)
theory Go_Netip
  imports Go_Json
begin

text \<open>
  Package \<open>net/netip\<close>: \<open>ParseAddr\<close>, \<open>ParsePrefix\<close>, \<open>Addr.String\<close>, \<open>Addr.Is4\<close> and
  \<open>Prefix.Contains\<close>. An address is a machine word of its family's width, an IPv6 address
  with its zone (empty when it has none). A failed parse is \<open>None\<close>.
\<close>

unbundle bit_operations_syntax

datatype addr = V4 "32 word" | V6 "128 word" string

datatype ip_prefix = IPPrefix addr nat

definition is4 :: "addr \<Rightarrow> bool" where
  "is4 a = (case a of V4 _ \<Rightarrow> True | V6 _ _ \<Rightarrow> False)"

section \<open>Parsing\<close>

text \<open>One field of a dotted quad: one to three digits, no leading zero, at most 255.\<close>

definition parse_octet :: "string \<Rightarrow> nat option" where
  "parse_octet s =
     (if s = [] \<or> (hd s = CHR ''0'' \<and> length s > 1) then None
      else case parse_digits 0 s of None \<Rightarrow> None | Some v \<Rightarrow> if v \<le> 255 then Some v else None)"

definition parse_ipv4_fields :: "string \<Rightarrow> (nat \<times> nat \<times> nat \<times> nat) option" where
  "parse_ipv4_fields s =
     (case map parse_octet (split_on (CHR ''.'') s) of
        [Some a, Some b, Some c, Some d] \<Rightarrow> Some (a, b, c, d)
      | _ \<Rightarrow> None)"

definition quad_word :: "nat \<times> nat \<times> nat \<times> nat \<Rightarrow> 32 word" where
  "quad_word q = (case q of (a, b, c, d) \<Rightarrow> word_of_nat (((a * 256 + b) * 256 + c) * 256 + d))"

definition is_hex :: "char \<Rightarrow> bool" where
  "is_hex c = (hex_digit c \<noteq> None)"

fun hex_value :: "nat \<Rightarrow> string \<Rightarrow> nat" where
  "hex_value acc [] = acc"
| "hex_value acc (c # s) = (case hex_digit c of None \<Rightarrow> acc | Some d \<Rightarrow> hex_value (16 * acc + d) s)"

text \<open>
  The loop of \<open>parseIPv6\<close> over 16-bit groups: the groups read so far, the position of the
  ellipsis if one was read, and the rest of the text; the first argument counts the groups
  that still fit.
\<close>

fun v6_loop :: "nat \<Rightarrow> nat list \<Rightarrow> nat option \<Rightarrow> string \<Rightarrow> (nat list \<times> nat option) option" where
  "v6_loop 0 gs el s = (if s = [] then Some (gs, el) else None)"
| "v6_loop (Suc n) gs el s =
     (let hs = takeWhile is_hex s; gs' = gs @ [hex_value 0 hs] in
      if hs = [] \<or> length hs > 4 then None
      else case dropWhile is_hex s of
        [] \<Rightarrow> Some (gs', el)
      | c # r \<Rightarrow>
          if c = CHR ''.'' then
            (if (el = None \<and> length gs \<noteq> 6) \<or> length gs > 6 then None
             else case parse_ipv4_fields s of
               None \<Rightarrow> None
             | Some (a, b, c, d) \<Rightarrow> Some (gs @ [a * 256 + b, c * 256 + d], el))
          else if c \<noteq> CHR '':'' then None
          else (case r of
            [] \<Rightarrow> None
          | d # r' \<Rightarrow>
              if d = CHR '':'' then
                (if el \<noteq> None then None
                 else if r' = [] then Some (gs', Some (length gs'))
                 else v6_loop n gs' (Some (length gs')) r')
              else v6_loop n gs' el r))"

definition v6_expand :: "nat list \<Rightarrow> nat option \<Rightarrow> nat list option" where
  "v6_expand gs el =
     (if length gs < 8 then
        (case el of
           None \<Rightarrow> None
         | Some p \<Rightarrow> Some (take p gs @ replicate (8 - length gs) 0 @ drop p gs))
      else if el \<noteq> None then None
      else Some gs)"

definition groups_word :: "nat list \<Rightarrow> 128 word" where
  "groups_word gs = word_of_nat (foldl (\<lambda>a g. a * 65536 + g) 0 gs)"

definition parse_ipv6 :: "string \<Rightarrow> addr option" where
  "parse_ipv6 inp =
     (let (s, zone, bad) =
        (case cut_at (CHR ''%'') inp of
           None \<Rightarrow> (inp, [], False)
         | Some (a, z) \<Rightarrow> (a, z, z = []))
      in if bad then None
         else if has_prefix s ''::'' then
           (if s = ''::'' then Some (V6 0 zone)
            else case v6_loop 8 [] (Some 0) (drop 2 s) of
              None \<Rightarrow> None
            | Some (gs, el) \<Rightarrow> map_option (\<lambda>ws. V6 (groups_word ws) zone) (v6_expand gs el))
         else case v6_loop 8 [] None s of
           None \<Rightarrow> None
         | Some (gs, el) \<Rightarrow> map_option (\<lambda>ws. V6 (groups_word ws) zone) (v6_expand gs el))"

text \<open>\<open>ParseAddr\<close> dispatches on the first of the bytes \<open>. : %\<close>.\<close>

definition parse_addr :: "string \<Rightarrow> addr option" where
  "parse_addr s =
     (case List.find (\<lambda>c. c = CHR ''.'' \<or> c = CHR '':'' \<or> c = CHR ''%'') s of
        None \<Rightarrow> None
      | Some c \<Rightarrow>
          if c = CHR ''.'' then map_option (\<lambda>q. V4 (quad_word q)) (parse_ipv4_fields s)
          else if c = CHR '':'' then parse_ipv6 s
          else None)"

definition max_bits :: "addr \<Rightarrow> nat" where
  "max_bits a = (if is4 a then 32 else 128)"

definition has_zone :: "addr \<Rightarrow> bool" where
  "has_zone a = (case a of V4 _ \<Rightarrow> False | V6 _ z \<Rightarrow> z \<noteq> [])"

text \<open>\<open>ParsePrefix\<close> splits at the last slash; the length has no sign and no leading zero.\<close>

definition parse_prefix :: "string \<Rightarrow> ip_prefix option" where
  "parse_prefix s =
     (case cut_at (CHR ''/'') (rev s) of
        None \<Rightarrow> None
      | Some (rbits, raddr) \<Rightarrow>
          (case parse_addr (rev raddr) of
             None \<Rightarrow> None
           | Some a \<Rightarrow>
               if has_zone a then None
               else
                 (let bits = rev rbits in
                  if length bits > 1 \<and> \<not> (CHR ''1'' \<le> hd bits \<and> hd bits \<le> CHR ''9'') then None
                  else case parse_int 64 bits of
                    None \<Rightarrow> None
                  | Some n \<Rightarrow>
                      if n < 0 \<or> n > int (max_bits a) then None
                      else Some (IPPrefix a (nat n)))))"

section \<open>Printing\<close>

definition octet :: "nat \<Rightarrow> 32 word \<Rightarrow> nat" where
  "octet k w = unat w div 256 ^ k mod 256"

definition show_ipv4 :: "32 word \<Rightarrow> string" where
  "show_ipv4 w =
     join_with ''.'' [show_nat (octet 3 w), show_nat (octet 2 w), show_nat (octet 1 w),
       show_nat (octet 0 w)]"

definition hex_char :: "nat \<Rightarrow> char" where
  "hex_char n = (if n < 10 then char_of (48 + n) else char_of (87 + n))"

fun show_hex :: "nat \<Rightarrow> string" where
  "show_hex n = (if n < 16 then [hex_char n] else show_hex (n div 16) @ [hex_char (n mod 16)])"

declare show_hex.simps [simp del]

definition group16 :: "nat \<Rightarrow> 128 word \<Rightarrow> nat" where
  "group16 k w = unat w div 65536 ^ k mod 65536"

definition groups_of :: "128 word \<Rightarrow> nat list" where
  "groups_of w = map (\<lambda>k. group16 k w) [7, 6, 5, 4, 3, 2, 1, 0]"

definition zero_run :: "nat list \<Rightarrow> nat \<Rightarrow> nat" where
  "zero_run gs i = length (takeWhile (\<lambda>g. g = 0) (drop i gs))"

text \<open>The leftmost longest run of at least two zero groups: its start and its end.\<close>

definition best_run :: "nat list \<Rightarrow> (nat \<times> nat) option" where
  "best_run gs =
     foldl (\<lambda>best i.
         let l = zero_run gs i in
         if l \<ge> 2 \<and> l > (case best of None \<Rightarrow> 0 | Some (s, e) \<Rightarrow> e - s) then Some (i, i + l) else best)
       None [0..<8]"

definition show_groups :: "nat list \<Rightarrow> string" where
  "show_groups gs =
     (case best_run gs of
        None \<Rightarrow> join_with '':'' (map show_hex gs)
      | Some (s, e) \<Rightarrow>
          join_with '':'' (map show_hex (take s gs)) @ ''::'' @
          join_with '':'' (map show_hex (drop e gs)))"

definition is_4in6 :: "128 word \<Rightarrow> bool" where
  "is_4in6 w = (take 6 (groups_of w) = [0, 0, 0, 0, 0, 65535])"

definition show_zone :: "string \<Rightarrow> string" where
  "show_zone z = (if z = [] then [] else CHR ''%'' # z)"

definition show_addr :: "addr \<Rightarrow> string" where
  "show_addr a =
     (case a of
        V4 w \<Rightarrow> show_ipv4 w
      | V6 w z \<Rightarrow>
          (if is_4in6 w then ''::ffff:'' @ show_ipv4 (ucast w) else show_groups (groups_of w))
          @ show_zone z)"

section \<open>Containment\<close>

definition mask6 :: "nat \<Rightarrow> 128 word" where
  "mask6 n = NOT (mask (128 - n))"

definition prefix_contains :: "ip_prefix \<Rightarrow> addr \<Rightarrow> bool" where
  "prefix_contains p ip =
     (case p of IPPrefix base bits \<Rightarrow>
        if has_zone ip then False
        else (case (base, ip) of
          (V4 b, V4 a) \<Rightarrow> drop_bit (32 - bits) (a XOR b) = 0
        | (V6 b _, V6 a _) \<Rightarrow> (a XOR b) AND mask6 bits = 0
        | _ \<Rightarrow> False))"

definition prefix_addr :: "ip_prefix \<Rightarrow> addr" where
  "prefix_addr p = (case p of IPPrefix a _ \<Rightarrow> a)"

definition prefix_bits :: "ip_prefix \<Rightarrow> nat" where
  "prefix_bits p = (case p of IPPrefix _ n \<Rightarrow> n)"

section \<open>Facts\<close>

lemma xor_zero_iff: "(a XOR b = 0) = (a = b)" for a b :: "'a::len word"
  by (metis xor_self_eq xor.assoc xor.left_neutral xor.right_neutral)

text \<open>Masking the host bits away and shifting them out test the same thing.\<close>

lemma and_not_mask_zero: "(w AND NOT (mask k) = 0) = (drop_bit k w = 0)" for w :: "'a::len word"
proof
  assume "w AND NOT (mask k) = 0"
  then have "bit (w AND NOT (mask k)) (k + n) = bit (0 :: 'a word) (k + n)" for n
    by simp
  then have "\<not> bit w (k + n)" for n
    using bit_imp_le_length [of w "k + n"]
    by (auto simp: bit_and_iff bit_not_iff bit_mask_iff)
  then show "drop_bit k w = 0"
    by (intro bit_eqI) (simp add: bit_drop_bit_eq)
next
  assume "drop_bit k w = 0"
  then have "\<not> bit w (k + n)" for n
    by (metis bit_0_eq bit_drop_bit_eq bot_apply bot_bool_def comp_apply)
  then have "\<not> bit w n" if "k \<le> n" for n
    using that by (metis le_Suc_ex)
  then show "w AND NOT (mask k) = 0"
    by (intro bit_eqI) (auto simp: bit_and_iff bit_not_iff bit_mask_iff not_less)
qed

lemma drop_bit_xor_zero:
  "(drop_bit k (a XOR b) = 0) = (unat a div 2 ^ k = unat b div 2 ^ k)" for a b :: "'a::len word"
proof -
  have "(drop_bit k (a XOR b) = 0) = (drop_bit k a = drop_bit k b)"
    by (simp add: xor_zero_iff)
  also have "\<dots> = (unat (drop_bit k a) = unat (drop_bit k b))"
    by (simp add: word_unat_eq_iff)
  also have "\<dots> = (drop_bit k (unat a) = drop_bit k (unat b))"
    by (simp only: unat_drop_bit_eq)
  finally show ?thesis
    by (simp only: drop_bit_eq_div)
qed

lemma prefix_contains_v4:
  "prefix_contains (IPPrefix (V4 b) n) (V4 a) = (unat a div 2 ^ (32 - n) = unat b div 2 ^ (32 - n))"
  by (simp add: prefix_contains_def has_zone_def drop_bit_xor_zero del: drop_bit_xor)

lemma prefix_contains_v6:
  "prefix_contains (IPPrefix (V6 b z) n) (V6 a z') =
     (z' = [] \<and> unat a div 2 ^ (128 - n) = unat b div 2 ^ (128 - n))"
  by (simp add: prefix_contains_def has_zone_def mask6_def and_not_mask_zero drop_bit_xor_zero
      del: drop_bit_xor)

lemma prefix_contains_family: "prefix_contains p a \<Longrightarrow> is4 (prefix_addr p) = is4 a"
  by (auto simp: prefix_contains_def prefix_addr_def is4_def
      split: ip_prefix.splits addr.splits if_splits)

lemma parse_prefix_bits: "parse_prefix s = Some p \<Longrightarrow> prefix_bits p \<le> max_bits (prefix_addr p)"
  by (auto simp: parse_prefix_def prefix_bits_def prefix_addr_def Let_def
      split: option.splits if_splits)

lemma parse_prefix_no_zone: "parse_prefix s = Some p \<Longrightarrow> \<not> has_zone (prefix_addr p)"
  by (auto simp: parse_prefix_def prefix_addr_def Let_def split: option.splits if_splits)

lemma show_nat_hd_nonzero: "0 < n \<Longrightarrow> hd (show_nat n) \<noteq> CHR ''0''"
proof (induction n rule: show_nat.induct)
  case (1 n)
  show ?case
  proof (cases "n < 10")
    case True
    have "digit_val (digit_char n) \<noteq> digit_val (CHR ''0'')"
      using "1.prems" True by (simp add: digit_val_char) (simp add: digit_val_def byte_def)
    then have "digit_char n \<noteq> CHR ''0''" by metis
    with True show ?thesis by (subst show_nat.simps) simp
  next
    case False
    then have "0 < n div 10" by (simp add: div_greater_zero_iff)
    with False "1.IH" show ?thesis by (subst show_nat.simps) simp
  qed
qed

lemma show_nat_short: "n < 10 \<Longrightarrow> length (show_nat n) = 1"
  by (subst show_nat.simps) simp

lemma parse_octet_show: "n < 256 \<Longrightarrow> parse_octet (show_nat n) = Some n"
  using show_nat_hd_nonzero [of n] show_nat_short [of 0]
  by (cases "n = 0") (auto simp: parse_octet_def parse_show_nat)

lemma show_nat_free: "\<not> is_digit c \<Longrightarrow> c \<notin> set (show_nat n)"
  using show_nat_digits by blast

lemma octet_bound: "octet k w < 256"
  by (simp add: octet_def)

lemma quad_base256:
  assumes "u < 4294967296"
  shows "((u div 16777216 mod 256 * 256 + u div 65536 mod 256) * 256 + u div 256 mod 256) * 256
           + u mod 256 = (u::nat)"
proof -
  define p q r where "p = u div 256" and "q = p div 256" and "r = q div 256"
  have eqs: "u div 65536 = q" "u div 16777216 = r"
    by (simp_all add: p_def q_def r_def div_mult2_eq [symmetric])
  have "r < 256" using assms by (simp add: p_def q_def r_def)
  then have "r mod 256 * 256 + q mod 256 = q" by (simp add: r_def)
  then have "(r mod 256 * 256 + q mod 256) * 256 + p mod 256 = p" by (simp add: q_def)
  then show ?thesis by (simp add: eqs p_def)
qed

lemma unat_less_v4: "unat w < 4294967296" for w :: "32 word"
proof -
  have "unat w < 2 ^ LENGTH(32)" by (rule unsigned_less)
  then show ?thesis by simp
qed

lemma quad_word_octets: "quad_word (octet 3 w, octet 2 w, octet 1 w, octet 0 w) = w"
proof -
  have "quad_word (octet 3 w, octet 2 w, octet 1 w, octet 0 w) = word_of_nat
     (((unat w div 16777216 mod 256 * 256 + unat w div 65536 mod 256) * 256
       + unat w div 256 mod 256) * 256 + unat w mod 256)"
    unfolding quad_word_def octet_def prod.case
    by (rule arg_cong [where f = word_of_nat]) simp
  then show ?thesis
    by (simp only: quad_base256 [OF unat_less_v4]) simp
qed

lemma parse_show_fields:
  "parse_ipv4_fields (show_ipv4 w) = Some (octet 3 w, octet 2 w, octet 1 w, octet 0 w)"
proof -
  have "split_on (CHR ''.'') (show_ipv4 w) =
      [show_nat (octet 3 w), show_nat (octet 2 w), show_nat (octet 1 w), show_nat (octet 0 w)]"
    unfolding show_ipv4_def
    by (rule split_on_join) (auto simp: is_digit_def dest: show_nat_digits)
  then show ?thesis
    by (simp add: parse_ipv4_fields_def parse_octet_show octet_bound)
qed

lemma find_append: "List.find P (xs @ ys) = (case List.find P xs of None \<Rightarrow> List.find P ys | r \<Rightarrow> r)"
  by (induction xs) auto

lemma find_None_all: "(\<And>x. x \<in> set xs \<Longrightarrow> \<not> P x) \<Longrightarrow> List.find P xs = None"
  by (induction xs) auto

lemma find_show_ipv4:
  "List.find (\<lambda>c. c = CHR ''.'' \<or> c = CHR '':'' \<or> c = CHR ''%'') (show_ipv4 w) = Some (CHR ''.'')"
proof -
  have "List.find (\<lambda>c. c = CHR ''.'' \<or> c = CHR '':'' \<or> c = CHR ''%'') (show_nat n) = None" for n
    by (rule find_None_all) (auto simp: is_digit_def dest: show_nat_digits)
  then show ?thesis by (simp add: show_ipv4_def find_append)
qed

lemma parse_show_v4: "parse_addr (show_addr (V4 w)) = Some (V4 w)"
  by (simp add: parse_addr_def show_addr_def find_show_ipv4 parse_show_fields
      quad_word_octets [simplified])

end
