(* ===== verification/Netbox_Gateway.thy ===== *)
theory Netbox_Gateway
  imports Api_Types Go_Netip
begin

text \<open>
  internal/netbox/gateway.go: \<open>firstNonEmpty\<close>, \<open>CustomFieldString\<close> and \<open>ResolveGateway\<close>.
  The lemmas state the precedence of the candidates, that a chosen gateway is a normalised
  address of the prefix's family, and what the in-range flag means.
\<close>

fun firstNonEmpty :: "string list \<Rightarrow> string" where
  "firstNonEmpty [] = []"
| "firstNonEmpty (v # vs) = (let s = trim_space v in if s \<noteq> [] then s else firstNonEmpty vs)"

text \<open>The parameter \<open>fl\<close> is the text \<open>fmt.Sprint\<close> gives a float64, as in \<open>sprint_any\<close>.\<close>

definition CustomFieldString ::
  "(string \<Rightarrow> string option) \<Rightarrow> (string \<times> json) list \<Rightarrow> string \<Rightarrow> string" where
  "CustomFieldString fl customFields name =
     (if name = [] then []
      else case map_of customFields name of
        None \<Rightarrow> []
      | Some value \<Rightarrow>
          (case value of
             JNull \<Rightarrow> []
           | JStr s \<Rightarrow> trim_space s
           | _ \<Rightarrow> trim_space (sprint_any fl value)))"

definition ResolveGateway :: "string \<Rightarrow> string \<Rightarrow> string \<Rightarrow> string \<Rightarrow> err + (string \<times> bool)" where
  "ResolveGateway prefixCIDR customFieldValue perPrefixStatic poolStatic =
     (let gateway = firstNonEmpty [customFieldValue, perPrefixStatic, poolStatic] in
      if gateway = [] then Inr ([], False)
      else case parse_addr gateway of
        None \<Rightarrow> Inl (Wrapf ''gateway %q is not a valid IP address: %w'' [gateway]
                      (Ext (OtherErr ''ParseAddr'')))
      | Some addr \<Rightarrow>
          (case parse_prefix (trim_space prefixCIDR) of
             None \<Rightarrow> Inl (Wrapf ''prefix %q is not valid CIDR: %w'' [prefixCIDR]
                           (Ext (OtherErr ''ParsePrefix'')))
           | Some prefix \<Rightarrow>
               if is4 addr \<noteq> is4 (prefix_addr prefix) then
                 Inl (Errorf ''gateway %q address family does not match prefix %q''
                        [gateway, prefixCIDR])
               else Inr (show_addr addr, prefix_contains prefix addr)))"

section \<open>Facts\<close>

lemma firstNonEmpty_Nil: "firstNonEmpty vs = [] \<longleftrightarrow> (\<forall>v \<in> set vs. trim_space v = [])"
  by (induction vs) (auto simp: Let_def)

lemma firstNonEmpty_first:
  "trim_space v \<noteq> [] \<Longrightarrow> (\<And>u. u \<in> set us \<Longrightarrow> trim_space u = []) \<Longrightarrow>
     firstNonEmpty (us @ v # vs) = trim_space v"
  by (induction us) (auto simp: Let_def)

lemma CustomFieldString_trimmed: "trim_space (CustomFieldString fl cf name) = CustomFieldString fl cf name"
  by (auto simp: CustomFieldString_def split: option.splits json.splits)

lemma ResolveGateway_cases:
  assumes "ResolveGateway cidr cf pp pool = Inr (gw, inr)" "gw \<noteq> []"
  obtains a p where "parse_addr (firstNonEmpty [cf, pp, pool]) = Some a"
    "parse_prefix (trim_space cidr) = Some p" "is4 a = is4 (prefix_addr p)"
    "gw = show_addr a" "inr = prefix_contains p a"
  using assms by (auto simp: ResolveGateway_def Let_def split: if_splits option.splits)

lemma ResolveGateway_err: "ResolveGateway cidr cf pp pool = Inl e \<Longrightarrow> chain_only e \<and> api_free e"
  by (auto simp: ResolveGateway_def Let_def split: if_splits option.splits)

lemma ResolveGateway_none:
  "ResolveGateway cidr cf pp pool = Inr ([], False)"
  if "trim_space cf = []" "trim_space pp = []" "trim_space pool = []"
  using that by (simp add: ResolveGateway_def)

end
