(* ===== verification/Pool_Controller.thy ===== *)
theory Pool_Controller
  imports Netbox_Client_Facts Netbox_Gateway Reconcile_Util
begin

text \<open>
  internal/controller/pool_controller.go and the reconcilers of the two pool kinds
  (netboxippool_controller.go, globalnetboxippool_controller.go): the cached prefix resolution,
  the Ready condition, the finalizer that protects a pool in use, and the deferred patch. The
  definitions are written once over the interface \<open>pool_ops\<close>, as the Go code is over
  \<open>statusPool\<close>.
\<close>

definition poolFinalizer :: string where
  "poolFinalizer = ''ipam.cluster.x-k8s.io/pool-protection''"

definition reasonPoolInUse :: string where "reasonPoolInUse = ''PoolInUse''"
definition readyConditionType :: string where "readyConditionType = ''Ready''"
definition reasonPoolReady :: string where "reasonPoolReady = ''PoolReady''"
definition reasonPrefixResolutionFailed :: string where
  "reasonPrefixResolutionFailed = ''PrefixResolutionFailed''"
definition reasonDeletionBlocked :: string where "reasonDeletionBlocked = ''DeletionBlocked''"
definition reasonGatewayInRange :: string where
  "reasonGatewayInRange = ''GatewayInAllocatableRange''"

definition ClusterNameLabel :: string where
  "ClusterNameLabel = ''cluster.x-k8s.io/cluster-name''"

section \<open>Resolved prefixes and gateways\<close>

text \<open>\<open>detailByID[pid]\<close>: the last fetched detail with that ID, or the zero value.\<close>

definition detail_by_id :: "PrefixDetail list \<Rightarrow> int32 \<Rightarrow> PrefixDetail" where
  "detail_by_id fetched i =
     (case List.find (\<lambda>d. pd_ID d = i) (rev fetched) of
        Some d \<Rightarrow> d
      | None \<Rightarrow> \<lparr>pd_ID = 0, pd_CIDR = [], pd_CustomFields = []\<rparr>)"

definition per_prefix_static :: "NetBoxIPPoolSpec \<Rightarrow> nat \<Rightarrow> string" where
  "per_prefix_static spec i =
     (if i < length (ps_Prefixes spec) then pr_Gateway (ps_Prefixes spec ! i) else [])"

text \<open>One iteration of \<open>buildResolvedPrefixes\<close>: the gateway of the prefix at an index.\<close>

definition resolve_one ::
  "env \<Rightarrow> NetBoxIPPoolSpec \<Rightarrow> PrefixDetail list \<Rightarrow> nat \<Rightarrow> int32 \<Rightarrow> err + (ResolvedPrefix \<times> bool)" where
  "resolve_one E spec fetched i pid =
     (let detail = detail_by_id fetched pid;
          customFieldValue =
            CustomFieldString (float_text E) (pd_CustomFields detail) (ps_GatewayCustomField spec)
      in case ResolveGateway (pd_CIDR detail) customFieldValue (per_prefix_static spec i)
                (ps_Gateway spec) of
           Inl e \<Rightarrow> Inl (Wrapf ''resolve gateway for prefix %d: %w'' [show_int32 pid] e)
         | Inr (gateway, inRange) \<Rightarrow>
             Inr (\<lparr>rp_ID = pid, rp_CIDR = pd_CIDR detail, rp_Gateway = gateway\<rparr>, inRange))"

fun build_loop ::
  "env \<Rightarrow> NetBoxIPPoolSpec \<Rightarrow> PrefixDetail list \<Rightarrow> nat \<Rightarrow> int32 list \<Rightarrow>
     ResolvedPrefix list \<Rightarrow> int32 list \<Rightarrow> err + (ResolvedPrefix list \<times> int32 list)" where
  "build_loop E spec fetched i [] resolved inRangeIDs = Inr (resolved, inRangeIDs)"
| "build_loop E spec fetched i (pid # ids) resolved inRangeIDs =
     (case resolve_one E spec fetched i pid of
        Inl e \<Rightarrow> Inl e
      | Inr (rp, inRange) \<Rightarrow>
          build_loop E spec fetched (Suc i) ids (resolved @ [rp])
            (if inRange then inRangeIDs @ [pid] else inRangeIDs))"

definition buildResolvedPrefixes ::
  "env \<Rightarrow> NetBoxIPPoolSpec \<Rightarrow> int32 list \<Rightarrow> PrefixDetail list \<Rightarrow>
     err + (ResolvedPrefix list \<times> int32 list)" where
  "buildResolvedPrefixes E spec prefixIDs fetched = build_loop E spec fetched 0 prefixIDs [] []"

fun warn_in_range :: "ControllerBase option \<Rightarrow> string \<Rightarrow> int32 list \<Rightarrow> hist \<Rightarrow> (unit \<times> hist) option" where
  "warn_in_range rec obj [] h = Some ((), h)"
| "warn_in_range rec obj (pid # ids) h =
     (case rec of
        None \<Rightarrow> Some ((), h)
      | Some b \<Rightarrow> do {
          (u, h1) \<leftarrow> RecordWarning b obj reasonGatewayInRange ''ResolveGateway''
            (MsgText (''Gateway for prefix '' @ show_int32 pid @
              '' lies within its allocatable range; mark it reserved in NetBox'' @
              '' so it is not handed out as a normal address'')) h;
          warn_in_range rec obj ids h1
        })"

definition resolvePrefixDetails ::
  "env \<Rightarrow> 'p pool_ops \<Rightarrow> nb_client \<Rightarrow> ControllerBase option \<Rightarrow> 'p \<Rightarrow> int32 list \<Rightarrow>
     (err + ResolvedPrefix list) io" where
  "resolvePrefixDetails E ops C rec pool prefixIDs h = do {
     (r, h1) \<leftarrow> nbGetPrefixDetails C prefixIDs h;
     case r of
       Inl e \<Rightarrow> Some (Inl (SanitizedError e), h1)
     | Inr fetched \<Rightarrow>
         (case buildResolvedPrefixes E (PoolSpec ops pool) prefixIDs fetched of
            Inl e \<Rightarrow> Some (Inl e, h1)
          | Inr (resolved, inRangeIDs) \<Rightarrow> do {
              (u, h2) \<leftarrow> warn_in_range rec (om_Name (PoolMeta ops pool)) inRangeIDs h1;
              Some (Inr resolved, h2)
            })
   }"

text \<open>The part of \<open>resolvePoolPrefixes\<close> that has its client. The result is the error, if any, and
  the pool with its status written.\<close>

definition resolve_with_client ::
  "env \<Rightarrow> 'p pool_ops \<Rightarrow> nb_client \<Rightarrow> ControllerBase option \<Rightarrow> 'p \<Rightarrow> (err option \<times> 'p) io" where
  "resolve_with_client E ops C rec pool h = do {
     (r, h1) \<leftarrow> nbResolvePrefixIDs C (ps_Prefixes (PoolSpec ops pool)) h;
     case r of
       Inl e \<Rightarrow> Some ((Some (SanitizedError e), pool), h1)
     | Inr prefixIDs \<Rightarrow> do {
         (d, h2) \<leftarrow> resolvePrefixDetails E ops C rec pool prefixIDs h1;
         case d of
           Inl e \<Rightarrow> Some ((Some e, pool), h2)
         | Inr details \<Rightarrow>
             Some ((None, SetPoolStatus ops
               ((PoolStatus ops pool)\<lparr>st_ResolvedPrefixes := prefixIDs,
                  st_ResolvedPrefixDetails := details\<rparr>) pool), h2)
       }
   }"

definition resolvePoolPrefixes ::
  "env \<Rightarrow> 'p pool_ops \<Rightarrow> ControllerBase option \<Rightarrow> (ConnectionConfig \<Rightarrow> err + nb_client) \<Rightarrow> int \<Rightarrow> 'p \<Rightarrow>
     (err option \<times> 'p) io" where
  "resolvePoolPrefixes E ops rec newClientFunc requestTimeout pool h = do {
     (r, h1) \<leftarrow> LoadConnectionConfig E (om_Namespace (PoolMeta ops pool))
       (ps_ConnectionSecretRef (PoolSpec ops pool)) h;
     case r of
       Inl e \<Rightarrow> Some ((Some (SanitizedError e), pool), h1)
     | Inr cfg \<Rightarrow>
         (case newClientFunc (cfg\<lparr>cc_RequestTimeout := requestTimeout\<rparr>) of
            Inl e \<Rightarrow> Some ((Some (SanitizedError e), pool), h1)
          | Inr C \<Rightarrow> resolve_with_client E ops C rec pool h1)
   }"

section \<open>Conditions, label, addresses in use\<close>

definition setConditionFalse :: "'p pool_ops \<Rightarrow> string \<Rightarrow> message \<Rightarrow> 'p \<Rightarrow> 'p" where
  "setConditionFalse ops reason msg pool =
     SetPoolStatus ops ((PoolStatus ops pool)\<lparr>st_Conditions :=
       [\<lparr>co_Type = readyConditionType, co_Status = ConditionFalse, co_Reason = reason,
         co_Message = msg, co_ObservedGeneration = om_Generation (PoolMeta ops pool)\<rparr>]\<rparr>) pool"

definition setPoolReadyCondition :: "'p pool_ops \<Rightarrow> err option \<Rightarrow> 'p \<Rightarrow> 'p" where
  "setPoolReadyCondition ops resolveErr pool =
     (case resolveErr of
        Some e \<Rightarrow> setConditionFalse ops reasonPrefixResolutionFailed (MsgErr e) pool
      | None \<Rightarrow>
          SetPoolStatus ops ((PoolStatus ops pool)\<lparr>st_Conditions :=
            [\<lparr>co_Type = readyConditionType, co_Status = ConditionTrue, co_Reason = reasonPoolReady,
              co_Message = MsgText ''pool is ready to serve claims'',
              co_ObservedGeneration = om_Generation (PoolMeta ops pool)\<rparr>]\<rparr>) pool)"

definition ensureClusterNameLabel :: "'p pool_ops \<Rightarrow> string \<Rightarrow> 'p \<Rightarrow> 'p" where
  "ensureClusterNameLabel ops clusterName pool =
     (if clusterName = [] then pool
      else SetPoolMeta ops ((PoolMeta ops pool)\<lparr>om_Labels :=
        AList.update ClusterNameLabel clusterName (om_Labels (PoolMeta ops pool))\<rparr>) pool)"

definition set_finalizers :: "'p pool_ops \<Rightarrow> string list \<Rightarrow> 'p \<Rightarrow> 'p" where
  "set_finalizers ops fs pool = SetPoolMeta ops ((PoolMeta ops pool)\<lparr>om_Finalizers := fs\<rparr>) pool"

text \<open>\<open>IPPoolRefValue\<close> of a reference to the pool, listed in its namespace if it has one.\<close>

definition listAddressesInUse ::
  "env \<Rightarrow> string \<Rightarrow> string \<Rightarrow> string \<Rightarrow> (err + IPAddress list) io" where
  "listAddressesInUse E namespace kind name h =
     (let key = IPPoolRefValue \<lparr>plr_APIGroup = GroupVersion_Group, plr_Kind = kind, plr_Name = name\<rparr>
      in call (EListAddresses key namespace) (\<lambda>h. list_addresses E h key namespace) h)"

definition safeAllocatedCount :: "nat \<Rightarrow> err + int32" where
  "safeAllocatedCount count =
     (case parse_int 32 (show_int (int count)) of
        None \<Rightarrow> Inl (Wrapf ''convert allocated address count %d to int32: %w'' [show_nat count]
                      (Ext (OtherErr ''strconv.ParseInt'')))
      | Some v \<Rightarrow> Inr (word_of_int v))"

section \<open>reconcilePoolStatus\<close>

text \<open>Its tail once the condition and the label are set: finalizer and deletion.\<close>

definition finish_pool ::
  "env \<Rightarrow> 'p pool_ops \<Rightarrow> ControllerBase option \<Rightarrow> nat \<Rightarrow> err option \<Rightarrow> 'p \<Rightarrow> (err option \<times> 'p) io" where
  "finish_pool E ops rec n resolveErr pool h =
     (let fs = om_Finalizers (PoolMeta ops pool) in
      if \<not> om_Deleting (PoolMeta ops pool) then
        Some ((resolveErr, set_finalizers ops (fst (AddFinalizer E fs poolFinalizer)) pool), h)
      else if n > 0 then do {
        (u, h1) \<leftarrow> (case rec of
            None \<Rightarrow> Some ((), h)
          | Some b \<Rightarrow> RecordWarning b (om_Name (PoolMeta ops pool)) reasonPoolInUse ''BlockPoolDeletion''
              (MsgText (''Pool deletion is blocked while '' @ show_nat n @
                '' IPAddresses are still allocated'')) h);
        let blockedErr = Errorf ''pool still has %d allocated IPAddresses'' [show_nat n] in
        Some ((Some blockedErr, setConditionFalse ops reasonDeletionBlocked (MsgErr blockedErr) pool), h1)
      }
      else
        Some ((None, set_finalizers ops (fst (RemoveFinalizer E fs poolFinalizer)) pool), h))"

definition reconcilePoolStatus ::
  "env \<Rightarrow> 'p pool_ops \<Rightarrow> ControllerBase option \<Rightarrow> (ConnectionConfig \<Rightarrow> err + nb_client) \<Rightarrow> int \<Rightarrow>
     string \<Rightarrow> 'p \<Rightarrow> (err option \<times> 'p) io" where
  "reconcilePoolStatus E ops rec newClientFunc requestTimeout kind pool h = do {
     (r, h1) \<leftarrow> listAddressesInUse E (om_Namespace (PoolMeta ops pool)) kind
       (om_Name (PoolMeta ops pool)) h;
     case r of
       Inl e \<Rightarrow> Some ((Some e, pool), h1)
     | Inr addresses \<Rightarrow>
         (let status = PoolStatus ops pool;
              generation = om_Generation (PoolMeta ops pool);
              previousObservedGeneration = st_ObservedGeneration status;
              pool1 = SetPoolStatus ops (status\<lparr>st_ObservedGeneration := generation\<rparr>) pool
          in case safeAllocatedCount (length addresses) of
               Inl e \<Rightarrow> Some ((Some e, pool1), h1)
             | Inr allocated \<Rightarrow>
                 (let pool2 = SetPoolStatus ops ((PoolStatus ops pool1)
                        \<lparr>st_Addresses := Some \<lparr>sa_Allocated = allocated\<rparr>\<rparr>) pool1 in do {
                    ((resolveErr, pool3), h2) \<leftarrow>
                      (if st_ResolvedPrefixes (PoolStatus ops pool2) = []
                          \<or> previousObservedGeneration \<noteq> generation
                       then resolvePoolPrefixes E ops rec newClientFunc requestTimeout pool2 h1
                       else Some ((None, pool2), h1));
                    let pool4 = setPoolReadyCondition ops resolveErr pool3;
                        pool5 = ensureClusterNameLabel ops (ps_ClusterName (PoolSpec ops pool4)) pool4
                    in finish_pool E ops rec (length addresses) resolveErr pool5 h2
                  }))
   }"

section \<open>The two reconcilers\<close>

record pool_reconciler =
  rc_base :: ControllerBase
  rc_NewClient :: "(ConnectionConfig \<Rightarrow> err + nb_client) option"
  rc_RequestTimeout :: int

definition new_client_func :: "env \<Rightarrow> (ConnectionConfig \<Rightarrow> err + nb_client) option \<Rightarrow>
     ConnectionConfig \<Rightarrow> err + nb_client" where
  "new_client_func E f = (case f of None \<Rightarrow> NewClient E | Some g \<Rightarrow> g)"

text \<open>The deferred patch: it runs on every return after the helper was made.\<close>

definition deferred_pool_patch ::
  "env \<Rightarrow> any_pool \<Rightarrow> any_pool \<Rightarrow> err option \<Rightarrow> (reconcile_result \<times> err option) io" where
  "deferred_pool_patch E before after reterr h = do {
     (p, h1) \<leftarrow> call_ok (EPatchPool before after) (\<lambda>h. patch_pool E h before after) h;
     Some ((no_requeue, join_patch_error reterr p), h1)
   }"

definition NetBoxIPPool_Reconcile ::
  "env \<Rightarrow> pool_reconciler \<Rightarrow> string \<Rightarrow> string \<Rightarrow> (reconcile_result \<times> err option) io" where
  "NetBoxIPPool_Reconcile E r namespace name h = do {
     (g, h1) \<leftarrow> call (EGetPool namespace name) (\<lambda>h. get_pool E h namespace name) h;
     case g of
       Inl e \<Rightarrow> Some ((no_requeue, ignoreNotFound e), h1)
     | Inr pool \<Rightarrow> do {
         (n, h2) \<leftarrow> call_ok (ENewPatchHelper name) (\<lambda>h. new_patch_helper E h name) h1;
         case n of
           Some e \<Rightarrow> Some ((no_requeue, Some e), h2)
         | None \<Rightarrow> do {
             ((reterr, pool'), h3) \<leftarrow> reconcilePoolStatus E NetBoxIPPool_ops (Some (rc_base r))
               (new_client_func E (rc_NewClient r)) (rc_RequestTimeout r) NetBoxIPPoolKind pool h2;
             deferred_pool_patch E (NamespacedPool pool) (NamespacedPool pool') reterr h3
           }
       }
   }"

definition GlobalNetBoxIPPool_Reconcile ::
  "env \<Rightarrow> pool_reconciler \<Rightarrow> string \<Rightarrow> (reconcile_result \<times> err option) io" where
  "GlobalNetBoxIPPool_Reconcile E r name h = do {
     (g, h1) \<leftarrow> call (EGetGlobalPool name) (\<lambda>h. get_global_pool E h name) h;
     case g of
       Inl e \<Rightarrow> Some ((no_requeue, ignoreNotFound e), h1)
     | Inr pool \<Rightarrow> do {
         (n, h2) \<leftarrow> call_ok (ENewPatchHelper name) (\<lambda>h. new_patch_helper E h name) h1;
         case n of
           Some e \<Rightarrow> Some ((no_requeue, Some e), h2)
         | None \<Rightarrow> do {
             ((reterr, pool'), h3) \<leftarrow> reconcilePoolStatus E GlobalNetBoxIPPool_ops (Some (rc_base r))
               (new_client_func E (rc_NewClient r)) (rc_RequestTimeout r) GlobalNetBoxIPPoolKind pool h2;
             deferred_pool_patch E (GlobalPool pool) (GlobalPool pool') reterr h3
           }
       }
   }"

end
