(* ===== verification/Claim_Handler.thy ===== *)
theory Claim_Handler
  imports Pool_Controller Ipam_Util
begin

text \<open>
  internal/controller/ipaddressclaim_controller.go: the NetBox implementation of the interface
  \<open>ClaimHandler\<close>. The handler's fields are the record \<open>netboxClaimHandler\<close>; \<open>FetchPool\<close>
  returns it with its pool set. An address written through the pointer argument of
  \<open>EnsureAddress\<close> is returned. A call with a nil pool where the code dereferences it panics:
  \<open>None\<close>, as for a call that never returns.
\<close>

definition poolExhaustedRequeueAfter :: nat where "poolExhaustedRequeueAfter = 15"
definition missingAddressRequeueAfter :: nat where "missingAddressRequeueAfter = 5"

record NetBoxProviderAdapter =
  pa_NewClient :: "(ConnectionConfig \<Rightarrow> err + nb_client) option"
  pa_RequestTimeout :: int

record netboxClaimHandler =
  nh_claim :: IPAddressClaim
  nh_pool :: "any_pool option"
  nh_newClientFunc :: "ConnectionConfig \<Rightarrow> err + nb_client"
  nh_requestTimeout :: int

text \<open>The predicates of the controller's watches: its claims, and the addresses they own.\<close>

definition watches_claim :: "watch_event \<Rightarrow> bool" where
  "watches_claim ev \<longleftrightarrow> ClaimReferencesPoolKind GroupKindNetBoxIPPool ev \<or>
     ClaimReferencesPoolKind GroupKindGlobalNetBoxIPPool ev"

definition watches_address :: "watch_event \<Rightarrow> bool" where
  "watches_address ev \<longleftrightarrow> AddressReferencesPoolKind GroupKindNetBoxIPPool ev \<or>
     AddressReferencesPoolKind GroupKindGlobalNetBoxIPPool ev"

definition ClaimHandlerFor :: "env \<Rightarrow> NetBoxProviderAdapter \<Rightarrow> IPAddressClaim \<Rightarrow> netboxClaimHandler" where
  "ClaimHandlerFor E a claim =
     \<lparr>nh_claim = claim, nh_pool = None, nh_newClientFunc = new_client_func E (pa_NewClient a),
      nh_requestTimeout = pa_RequestTimeout a\<rparr>"

section \<open>FetchPool\<close>

definition FetchPool ::
  "env \<Rightarrow> netboxClaimHandler \<Rightarrow>
     ((client_object option \<times> handler_result) \<times> netboxClaimHandler) io" where
  "FetchPool E nh h =
     (let ref = cl_PoolRef (nh_claim nh) in
      if plr_Kind ref = NetBoxIPPoolKind then do {
        (r, h1) \<leftarrow> (let ns = om_Namespace (cl_meta (nh_claim nh)) in
          call (EGetPool ns (plr_Name ref)) (\<lambda>h. get_pool E h ns (plr_Name ref)) h);
        case r of
          Inl e \<Rightarrow> Some (((None, None, Some e), nh), h1)
        | Inr pool \<Rightarrow> Some (((Some (pool_object (NamespacedPool pool)), None, None),
                              nh\<lparr>nh_pool := Some (NamespacedPool pool)\<rparr>), h1)
      }
      else if plr_Kind ref = GlobalNetBoxIPPoolKind then do {
        (r, h1) \<leftarrow> call (EGetGlobalPool (plr_Name ref)) (\<lambda>h. get_global_pool E h (plr_Name ref)) h;
        case r of
          Inl e \<Rightarrow> Some (((None, None, Some e), nh), h1)
        | Inr pool \<Rightarrow> Some (((Some (pool_object (GlobalPool pool)), None, None),
                              nh\<lparr>nh_pool := Some (GlobalPool pool)\<rparr>), h1)
      }
      else Some (((None, None, Some (Errorf ''unsupported pool kind %q'' [plr_Kind ref])), nh), h))"

section \<open>Gateways\<close>

definition gatewayDetails ::
  "env \<Rightarrow> any_pool \<Rightarrow> nb_client \<Rightarrow> NetBoxIPPoolSpec \<Rightarrow> int32 list \<Rightarrow> (ResolvedPrefix list) io" where
  "gatewayDetails E pool C poolSpec prefixIDs h =
     (let details = st_ResolvedPrefixDetails (PoolStatus any_pool_ops pool) in
      if details \<noteq> [] then Some (details, h)
      else do {
        (r, h1) \<leftarrow> (if prefixIDs = [] then nbResolvePrefixIDs C (ps_Prefixes poolSpec) h
                    else Some (Inr prefixIDs, h));
        case r of
          Inl e \<Rightarrow> Some ([], h1)
        | Inr ids \<Rightarrow> do {
            (f, h2) \<leftarrow> nbGetPrefixDetails C ids h1;
            case f of
              Inl e \<Rightarrow> Some ([], h2)
            | Inr fetched \<Rightarrow>
                (case buildResolvedPrefixes E poolSpec ids fetched of
                   Inl e \<Rightarrow> Some ([], h2)
                 | Inr (resolved, _) \<Rightarrow> Some (resolved, h2))
          }
      })"

definition gatewayForPrefixID :: "ResolvedPrefix list \<Rightarrow> int32 \<Rightarrow> string" where
  "gatewayForPrefixID details prefixID =
     (case List.find (\<lambda>d. rp_ID d = prefixID) details of
        Some d \<Rightarrow> rp_Gateway d
      | None \<Rightarrow> [])"

definition detail_contains :: "addr \<Rightarrow> ResolvedPrefix \<Rightarrow> bool" where
  "detail_contains a d \<longleftrightarrow>
     rp_Gateway d \<noteq> [] \<and> rp_CIDR d \<noteq> [] \<and>
     (case parse_prefix (rp_CIDR d) of Some p \<Rightarrow> prefix_contains p a | None \<Rightarrow> False)"

definition gatewayForAddress :: "ResolvedPrefix list \<Rightarrow> string \<Rightarrow> string" where
  "gatewayForAddress details address =
     (case parse_addr address of
        None \<Rightarrow> []
      | Some a \<Rightarrow> (case List.find (detail_contains a) details of
                     Some d \<Rightarrow> rp_Gateway d
                   | None \<Rightarrow> []))"

section \<open>EnsureAddress\<close>

definition set_allocation :: "AllocatedAddress \<Rightarrow> string \<Rightarrow> IPAddress \<Rightarrow> IPAddress" where
  "set_allocation a gateway address =
     address\<lparr>ip_Address := aa_Address a, ip_Prefix := Some (aa_Prefix a), ip_Gateway := gateway\<rparr>"

text \<open>The loop over the prefixes: the prefix that gave an address, or an error.\<close>

fun allocate_loop ::
  "nb_client \<Rightarrow> AllocationRequest \<Rightarrow> int32 list \<Rightarrow> (err + (int32 \<times> AllocatedAddress) option) io" where
  "allocate_loop C request [] h = Some (Inr None, h)"
| "allocate_loop C request (prefixID # ids) h = do {
     (r, h1) \<leftarrow> nbAllocateIPAddress C prefixID request h;
     case r of
       Inl e \<Rightarrow> if is_ErrNoAvailableIP e then allocate_loop C request ids h1 else Some (Inl e, h1)
     | Inr a \<Rightarrow> Some (Inr (Some (prefixID, a)), h1)
   }"

definition allocation_request ::
  "NetBoxIPPoolSpec \<Rightarrow> IPAddressClaim \<Rightarrow> EffectiveMetadata \<Rightarrow> AllocationRequest" where
  "allocation_request poolSpec claim metadata =
     \<lparr>ar_Metadata = metadata,
      ar_OwnershipTag = OwnershipTag poolSpec,
      ar_ClaimUIDFieldName = ClaimUIDCustomField poolSpec,
      ar_ClaimUID = om_UID (cl_meta claim),
      ar_Description = om_Namespace (cl_meta claim) @ ''/'' @ om_Name (cl_meta claim),
      ar_Status = IPAddressStatus poolSpec\<rparr>"

text \<open>The part after the lookup found no record: allocate from the first prefix that has an
  address left.\<close>

definition allocate_new ::
  "env \<Rightarrow> nb_client \<Rightarrow> any_pool \<Rightarrow> IPAddressClaim \<Rightarrow> IPAddress \<Rightarrow> (handler_result \<times> IPAddress) io" where
  "allocate_new E C pool claim address h =
     (let poolSpec = PoolSpec any_pool_ops pool in do {
        (c, h1) \<leftarrow> nbEnsureIPAddressCustomField C (ClaimUIDCustomField poolSpec) h;
        case c of
          Inl e \<Rightarrow> Some (((None, Some e), address), h1)
        | Inr _ \<Rightarrow> do {
            (r, h2) \<leftarrow> (let cached = st_ResolvedPrefixes (PoolStatus any_pool_ops pool) in
              if cached = [] then nbResolvePrefixIDs C (ps_Prefixes poolSpec) h1
              else Some (Inr cached, h1));
            case r of
              Inl e \<Rightarrow> Some (((None, Some e), address), h2)
            | Inr prefixIDs \<Rightarrow>
                (case EffectivePoolMetadata (ps_MetadataDefaults poolSpec) claim of
                   Inl e \<Rightarrow> Some (((None, Some e), address), h2)
                 | Inr metadata \<Rightarrow> do {
                     (a, h3) \<leftarrow> allocate_loop C (allocation_request poolSpec claim metadata) prefixIDs h2;
                     case a of
                       Inl e \<Rightarrow> Some (((None, Some e), address), h3)
                     | Inr None \<Rightarrow>
                         Some (((Some \<lparr>RequeueAfter = poolExhaustedRequeueAfter\<rparr>,
                                 Some (Errorf ''pool exhausted'' [])), address), h3)
                     | Inr (Some (prefixID, allocation)) \<Rightarrow> do {
                         (details, h4) \<leftarrow> gatewayDetails E pool C poolSpec prefixIDs h3;
                         Some (((None, None),
                           set_allocation allocation (gatewayForPrefixID details prefixID) address), h4)
                       }
                   })
          }
      })"

text \<open>Configuration and client, as \<open>EnsureAddress\<close> and \<open>ReleaseAddress\<close> set them up.\<close>

definition connect ::
  "env \<Rightarrow> netboxClaimHandler \<Rightarrow> any_pool \<Rightarrow> (err + nb_client) io" where
  "connect E nh pool h = do {
     (r, h1) \<leftarrow> LoadConnectionConfig E (om_Namespace (PoolMeta any_pool_ops pool))
       (ps_ConnectionSecretRef (PoolSpec any_pool_ops pool)) h;
     Some (case r of
        Inl e \<Rightarrow> Inl e
      | Inr cfg \<Rightarrow> nh_newClientFunc nh (cfg\<lparr>cc_RequestTimeout := nh_requestTimeout nh\<rparr>), h1)
   }"

text \<open>The body of \<open>EnsureAddress\<close>, without the deferred sanitizing.\<close>

definition ensure_address_body ::
  "env \<Rightarrow> netboxClaimHandler \<Rightarrow> any_pool \<Rightarrow> IPAddress \<Rightarrow> (handler_result \<times> IPAddress) io" where
  "ensure_address_body E nh pool address h =
     (let poolSpec = PoolSpec any_pool_ops pool in do {
        (c, h1) \<leftarrow> connect E nh pool h;
        case c of
          Inl e \<Rightarrow> Some (((None, Some e), address), h1)
        | Inr C \<Rightarrow> do {
            (r, h2) \<leftarrow> nbFindIPAddressByClaimUID C (OwnershipTag poolSpec) (ClaimUIDCustomField poolSpec)
              (om_UID (cl_meta (nh_claim nh))) h1;
            case r of
              Inl e \<Rightarrow> Some (((None, Some e), address), h2)
            | Inr (Some existing) \<Rightarrow> do {
                (details, h3) \<leftarrow> gatewayDetails E pool C poolSpec
                  (st_ResolvedPrefixes (PoolStatus any_pool_ops pool)) h2;
                Some (((None, None), set_allocation existing
                  (gatewayForAddress details (aa_Address existing)) address), h3)
              }
            | Inr None \<Rightarrow> allocate_new E C pool (nh_claim nh) address h2
          }
      })"

definition sanitize_result :: "handler_result \<Rightarrow> handler_result" where
  "sanitize_result res = (fst res, map_option SanitizedError (snd res))"

definition EnsureAddress ::
  "env \<Rightarrow> netboxClaimHandler \<Rightarrow> IPAddress \<Rightarrow> (handler_result \<times> IPAddress) io" where
  "EnsureAddress E nh address h =
     (if ip_Address address \<noteq> [] then Some (((None, None), address), h)
      else case nh_pool nh of
        None \<Rightarrow> None
      | Some pool \<Rightarrow> do {
          ((res, address'), h') \<leftarrow> ensure_address_body E nh pool address h;
          Some ((sanitize_result res, address'), h')
        })"

section \<open>ReleaseAddress\<close>

definition netboxAddressCandidates :: "IPAddress \<Rightarrow> string list" where
  "netboxAddressCandidates address =
     (if ip_Address address = [] then []
      else (case ip_Prefix address of
              None \<Rightarrow> []
            | Some p \<Rightarrow> [ip_Address address @ ''/'' @ show_int32 p]) @ [ip_Address address])"

fun find_by_candidates ::
  "nb_client \<Rightarrow> string \<Rightarrow> string list \<Rightarrow> (err + AllocatedAddress option) io" where
  "find_by_candidates C tag [] h = Some (Inr None, h)"
| "find_by_candidates C tag (candidate # cs) h = do {
     (r, h1) \<leftarrow> nbFindIPAddressByAddress C tag candidate h;
     case r of
       Inl e \<Rightarrow> Some (Inl e, h1)
     | Inr (Some a) \<Rightarrow> Some (Inr (Some a), h1)
     | Inr None \<Rightarrow> find_by_candidates C tag cs h1
   }"

definition findExistingNetBoxIP ::
  "nb_client \<Rightarrow> NetBoxIPPoolSpec \<Rightarrow> IPAddressClaim \<Rightarrow> IPAddress \<Rightarrow> (err + AllocatedAddress option) io" where
  "findExistingNetBoxIP C poolSpec claim k8sIPAddress h = do {
     (r, h1) \<leftarrow> nbFindIPAddressByClaimUID C (OwnershipTag poolSpec) (ClaimUIDCustomField poolSpec)
       (om_UID (cl_meta claim)) h;
     case r of
       Inl e \<Rightarrow> Some (Inl e, h1)
     | Inr (Some a) \<Rightarrow> Some (Inr (Some a), h1)
     | Inr None \<Rightarrow>
         if om_Name (ip_meta k8sIPAddress) = [] then Some (Inr None, h1)
         else find_by_candidates C (OwnershipTag poolSpec) (netboxAddressCandidates k8sIPAddress) h1
   }"

definition unlocated_error :: "IPAddressClaim \<Rightarrow> IPAddress \<Rightarrow> err" where
  "unlocated_error claim k8sIPAddress =
     Errorf ''unable to locate NetBox IP for claim %s/%s with uid %s and address candidates %v''
       [om_Namespace (cl_meta claim), om_Name (cl_meta claim), om_UID (cl_meta claim),
        ''['' @ join_with '' '' (netboxAddressCandidates k8sIPAddress) @ '']'']"

text \<open>The part that has its client: find the record and delete it.\<close>

definition release_record ::
  "nb_client \<Rightarrow> NetBoxIPPoolSpec \<Rightarrow> IPAddressClaim \<Rightarrow> IPAddress \<Rightarrow> handler_result io" where
  "release_record C poolSpec claim k8sIPAddress h = do {
     (r, h1) \<leftarrow> findExistingNetBoxIP C poolSpec claim k8sIPAddress h;
     case r of
       Inl e \<Rightarrow> Some ((None, Some e), h1)
     | Inr None \<Rightarrow>
         Some (if om_Name (ip_meta k8sIPAddress) \<noteq> []
               then (Some \<lparr>RequeueAfter = missingAddressRequeueAfter\<rparr>,
                     Some (unlocated_error claim k8sIPAddress))
               else (None, None), h1)
     | Inr (Some ipAddress) \<Rightarrow> do {
         (d, h2) \<leftarrow> nbDeleteIPAddress C (aa_ID ipAddress) h1;
         Some ((None, case d of Inl e \<Rightarrow> Some e | Inr _ \<Rightarrow> None), h2)
       }
   }"

text \<open>The Kubernetes address object, zero when there is none, and the rest.\<close>

definition release_address_body ::
  "env \<Rightarrow> netboxClaimHandler \<Rightarrow> any_pool \<Rightarrow> handler_result io" where
  "release_address_body E nh pool h =
     (let ns = om_Namespace (cl_meta (nh_claim nh)); name = om_Name (cl_meta (nh_claim nh)) in do {
        (g, h1) \<leftarrow> call (EGetAddress ns name) (\<lambda>h. get_address E h ns name) h;
        case (case g of Inr a \<Rightarrow> Inr a | Inl e \<Rightarrow> if is_NotFound e then Inr empty_address else Inl e) of
          Inl e \<Rightarrow> Some ((None, Some e), h1)
        | Inr k8sIPAddress \<Rightarrow> do {
            (c, h2) \<leftarrow> connect E nh pool h1;
            case c of
              Inl e \<Rightarrow> Some ((None, Some e), h2)
            | Inr C \<Rightarrow> release_record C (PoolSpec any_pool_ops pool) (nh_claim nh) k8sIPAddress h2
          }
      })"

definition ReleaseAddress :: "env \<Rightarrow> netboxClaimHandler \<Rightarrow> handler_result io" where
  "ReleaseAddress E nh h =
     (case nh_pool nh of
        None \<Rightarrow> Some ((None, None), h)
      | Some pool \<Rightarrow> do {
          (res, h') \<leftarrow> release_address_body E nh pool h;
          Some (sanitize_result res, h')
        })"

end
