(* ===== verification/Pool_Facts.thy ===== *)
theory Pool_Facts
  imports Pool_Controller
begin

text \<open>
  What the pool reconcilers promise. The lemmas are proved once for any implementation of
  \<open>statusPool\<close>, in the locale \<open>status_pool\<close>, and reach the two pool kinds through its
  interpretations \<open>npool\<close> and \<open>gpool\<close>.
\<close>

section \<open>Kinds of events\<close>

definition is_kube_write :: "event \<Rightarrow> bool" where
  "is_kube_write ev =
     (case ev of
        EWriteAddress a b \<Rightarrow> True
      | EPatchAddress a b \<Rightarrow> True
      | EDeleteAddress a b \<Rightarrow> True
      | EPatchClaim a b \<Rightarrow> True
      | EPatchPool a b \<Rightarrow> True
      | _ \<Rightarrow> False)"

text \<open>An event that neither writes to Kubernetes nor allocates or deletes in NetBox.\<close>

definition calm :: "event \<Rightarrow> bool" where
  "calm ev \<longleftrightarrow> \<not> is_alloc ev \<and> \<not> is_delete ev \<and> \<not> is_kube_write ev"

lemma calm_simps [simp]:
  "calm (EGetSecret a b)" "calm (EGetClaim a b)" "calm (EGetPool a b)" "calm (EGetGlobalPool a)"
  "calm (EGetAddress a b)" "calm (EGetCluster a b)" "calm (EGetClusterFromMeta om)"
  "calm (EListAddresses a b)" "calm (EListClaims a)" "calm (EFetchAddress a b)"
  "calm (ENewPatchHelper a)" "calm (ERecord a t r ac m)" "calm EPollTick"
  "\<not> calm (EPatchPool p q)" "\<not> calm (EPatchClaim c d)" "\<not> calm (EWriteAddress ao ad)"
  by (simp_all add: calm_def is_alloc_def is_delete_def is_kube_write_def)

lemma quiet_calm: "quiet ev \<Longrightarrow> calm ev"
  by (auto simp: quiet_def calm_def is_http_def is_kube_write_def split: event.splits)

lemma grows_quiet_calm: "grows quiet h h' \<Longrightarrow> grows calm h h'"
  by (blast intro: grows_mono quiet_calm)

lemma record_calm: "is_record ev \<Longrightarrow> calm ev"
  by (auto simp: is_record_def split: event.splits)

lemma record_not_http: "is_record ev \<Longrightarrow> \<not> is_http ev"
  by (auto simp: is_record_def is_http_def split: event.splits)

lemma calm_then_records: "grows calm h h1 \<Longrightarrow> grows is_record h1 h2 \<Longrightarrow> grows calm h h2"
  by (blast intro: grows_trans grows_mono record_calm)

lemma no_http_then_records:
  "grows (\<lambda>ev. \<not> is_http ev) h h1 \<Longrightarrow> grows is_record h1 h2 \<Longrightarrow> grows (\<lambda>ev. \<not> is_http ev) h h2"
  by (auto simp: grows_def list_all_iff) (blast dest: record_not_http)

lemma listAddressesInUse_result:
  obtains r h1 where "listAddressesInUse E ns kind name h = Some (r, h1)" "grows calm h h1"
    "grows (\<lambda>ev. \<not> is_http ev) h h1" "\<And>e. r = Inl e \<Longrightarrow> \<exists>x. e = Ext x"
proof (cases "list_addresses E h
    (IPPoolRefValue \<lparr>plr_APIGroup = GroupVersion_Group, plr_Kind = kind, plr_Name = name\<rparr>) ns")
  case (Inl x)
  then show ?thesis
    by (intro that [of "Inl (Ext x)"]) (auto simp: listAddressesInUse_def call_def Let_def is_http_def)
next
  case (Inr as)
  then show ?thesis
    by (intro that [of "Inr as"]) (auto simp: listAddressesInUse_def call_def Let_def is_http_def)
qed

section \<open>Resolved prefixes\<close>

text \<open>A cached gateway is empty, or the text of an address of its prefix's family.\<close>

definition gateway_ok :: "ResolvedPrefix \<Rightarrow> bool" where
  "gateway_ok rp \<longleftrightarrow>
     rp_Gateway rp = [] \<or>
     (\<exists>a p. rp_Gateway rp = show_addr a \<and> parse_prefix (trim_space (rp_CIDR rp)) = Some p \<and>
            is4 a = is4 (prefix_addr p))"

lemma resolve_one_ok:
  "resolve_one E spec fetched i pid = Inr (rp, inr) \<Longrightarrow>
     rp_ID rp = pid \<and> rp_CIDR rp = pd_CIDR (detail_by_id fetched pid) \<and> gateway_ok rp"
  by (auto simp: resolve_one_def Let_def gateway_ok_def split: sum.splits elim!: ResolveGateway_cases)

lemma resolve_one_gateway:
  "resolve_one E spec fetched i pid = Inr (rp, inr) \<Longrightarrow>
     rp_CIDR rp = pd_CIDR (detail_by_id fetched pid) \<and>
     ResolveGateway (rp_CIDR rp)
       (CustomFieldString (float_text E) (pd_CustomFields (detail_by_id fetched pid))
         (ps_GatewayCustomField spec))
       (per_prefix_static spec i) (ps_Gateway spec) = Inr (rp_Gateway rp, inr)"
  by (auto simp: resolve_one_def Let_def split: sum.splits)

lemma resolve_one_err: "resolve_one E spec fetched i pid = Inl e \<Longrightarrow> chain_only e \<and> api_free e"
  by (auto simp: resolve_one_def Let_def dest: ResolveGateway_err split: sum.splits)

text \<open>The result of the loop, index for index.\<close>

lemma build_loop_Inr:
  assumes "build_loop E spec fetched i ids acc out = Inr (resolved, inRangeIDs)"
  shows "\<exists>rs. resolved = acc @ rs \<and> length rs = length ids \<and>
    (\<forall>k < length ids. \<exists>inr. resolve_one E spec fetched (i + k) (ids ! k) = Inr (rs ! k, inr))"
  using assms
proof (induction ids arbitrary: i acc out)
  case (Cons pid ids)
  then obtain rp inr where one: "resolve_one E spec fetched i pid = Inr (rp, inr)"
    and rest: "build_loop E spec fetched (Suc i) ids (acc @ [rp])
      (if inr then out @ [pid] else out) = Inr (resolved, inRangeIDs)"
    by (auto split: sum.splits)
  from Cons.IH [OF rest] obtain rs where rs: "resolved = (acc @ [rp]) @ rs" "length rs = length ids"
    "\<forall>k < length ids. \<exists>inr. resolve_one E spec fetched (Suc i + k) (ids ! k) = Inr (rs ! k, inr)"
    by blast
  have "\<exists>inr. resolve_one E spec fetched (i + k) ((pid # ids) ! k) = Inr ((rp # rs) ! k, inr)"
    if "k < length (pid # ids)" for k
    using that one rs(3) by (cases k) auto
  with rs(1,2) show ?case by (intro exI [of _ "rp # rs"]) auto
qed auto

lemma build_loop_Inl:
  "build_loop E spec fetched i ids acc out = Inl e \<Longrightarrow> chain_only e \<and> api_free e"
  by (induction ids arbitrary: i acc out) (auto dest: resolve_one_err split: sum.splits)

lemma buildResolvedPrefixes_ok:
  assumes "buildResolvedPrefixes E spec ids fetched = Inr (resolved, inRangeIDs)"
  shows "map rp_ID resolved = ids \<and> list_all gateway_ok resolved \<and>
    map rp_CIDR resolved = map (\<lambda>i. pd_CIDR (detail_by_id fetched i)) ids"
proof -
  from build_loop_Inr [OF assms [unfolded buildResolvedPrefixes_def]]
  have rs: "length resolved = length ids"
    "\<And>k. k < length ids \<Longrightarrow> \<exists>inr. resolve_one E spec fetched k (ids ! k) = Inr (resolved ! k, inr)"
    by auto
  then show ?thesis
    by (auto simp: list_all_length intro!: nth_equalityI dest!: resolve_one_ok)
       (metis resolve_one_ok)+
qed

lemma buildResolvedPrefixes_err:
  "buildResolvedPrefixes E spec ids fetched = Inl e \<Longrightarrow> chain_only e \<and> api_free e"
  by (auto simp: buildResolvedPrefixes_def dest: build_loop_Inl)

lemma warn_in_range_holds:
  "holds (\<lambda>u h'. grows calm h h') (warn_in_range rec obj ids h)"
proof (induction ids arbitrary: h)
  case (Cons pid ids)
  show ?case
  proof (cases rec)
    case (Some b)
    have "holds (\<lambda>u h'. grows calm h h') (warn_in_range rec obj ids h1)" if "grows is_record h h1" for h1
      by (rule holds_mono [OF Cons.IH]) (use that in \<open>blast intro: grows_trans grows_mono record_calm\<close>)
    with Some show ?thesis
      by (auto simp: holds_bind intro!: holds_mono [OF RecordWarning_holds])
  qed simp
qed simp

section \<open>The contract of a status reconcile\<close>

text \<open>When the cached resolution is not used.\<close>

definition needs_resolve :: "'p pool_ops \<Rightarrow> 'p \<Rightarrow> bool" where
  "needs_resolve ops pool \<longleftrightarrow>
     st_ResolvedPrefixes (PoolStatus ops pool) = [] \<or>
     st_ObservedGeneration (PoolStatus ops pool) \<noteq> om_Generation (PoolMeta ops pool)"

definition ready_conditions :: "int64 \<Rightarrow> err option \<Rightarrow> condition list" where
  "ready_conditions gen resolveErr =
     [\<lparr>co_Type = readyConditionType,
       co_Status = (case resolveErr of None \<Rightarrow> ConditionTrue | Some e \<Rightarrow> ConditionFalse),
       co_Reason = (case resolveErr of None \<Rightarrow> reasonPoolReady | Some e \<Rightarrow> reasonPrefixResolutionFailed),
       co_Message = (case resolveErr of None \<Rightarrow> MsgText ''pool is ready to serve claims'' | Some e \<Rightarrow> MsgErr e),
       co_ObservedGeneration = gen\<rparr>]"

definition blocked_error :: "nat \<Rightarrow> err" where
  "blocked_error n = Errorf ''pool still has %d allocated IPAddresses'' [show_nat n]"

definition blocked_conditions :: "int64 \<Rightarrow> nat \<Rightarrow> condition list" where
  "blocked_conditions gen n =
     [\<lparr>co_Type = readyConditionType, co_Status = ConditionFalse, co_Reason = reasonDeletionBlocked,
       co_Message = MsgErr (blocked_error n), co_ObservedGeneration = gen\<rparr>]"

text \<open>The cached resolution after a reconcile whose resolution step gave \<open>resolveErr\<close>: kept if
  there was no need to resolve or it failed, otherwise aligned with the spec.\<close>

definition resolution_ok ::
  "env \<Rightarrow> 'p pool_ops \<Rightarrow> 'p \<Rightarrow> err option \<Rightarrow> int32 list \<Rightarrow> ResolvedPrefix list \<Rightarrow> bool" where
  "resolution_ok E ops pool resolveErr ids ds \<longleftrightarrow>
     (if needs_resolve ops pool \<and> resolveErr = None
      then aligned (ps_Prefixes (PoolSpec ops pool)) ids \<and>
           (\<exists>fetched inr. buildResolvedPrefixes E (PoolSpec ops pool) ids fetched = Inr (ds, inr))
      else ids = st_ResolvedPrefixes (PoolStatus ops pool) \<and>
           ds = st_ResolvedPrefixDetails (PoolStatus ops pool) \<and>
           (resolveErr \<noteq> None \<longrightarrow> needs_resolve ops pool))"

text \<open>The pool and the error after a reconcile that saw \<open>n\<close> addresses in use.\<close>

definition pool_reconciled ::
  "env \<Rightarrow> 'p pool_ops \<Rightarrow> 'p \<Rightarrow> nat \<Rightarrow> err option \<Rightarrow> err option \<Rightarrow> 'p \<Rightarrow> bool" where
  "pool_reconciled E ops pool n resolveErr err pool' \<longleftrightarrow>
     (let m = PoolMeta ops pool; fs = om_Finalizers m; s = PoolStatus ops pool';
          blocked = om_Deleting m \<and> n > 0 in
      PoolSpec ops pool' = PoolSpec ops pool \<and>
      st_ObservedGeneration s = om_Generation m \<and>
      st_Addresses s = Some \<lparr>sa_Allocated = word_of_int (int n)\<rparr> \<and>
      (\<forall>e. resolveErr = Some e \<longrightarrow> api_free e) \<and>
      resolution_ok E ops pool resolveErr (st_ResolvedPrefixes s) (st_ResolvedPrefixDetails s) \<and>
      st_Conditions s = (if blocked then blocked_conditions (om_Generation m) n
                         else ready_conditions (om_Generation m) resolveErr) \<and>
      err = (if blocked then Some (blocked_error n) else if om_Deleting m then None else resolveErr) \<and>
      (\<exists>ls. PoolMeta ops pool' = m\<lparr>om_Labels := ls, om_Finalizers :=
         if \<not> om_Deleting m then fst (AddFinalizer E fs poolFinalizer)
         else if n > 0 then fs else fst (RemoveFinalizer E fs poolFinalizer)\<rparr>))"

lemma safeAllocatedCount_ok: "n < 2 ^ 31 \<Longrightarrow> safeAllocatedCount n = Inr (word_of_int (int n))"
  by (simp add: safeAllocatedCount_def parse_show_int)

lemma safeAllocatedCount_big: "\<not> n < 2 ^ 31 \<Longrightarrow> \<exists>e. safeAllocatedCount n = Inl e \<and> api_free e"
  by (simp add: safeAllocatedCount_def parse_int_out_of_range)

lemma safeAllocatedCount_err: "safeAllocatedCount n = Inl e \<Longrightarrow> api_free e"
  by (auto simp: safeAllocatedCount_def split: option.splits)

section \<open>Any pool\<close>

definition finalizer_guarded :: "'p pool_ops \<Rightarrow> 'p \<Rightarrow> 'p \<Rightarrow> (err + IPAddress list) \<Rightarrow> bool" where
  "finalizer_guarded ops pool pool' found \<longleftrightarrow>
     (poolFinalizer \<in> set (om_Finalizers (PoolMeta ops pool)) \<longrightarrow>
      poolFinalizer \<notin> set (om_Finalizers (PoolMeta ops pool')) \<longrightarrow>
      om_Deleting (PoolMeta ops pool) \<and> found = Inr [])"

text \<open>\<open>pool'\<close> is \<open>pool\<close> with a complete, aligned prefix resolution in its status.\<close>

definition resolved_pool :: "env \<Rightarrow> 'p pool_ops \<Rightarrow> 'p \<Rightarrow> 'p \<Rightarrow> bool" where
  "resolved_pool E ops pool pool' \<longleftrightarrow>
     (\<exists>ids ds fetched inr. aligned (ps_Prefixes (PoolSpec ops pool)) ids \<and>
        buildResolvedPrefixes E (PoolSpec ops pool) ids fetched = Inr (ds, inr) \<and>
        pool' = SetPoolStatus ops ((PoolStatus ops pool)
          \<lparr>st_ResolvedPrefixes := ids, st_ResolvedPrefixDetails := ds\<rparr>) pool)"

context status_pool
begin

lemma resolvePrefixDetails_holds:
  assumes "netbox_client C"
  shows "holds (\<lambda>r h'. grows calm h h' \<and> (\<forall>e. r = Inl e \<longrightarrow> api_free e) \<and>
      (\<forall>ds. r = Inr ds \<longrightarrow> (\<exists>fetched inr.
         buildResolvedPrefixes E (PoolSpec ops pool) ids fetched = Inr (ds, inr))))
    (resolvePrefixDetails E ops C rec pool ids h)"
  unfolding resolvePrefixDetails_def holds_bind
  by (rule holds_mono [OF netbox_client.details_law [OF assms]])
     (auto simp: holds_bind intro!: holds_mono [OF warn_in_range_holds]
       intro: grows_trans grows_quiet_calm SanitizedError_api_free client_err_chain
       dest: buildResolvedPrefixes_err split: sum.splits)

lemma resolve_with_client_holds:
  assumes C: "netbox_client C"
  shows "holds (\<lambda>(err, pool') h'. grows calm h h' \<and>
      (\<forall>e. err = Some e \<longrightarrow> api_free e \<and> pool' = pool) \<and> (err = None \<longrightarrow> resolved_pool E ops pool pool'))
    (resolve_with_client E ops C rec pool h)"
proof -
  have details: "holds (\<lambda>r h'. grows calm h h' \<and> (\<forall>e. r = Inl e \<longrightarrow> api_free e) \<and>
      (\<forall>ds. r = Inr ds \<longrightarrow> (\<exists>fetched inr.
        buildResolvedPrefixes E (PoolSpec ops pool) ids fetched = Inr (ds, inr))))
    (resolvePrefixDetails E ops C rec pool ids h1)" if "grows quiet h h1" for ids h1
    by (rule holds_mono [OF resolvePrefixDetails_holds [OF C]])
       (use that in \<open>auto intro: grows_trans grows_quiet_calm\<close>)
  show ?thesis
    unfolding resolve_with_client_def holds_bind
    by (rule holds_mono [OF netbox_client.resolve_law [OF C]])
       (fastforce simp: holds_bind resolved_pool_def intro!: holds_mono [OF details]
         intro: SanitizedError_api_free client_err_chain grows_quiet_calm split: sum.splits)
qed

lemma resolvePoolPrefixes_holds:
  assumes "client_factory f"
  shows "holds (\<lambda>(err, pool') h'. grows calm h h' \<and>
      (\<forall>e. err = Some e \<longrightarrow> api_free e \<and> pool' = pool) \<and> (err = None \<longrightarrow> resolved_pool E ops pool pool'))
    (resolvePoolPrefixes E ops rec f timeout pool h)"
proof -
  have "holds (\<lambda>(err, pool') h'. grows calm h h' \<and>
      (\<forall>e. err = Some e \<longrightarrow> api_free e \<and> pool' = pool) \<and> (err = None \<longrightarrow> resolved_pool E ops pool pool'))
    (resolve_with_client E ops C rec pool h1)" if "f cfg = Inr C" "grows calm h h1" for cfg C h1
    by (rule holds_mono [OF resolve_with_client_holds [OF client_factory.factory_client [OF assms that(1)]]])
       (use that(2) in \<open>auto intro: grows_trans\<close>)
  moreover have "api_free (SanitizedError e)" if "f cfg = Inl e" for cfg e
    using client_factory.factory_err [OF assms that] by (simp add: SanitizedError_api_free client_err_chain)
  ultimately show ?thesis
    unfolding resolvePoolPrefixes_def holds_bind
    by (intro holds_mono [OF LoadConnectionConfig_holds])
       (auto split: sum.splits intro: SanitizedError_api_free)
qed

lemma finish_pool_holds:
  "holds (\<lambda>(err, pool') h'. grows is_record h h' \<and>
      err = (if om_Deleting (PoolMeta ops pool)
             then if n > 0 then Some (blocked_error n) else None else resolveErr) \<and>
      pool' = (let fs = om_Finalizers (PoolMeta ops pool) in
        if \<not> om_Deleting (PoolMeta ops pool) then set_finalizers ops (fst (AddFinalizer E fs poolFinalizer)) pool
        else if n > 0 then setConditionFalse ops reasonDeletionBlocked (MsgErr (blocked_error n)) pool
        else set_finalizers ops (fst (RemoveFinalizer E fs poolFinalizer)) pool))
    (finish_pool E ops rec n resolveErr pool h)"
proof (cases rec)
  case None
  then show ?thesis by (simp add: finish_pool_def holds_bind blocked_error_def Let_def)
next
  case (Some b)
  then show ?thesis
    by (auto simp: finish_pool_def holds_bind blocked_error_def Let_def
        intro!: holds_mono [OF RecordWarning_holds])
qed

lemma label_fields [simp]:
  "PoolSpec ops (ensureClusterNameLabel ops c p) = PoolSpec ops p"
  "PoolStatus ops (ensureClusterNameLabel ops c p) = PoolStatus ops p"
  "om_Deleting (PoolMeta ops (ensureClusterNameLabel ops c p)) = om_Deleting (PoolMeta ops p)"
  "om_Finalizers (PoolMeta ops (ensureClusterNameLabel ops c p)) = om_Finalizers (PoolMeta ops p)"
  "om_Generation (PoolMeta ops (ensureClusterNameLabel ops c p)) = om_Generation (PoolMeta ops p)"
  by (simp_all add: ensureClusterNameLabel_def)

lemma label_meta:
  "\<exists>ls. PoolMeta ops (ensureClusterNameLabel ops c p) = (PoolMeta ops p)\<lparr>om_Labels := ls\<rparr>"
  by (cases "c = []") (auto simp: ensureClusterNameLabel_def intro: exI [of _ "om_Labels (PoolMeta ops p)"])

lemma ready_condition_set:
  "setPoolReadyCondition ops rerr p = SetPoolStatus ops ((PoolStatus ops p)
     \<lparr>st_Conditions := ready_conditions (om_Generation (PoolMeta ops p)) rerr\<rparr>) p"
  by (simp add: setPoolReadyCondition_def setConditionFalse_def ready_conditions_def split: option.splits)

text \<open>The resolution step, from the pool whose generation and count have been written.\<close>

lemma resolve_step_holds:
  fixes pool n
  defines "pool2 \<equiv> SetPoolStatus ops ((PoolStatus ops pool)
    \<lparr>st_ObservedGeneration := om_Generation (PoolMeta ops pool),
     st_Addresses := Some \<lparr>sa_Allocated = n\<rparr>\<rparr>) pool"
  assumes f: "client_factory f"
  shows "holds (\<lambda>(rerr, p) h'. grows calm h h' \<and> (\<forall>e. rerr = Some e \<longrightarrow> api_free e) \<and>
      PoolSpec ops p = PoolSpec ops pool \<and> PoolMeta ops p = PoolMeta ops pool \<and>
      st_ObservedGeneration (PoolStatus ops p) = om_Generation (PoolMeta ops pool) \<and>
      st_Addresses (PoolStatus ops p) = Some \<lparr>sa_Allocated = n\<rparr> \<and>
      resolution_ok E ops pool rerr (st_ResolvedPrefixes (PoolStatus ops p))
        (st_ResolvedPrefixDetails (PoolStatus ops p)))
    (if needs_resolve ops pool then resolvePoolPrefixes E ops rec f timeout pool2 h
     else Some ((None, pool2), h))"
proof (cases "needs_resolve ops pool")
  case True
  show ?thesis
    unfolding if_P [OF True]
  proof (rule holds_mono [OF resolvePoolPrefixes_holds [OF f]], goal_cases)
    case (1 r h')
    with True show ?case
      by (cases r; cases "fst r") (auto simp: pool2_def resolution_ok_def resolved_pool_def, blast+)
  qed
next
  case False
  then show ?thesis by (simp add: pool2_def resolution_ok_def)
qed

lemma finish_reconciled:
  assumes "PoolSpec ops p = PoolSpec ops pool" "PoolMeta ops p = PoolMeta ops pool"
    and "st_ObservedGeneration (PoolStatus ops p) = om_Generation (PoolMeta ops pool)"
    and "st_Addresses (PoolStatus ops p) = Some \<lparr>sa_Allocated = word_of_int (int n)\<rparr>"
    and "resolution_ok E ops pool rerr (st_ResolvedPrefixes (PoolStatus ops p))
      (st_ResolvedPrefixDetails (PoolStatus ops p))"
    and "\<forall>e. rerr = Some e \<longrightarrow> api_free e" "grows calm h0 h"
  shows "holds (\<lambda>(err, pool') h'. grows calm h0 h' \<and> pool_reconciled E ops pool n rerr err pool')
    (finish_pool E ops rec n rerr (ensureClusterNameLabel ops c (setPoolReadyCondition ops rerr p)) h)"
proof -
  obtain ls where ls: "PoolMeta ops (ensureClusterNameLabel ops c (setPoolReadyCondition ops rerr p)) =
      (PoolMeta ops pool)\<lparr>om_Labels := ls\<rparr>"
    using label_meta [of c "setPoolReadyCondition ops rerr p"] assms(2) by (auto simp: ready_condition_set)
  show ?thesis
    by (rule holds_mono [OF finish_pool_holds])
       (use assms ls in \<open>auto simp: pool_reconciled_def Let_def set_finalizers_def setConditionFalse_def
          blocked_conditions_def ready_condition_set
          intro: calm_then_records [OF grows_trans] calm_then_records exI [of _ ls]\<close>)
qed

lemma reconcilePoolStatus_holds:
  assumes f: "client_factory f"
    and list: "listAddressesInUse E (om_Namespace (PoolMeta ops pool)) kind (om_Name (PoolMeta ops pool)) h
      = Some (Inr addresses, h1)"
    and n: "length addresses < 2 ^ 31"
  shows "holds (\<lambda>(err, pool') h'. grows calm h h' \<and>
      (\<exists>rerr. pool_reconciled E ops pool (length addresses) rerr err pool'))
    (reconcilePoolStatus E ops rec f timeout kind pool h)"
proof -
  have h1: "grows calm h h1"
    using list by (auto simp: listAddressesInUse_def call_def Let_def)
  have cond: "(st_ResolvedPrefixes (PoolStatus ops pool) = [] \<or>
      st_ObservedGeneration (PoolStatus ops pool) \<noteq> om_Generation (PoolMeta ops pool)) = needs_resolve ops pool"
    by (simp add: needs_resolve_def)
  let ?n = "word_of_int (int (length addresses)) :: int32"
  note step = resolve_step_holds [OF f, where pool = pool and n = ?n and h = h1 and E = E and rec = rec and timeout = timeout]
  have finish: "holds (\<lambda>(err, pool') h'. grows calm h h' \<and>
      (\<exists>rerr. pool_reconciled E ops pool (length addresses) rerr err pool'))
    (finish_pool E ops rec (length addresses) rerr
      (ensureClusterNameLabel ops c (setPoolReadyCondition ops rerr p)) h2)"
    if "grows calm h1 h2 \<and> (\<forall>e. rerr = Some e \<longrightarrow> api_free e) \<and>
      PoolSpec ops p = PoolSpec ops pool \<and> PoolMeta ops p = PoolMeta ops pool \<and>
      st_ObservedGeneration (PoolStatus ops p) = om_Generation (PoolMeta ops pool) \<and>
      st_Addresses (PoolStatus ops p) = Some \<lparr>sa_Allocated = ?n\<rparr> \<and>
      resolution_ok E ops pool rerr (st_ResolvedPrefixes (PoolStatus ops p))
        (st_ResolvedPrefixDetails (PoolStatus ops p))" for rerr p h2 c
    by (rule holds_mono [OF finish_reconciled [of p pool "length addresses" E rerr h h2]])
       (use that h1 in \<open>auto intro: grows_trans\<close>)
  show ?thesis
  proof (cases "needs_resolve ops pool")
    case True
    show ?thesis
      by (simp add: reconcilePoolStatus_def list safeAllocatedCount_ok [OF n, simplified] cond True holds_bind Let_def)
         (rule holds_mono [OF step [unfolded if_P [OF True], simplified]], auto intro!: finish)
  next
    case False
    show ?thesis
      using step [unfolded if_not_P [OF False]]
      by (simp add: reconcilePoolStatus_def list safeAllocatedCount_ok [OF n, simplified] cond False Let_def)
         (rule finish, simp)
  qed
qed

text \<open>Every branch, the failures of listing and counting included.\<close>

lemma reconcilePoolStatus_cases:
  fixes E pool kind h
  assumes f: "client_factory f"
  defines "found \<equiv> listAddressesInUse E (om_Namespace (PoolMeta ops pool)) kind
    (om_Name (PoolMeta ops pool)) h"
  shows "holds (\<lambda>(err, pool') h'. grows calm h h' \<and>
      ((\<exists>x. fst (the found) = Inl (Ext x) \<and> err = Some (Ext x) \<and> pool' = pool) \<or>
       (\<exists>e. err = Some e \<and> api_free e \<and> pool' = SetPoolStatus ops ((PoolStatus ops pool)
          \<lparr>st_ObservedGeneration := om_Generation (PoolMeta ops pool)\<rparr>) pool) \<or>
       (\<exists>addresses rerr. fst (the found) = Inr addresses \<and>
          pool_reconciled E ops pool (length addresses) rerr err pool')))
    (reconcilePoolStatus E ops rec f timeout kind pool h)"
proof -
  obtain r h1 where fd: "found = Some (r, h1)" and h1: "grows calm h h1"
    and r: "\<And>e. r = Inl e \<Longrightarrow> \<exists>x. e = Ext x"
    unfolding found_def
    using listAddressesInUse_result [of E _ kind _ h] by blast
  show ?thesis
  proof (cases r)
    case (Inl e)
    with r h1 fd show ?thesis by (auto simp: reconcilePoolStatus_def found_def)
  next
    case (Inr addresses)
    show ?thesis
    proof (cases "length addresses < 2 ^ 31")
      case True
      from fd Inr have "listAddressesInUse E (om_Namespace (PoolMeta ops pool)) kind
          (om_Name (PoolMeta ops pool)) h = Some (Inr addresses, h1)" by (simp add: found_def)
      from reconcilePoolStatus_holds [OF f this True] show ?thesis
        by (rule holds_mono) (auto simp: fd Inr)
    next
      case False
      from safeAllocatedCount_big [OF this] h1 show ?thesis
        using fd Inr by (auto simp: reconcilePoolStatus_def found_def)
    qed
  qed
qed

text \<open>The finalizer is only removed from a pool that is being deleted and has no addresses.\<close>

lemma pool_reconciled_finalizer:
  "finalizers_ok E \<Longrightarrow> pool_reconciled E ops pool (length addresses) rerr err pool' \<Longrightarrow>
     finalizer_guarded ops pool pool' (Inr addresses)"
  by (auto simp: pool_reconciled_def finalizers_ok_def finalizer_guarded_def Let_def split: if_splits)

lemma reconcilePoolStatus_finalizer:
  assumes f: "client_factory f" and E: "finalizers_ok E"
  shows "holds (\<lambda>(err, pool') h'. grows calm h h' \<and>
      finalizer_guarded ops pool pool' (fst (the (listAddressesInUse E
        (om_Namespace (PoolMeta ops pool)) kind (om_Name (PoolMeta ops pool)) h))))
    (reconcilePoolStatus E ops rec f timeout kind pool h)"
proof (rule holds_mono [OF reconcilePoolStatus_cases [OF f]], goal_cases)
  case (1 r h')
  then show ?case
    using pool_reconciled_finalizer [OF E] by (cases r) (auto simp: finalizer_guarded_def)
qed

text \<open>With a warm cache NetBox is not asked.\<close>

lemma reconcilePoolStatus_cached:
  assumes "\<not> needs_resolve ops pool"
  shows "holds (\<lambda>(err, pool') h'. grows (\<lambda>ev. \<not> is_http ev) h h' \<and>
      st_ResolvedPrefixes (PoolStatus ops pool') = st_ResolvedPrefixes (PoolStatus ops pool))
    (reconcilePoolStatus E ops rec f timeout kind pool h)"
proof -
  have cond: "\<not> (st_ResolvedPrefixes (PoolStatus ops pool) = [] \<or>
      st_ObservedGeneration (PoolStatus ops pool) \<noteq> om_Generation (PoolMeta ops pool))"
    using assms by (simp add: needs_resolve_def)
  obtain r h1 where fd: "listAddressesInUse E (om_Namespace (PoolMeta ops pool)) kind
      (om_Name (PoolMeta ops pool)) h = Some (r, h1)" and h1: "grows (\<lambda>ev. \<not> is_http ev) h h1"
    using listAddressesInUse_result [of E _ kind _ h] by blast
  show ?thesis
  proof (cases r)
    case (Inl e)
    with h1 fd show ?thesis by (simp add: reconcilePoolStatus_def)
  next
    case (Inr addresses)
    show ?thesis
    proof (cases "safeAllocatedCount (length addresses)")
      case (Inl e)
      with \<open>r = Inr addresses\<close> h1 fd show ?thesis by (simp add: reconcilePoolStatus_def)
    next
      case (Inr n)
      with \<open>r = Inr addresses\<close> h1 fd cond show ?thesis
        by (auto simp: reconcilePoolStatus_def Let_def ready_condition_set set_finalizers_def
            setConditionFalse_def
            intro!: holds_mono [OF finish_pool_holds]
            intro: no_http_then_records)
    qed
  qed
qed


lemma finish_pool_total: "finish_pool E ops rec n rerr p h \<noteq> None"
  by (auto simp: finish_pool_def RecordWarning_def recordEvent_def emit_def Let_def split: option.splits)

lemma reconcilePoolStatus_cached_total:
  assumes "\<not> needs_resolve ops pool"
  shows "reconcilePoolStatus E ops rec f timeout kind pool h \<noteq> None"
proof -
  obtain r h1 where fd: "listAddressesInUse E (om_Namespace (PoolMeta ops pool)) kind
      (om_Name (PoolMeta ops pool)) h = Some (r, h1)"
    using listAddressesInUse_result [of E _ kind _ h] by blast
  show ?thesis
    using assms finish_pool_total
    by (auto simp: reconcilePoolStatus_def fd needs_resolve_def Let_def split: sum.splits)
qed

end

section \<open>The reconcilers\<close>

text \<open>A reconcile only reads, or it ends with the one patch of a pool that \<open>reconcilePoolStatus\<close>
  has turned from what was read into what is written.\<close>

definition one_patch ::
  "('p \<Rightarrow> any_pool) \<Rightarrow> (hist \<Rightarrow> 'p \<Rightarrow> 'p \<Rightarrow> bool) \<Rightarrow> hist \<Rightarrow> hist \<Rightarrow> bool" where
  "one_patch mk R h h' \<longleftrightarrow>
     grows calm h h' \<or>
     (\<exists>h1 h2 p p'. grows calm h h2 \<and> h' = h2 @ [EPatchPool (mk p) (mk p')] \<and> R h1 p p')"

lemma NetBoxIPPool_Reconcile_one_patch:
  assumes step: "\<And>pool h. holds (\<lambda>(err, pool') h'. grows calm h h' \<and> R h pool pool')
    (reconcilePoolStatus E NetBoxIPPool_ops (Some (rc_base r)) (new_client_func E (rc_NewClient r))
      (rc_RequestTimeout r) NetBoxIPPoolKind pool h)"
  shows "holds (\<lambda>_ h'. one_patch NamespacedPool R h h') (NetBoxIPPool_Reconcile E r namespace name h)"
proof -
  have step': "holds (\<lambda>(err, pool') h'. grows calm h h' \<and> R h1 pool pool')
    (reconcilePoolStatus E NetBoxIPPool_ops (Some (rc_base r)) (new_client_func E (rc_NewClient r))
      (rc_RequestTimeout r) NetBoxIPPoolKind pool h1)" if "grows calm h h1" for pool h1
    by (rule holds_mono [OF step]) (use that in \<open>auto intro: grows_trans\<close>)
  show ?thesis
    by (auto simp: NetBoxIPPool_Reconcile_def holds_simps deferred_pool_patch_def one_patch_def grows_snoc_trans
        intro!: holds_mono [OF step'] split: sum.splits option.splits)
qed

lemma GlobalNetBoxIPPool_Reconcile_one_patch:
  assumes step: "\<And>pool h. holds (\<lambda>(err, pool') h'. grows calm h h' \<and> R h pool pool')
    (reconcilePoolStatus E GlobalNetBoxIPPool_ops (Some (rc_base r)) (new_client_func E (rc_NewClient r))
      (rc_RequestTimeout r) GlobalNetBoxIPPoolKind pool h)"
  shows "holds (\<lambda>_ h'. one_patch GlobalPool R h h') (GlobalNetBoxIPPool_Reconcile E r name h)"
proof -
  have step': "holds (\<lambda>(err, pool') h'. grows calm h h' \<and> R h1 pool pool')
    (reconcilePoolStatus E GlobalNetBoxIPPool_ops (Some (rc_base r)) (new_client_func E (rc_NewClient r))
      (rc_RequestTimeout r) GlobalNetBoxIPPoolKind pool h1)" if "grows calm h h1" for pool h1
    by (rule holds_mono [OF step]) (use that in \<open>auto intro: grows_trans\<close>)
  show ?thesis
    by (auto simp: GlobalNetBoxIPPool_Reconcile_def holds_simps deferred_pool_patch_def one_patch_def grows_snoc_trans
        intro!: holds_mono [OF step'] split: sum.splits option.splits)
qed

lemma one_patch_events:
  "one_patch mk R h h' \<Longrightarrow> ev \<in> set (added h h') \<Longrightarrow>
     calm ev \<or> (\<exists>h1 p p'. ev = EPatchPool (mk p) (mk p') \<and> R h1 p p')"
  by (auto simp: one_patch_def grows_def list_all_iff)

lemma NetBoxIPPool_ops_simps [simp]:
  "PoolSpec NetBoxIPPool_ops = np_Spec" "PoolStatus NetBoxIPPool_ops = np_Status"
  "PoolMeta NetBoxIPPool_ops = np_meta"
  by (simp_all add: NetBoxIPPool_ops_def)

lemma GlobalNetBoxIPPool_ops_simps [simp]:
  "PoolSpec GlobalNetBoxIPPool_ops p = gs_inline (gp_Spec p)"
  "PoolStatus GlobalNetBoxIPPool_ops = gp_Status" "PoolMeta GlobalNetBoxIPPool_ops = gp_meta"
  by (simp_all add: GlobalNetBoxIPPool_ops_def)

lemma listAddressesInUse_Inr:
  "fst (the (listAddressesInUse E ns kind name h)) = Inr as \<Longrightarrow>
     list_addresses E h (IPPoolRefValue \<lparr>plr_APIGroup = GroupVersion_Group, plr_Kind = kind,
       plr_Name = name\<rparr>) ns = Inr as"
  by (simp add: listAddressesInUse_def call_def Let_def split: sum.splits)

lemma new_client_factory:
  "(\<And>g. f = Some g \<Longrightarrow> client_factory g) \<Longrightarrow> client_factory (new_client_func E f)"
  by (cases f) (auto simp: new_client_func_def intro: newclient.client_factory_axioms)

end
