(* ===== verification/Claim_Handler_Facts.thy ===== *)
theory Claim_Handler_Facts
  imports Claim_Handler Pool_Facts
begin

text \<open>
  What the NetBox claim handler promises. The parts that use a client are proved in the locale
  \<open>netbox_client\<close> for any client that keeps its contract; the handler's methods for any handler
  whose client factory keeps the contract of \<open>client_factory\<close>, as \<open>NewClient\<close> does.
\<close>

section \<open>Requests of a stretch of history\<close>

definition alloc_events :: "event list \<Rightarrow> event list" where
  "alloc_events es = filter is_alloc es"

definition delete_events :: "event list \<Rightarrow> event list" where
  "delete_events es = filter is_delete es"

lemma alloc_events_simps [simp]:
  "alloc_events [] = []" "alloc_events (es @ fs) = alloc_events es @ alloc_events fs"
  by (simp_all add: alloc_events_def)

lemma delete_events_simps [simp]:
  "delete_events [] = []" "delete_events (es @ fs) = delete_events es @ delete_events fs"
  by (simp_all add: delete_events_def)

lemma allocs_length: "allocs es = length (alloc_events es)"
  by (simp add: allocs_def alloc_events_def)

lemma calm_no_requests: "grows calm h h' \<Longrightarrow> alloc_events (added h h') = [] \<and> delete_events (added h h') = []"
  by (auto simp: grows_added alloc_events_def delete_events_def list_all_iff calm_def filter_empty_conv)

lemma calm_added:
  "grows calm h h1 \<Longrightarrow> grows P h1 h2 \<Longrightarrow>
     alloc_events (added h h2) = alloc_events (added h1 h2) \<and>
     delete_events (added h h2) = delete_events (added h1 h2)"
  using calm_no_requests [of h h1] added_trans [of calm h h1 P h2] by simp

lemma calm_added_right:
  "grows P h h1 \<Longrightarrow> grows calm h1 h2 \<Longrightarrow>
     alloc_events (added h h2) = alloc_events (added h h1) \<and>
     delete_events (added h h2) = delete_events (added h h1)"
  using calm_no_requests [of h1 h2] added_trans [of P h h1 calm h2] by simp

text \<open>Events of \<open>EnsureAddress\<close>: no deletion and no write to Kubernetes.\<close>

definition ensuring :: "event \<Rightarrow> bool" where
  "ensuring ev \<longleftrightarrow> \<not> is_delete ev \<and> \<not> is_kube_write ev"

lemma calm_ensuring: "calm ev \<Longrightarrow> ensuring ev"
  by (simp add: calm_def ensuring_def)

lemma allocates_ensuring: "allocates_from i ev \<Longrightarrow> ensuring ev"
  using allocates_from_is_alloc [of i ev]
  by (auto simp: ensuring_def is_kube_write_def is_http_def split: event.splits)

lemma grows_calm_ensuring: "grows calm h h' \<Longrightarrow> grows ensuring h h'"
  by (erule grows_mono) (auto simp: calm_ensuring)

lemma grows_alloc_ensuring: "grows (\<lambda>ev. quiet ev \<or> allocates_from i ev) h h' \<Longrightarrow> grows ensuring h h'"
  by (erule grows_mono) (auto simp: calm_ensuring allocates_ensuring quiet_calm)

lemma grows_alloc_from:
  "grows (\<lambda>ev. quiet ev \<or> allocates_from i ev) h h' \<Longrightarrow>
     list_all (allocates_from i) (alloc_events (added h h'))"
  by (auto simp: grows_added alloc_events_def list_all_iff is_alloc_not_quiet)

section \<open>With a client\<close>

text \<open>The allocation requests went to the first prefixes of a list, one each, in order.\<close>

definition tried :: "int32 list \<Rightarrow> event list \<Rightarrow> bool" where
  "tried ids es \<longleftrightarrow> (\<exists>k \<le> length ids. list_all2 allocates_from (take k ids) es)"

lemma tried_Nil [simp]: "tried ids []"
  by (auto simp: tried_def intro: exI [of _ 0])

lemma tried_all: "list_all2 allocates_from ids es \<Longrightarrow> tried ids es"
  by (auto simp: tried_def intro: exI [of _ "length ids"])

lemma tried_single: "list_all (allocates_from i) es \<Longrightarrow> length es \<le> 1 \<Longrightarrow> tried (i # ids) es"
  unfolding tried_def
  by (cases es) (auto intro: exI [of _ 0] exI [of _ 1])

lemma tried_Cons: "allocates_from i e \<Longrightarrow> tried ids es \<Longrightarrow> tried (i # ids) (e # es)"
  by (auto simp: tried_def intro: exI [of _ "Suc _"])

text \<open>The prefixes of a pool, in the order they are tried: the cached IDs, or if there are none
  what a live resolution of the spec gives.\<close>

definition pool_prefix_ids :: "any_pool \<Rightarrow> int32 list \<Rightarrow> bool" where
  "pool_prefix_ids pool ids \<longleftrightarrow>
     (let cached = st_ResolvedPrefixes (PoolStatus any_pool_ops pool) in
      if cached = [] then aligned (ps_Prefixes (PoolSpec any_pool_ops pool)) ids else ids = cached)"

text \<open>The outcome of an allocation that sent the given allocation requests: an address, from a
  prefix of the pool; the pool is exhausted, after every prefix was tried; or another error.\<close>

definition allocation_outcome ::
  "any_pool \<Rightarrow> IPAddress \<Rightarrow> handler_result \<Rightarrow> IPAddress \<Rightarrow> event list \<Rightarrow> bool" where
  "allocation_outcome pool a res a' es \<longleftrightarrow>
     (case res of
        (None, None) \<Rightarrow> (\<exists>ids. pool_prefix_ids pool ids \<and> tried ids es) \<and> es \<noteq> [] \<and>
          (\<exists>x gw. a' = set_allocation x gw a)
      | (Some r, Some e) \<Rightarrow> (\<exists>ids. pool_prefix_ids pool ids \<and> list_all2 allocates_from ids es) \<and>
          RequeueAfter r = 15 \<and> e = Errorf ''pool exhausted'' [] \<and> a' = a
      | (None, Some e) \<Rightarrow> (es = [] \<or> (\<exists>ids. pool_prefix_ids pool ids \<and> tried ids es)) \<and>
          client_err e \<and> a' = a
      | (Some r, None) \<Rightarrow> False)"

context netbox_client
begin

lemma allocate_loop_holds:
  "holds (\<lambda>r h'. grows ensuring h h' \<and> tried ids (alloc_events (added h h')) \<and>
      (case r of
         Inl e \<Rightarrow> client_err e
       | Inr None \<Rightarrow> list_all2 allocates_from ids (alloc_events (added h h'))
       | Inr (Some (pid, a)) \<Rightarrow> pid \<in> set ids \<and> alloc_events (added h h') \<noteq> []))
    (allocate_loop C request ids h)"
proof (induction ids arbitrary: h)
  case Nil
  show ?case by simp
next
  case (Cons i ids)
  show ?case
    unfolding allocate_loop.simps holds_bind prod.case
  proof (rule holds_mono [OF allocate_law [where i = i and req = request and h = h]], goal_cases)
    case (1 r h1)
    then have g: "grows ensuring h h1" and es: "list_all (allocates_from i) (alloc_events (added h h1))"
      and n: "length (alloc_events (added h h1)) \<le> 1"
      by (auto simp: grows_alloc_ensuring grows_alloc_from allocs_length)
    show ?case
    proof (cases "\<exists>e. r = Inl e \<and> is_ErrNoAvailableIP e")
      case False
      with 1 g es n show ?thesis
        by (auto simp: tried_single allocs_length split: sum.splits)
    next
      case True
      then obtain e where e: "r = Inl e" "is_ErrNoAvailableIP e" by blast
      with 1 have "length (alloc_events (added h h1)) = 1" by (auto simp: allocs_length client_err_def)
      with es obtain ev where ev: "alloc_events (added h h1) = [ev]" "allocates_from i ev"
        by (auto simp: length_Suc_conv)
      have "alloc_events (added h h2) = ev # alloc_events (added h1 h2)" if "grows ensuring h1 h2" for h2
        using added_trans [OF g that] ev by simp
      then show ?thesis
        using e ev g
        by (auto intro!: holds_mono [OF Cons.IH [of h1]] intro: grows_trans tried_Cons
            split: sum.splits option.splits)
    qed
  qed
qed

lemma gatewayDetails_holds:
  "holds (\<lambda>ds h'. grows calm h h') (gatewayDetails E pool C spec ids h)"
proof -
  have details: "holds (\<lambda>r h'. grows calm h h') (nbGetPrefixDetails C js h1)" if "grows calm h h1" for js h1
    by (rule holds_mono [OF details_law]) (use that in \<open>auto intro: grows_trans grows_quiet_calm\<close>)
  have resolve: "holds (\<lambda>r h'. grows calm h h') (nbResolvePrefixIDs C refs h)" for refs
    by (rule holds_mono [OF resolve_law]) (auto intro: grows_quiet_calm)
  show ?thesis
    by (auto simp: gatewayDetails_def Let_def holds_bind intro!: holds_mono [OF details] holds_mono [OF resolve]
        split: sum.splits)
qed

lemma prefix_ids_holds:
  "holds (\<lambda>r h'. grows calm h h' \<and> (\<forall>e. r = Inl e \<longrightarrow> client_err e) \<and>
      (\<forall>ids. r = Inr ids \<longrightarrow> pool_prefix_ids pool ids))
    (let cached = st_ResolvedPrefixes (PoolStatus any_pool_ops pool) in
     if cached = [] then nbResolvePrefixIDs C (ps_Prefixes (PoolSpec any_pool_ops pool)) h
     else Some (Inr cached, h))"
  by (auto simp: pool_prefix_ids_def Let_def intro: grows_quiet_calm intro!: holds_mono [OF resolve_law])

lemma allocate_new_holds:
  "holds (\<lambda>(res, a') h'. grows ensuring h h' \<and>
      allocation_outcome pool a res a' (alloc_events (added h h')))
    (allocate_new E C pool claim a h)"
proof -
  let ?Q = "\<lambda>(res, a') h'. grows ensuring h h' \<and> allocation_outcome pool a res a' (alloc_events (added h h'))"
  have tail: "holds ?Q
      (Option.bind (allocate_loop C request ids h2) (\<lambda>(r, h3). case r of
         Inl e \<Rightarrow> Some (((None, Some e), a), h3)
       | Inr None \<Rightarrow> Some (((Some \<lparr>RequeueAfter = poolExhaustedRequeueAfter\<rparr>,
                                 Some (Errorf ''pool exhausted'' [])), a), h3)
       | Inr (Some (pid, x)) \<Rightarrow> Option.bind (gatewayDetails E pool C spec ids h3)
           (\<lambda>(details, h4). Some (((None, None), set_allocation x (gatewayForPrefixID details pid) a), h4))))"
    if h2: "grows calm h h2" and ids: "pool_prefix_ids pool ids" for request ids h2 spec
    unfolding holds_bind
  proof (rule holds_mono [OF allocate_loop_holds], goal_cases)
    case (1 r h3)
    then have g: "grows ensuring h h3" and es: "alloc_events (added h h3) = alloc_events (added h2 h3)"
      using h2 calm_added [OF h2, of ensuring h3] by (auto intro: grows_trans grows_calm_ensuring)
    have gw: "holds (\<lambda>ds h4. grows ensuring h h4 \<and> alloc_events (added h h4) = alloc_events (added h h3))
        (gatewayDetails E pool C spec ids h3)"
      by (rule holds_mono [OF gatewayDetails_holds])
         (use g calm_added_right [OF g] grows_trans [OF g grows_calm_ensuring] in blast)
    show ?case
    proof (cases r)
      case (Inl e)
      with 1 g es ids show ?thesis by (auto simp: allocation_outcome_def)
    next
      case (Inr found)
      show ?thesis
      proof (cases found)
        case None
        with Inr 1 g es ids show ?thesis
          by (auto simp: allocation_outcome_def poolExhaustedRequeueAfter_def)
      next
        case (Some px)
        with Inr 1 es ids have "\<exists>ids. pool_prefix_ids pool ids \<and> tried ids (alloc_events (added h h3))"
          "alloc_events (added h h3) \<noteq> []"
          by (auto split: prod.splits)
        with Inr Some show ?thesis
          by (cases px) (auto simp: holds_bind allocation_outcome_def intro!: holds_mono [OF gw])
      qed
    qed
  qed
  have resolve: "holds (\<lambda>r h2. grows calm h h2 \<and> (\<forall>e. r = Inl e \<longrightarrow> client_err e) \<and>
      (\<forall>ids. r = Inr ids \<longrightarrow> pool_prefix_ids pool ids))
    (let cached = st_ResolvedPrefixes (PoolStatus any_pool_ops pool) in
     if cached = [] then nbResolvePrefixIDs C (ps_Prefixes (PoolSpec any_pool_ops pool)) h1
     else Some (Inr cached, h1))" if "grows calm h h1" for h1
    by (rule holds_mono [OF prefix_ids_holds]) (use that in \<open>auto intro: grows_trans\<close>)
  have early: "?Q ((None, Some e), a) h1" if "grows calm h h1" "client_err e" for e h1
    using that by (auto simp: allocation_outcome_def calm_no_requests grows_calm_ensuring)
  have meta: "client_err e" if "EffectivePoolMetadata md cl = Inl e" for md cl e
    using EffectivePoolMetadata_err [OF that] by simp
  show ?thesis
    unfolding allocate_new_def Let_def [of "PoolSpec any_pool_ops pool"] holds_bind prod.case
  proof (rule holds_mono [OF field_law], goal_cases)
    case (1 r h1)
    then have h1: "grows calm h h1" by (auto intro: grows_quiet_calm)
    show ?case
    proof (cases r)
      case (Inl e)
      with 1 early [OF h1, of e] show ?thesis by simp
    next
      case (Inr u)
      show ?thesis
        unfolding Inr sum.case holds_bind prod.case
      proof (rule holds_mono [OF resolve [OF h1]], goal_cases)
        case (1 r h2)
        then have h2: "grows calm h h2" by simp
        show ?case
        proof (cases r)
          case (Inl e)
          with 1 early [OF h2, of e] show ?thesis by simp
        next
          case (Inr ids)
          with 1 have "pool_prefix_ids pool ids" by simp
          from tail [OF h2 this] early [OF h2 meta] Inr show ?thesis
            by (auto split: sum.splits)
        qed
      qed
    qed
  qed
qed

end

section \<open>EnsureAddress\<close>

text \<open>The lookup of the claim's record, with a client the handler's factory gave, found \<open>r\<close>.\<close>

definition claim_lookup ::
  "netboxClaimHandler \<Rightarrow> any_pool \<Rightarrow> hist \<Rightarrow> AllocatedAddress option \<Rightarrow> hist \<Rightarrow> bool" where
  "claim_lookup nh pool h1 r h2 \<longleftrightarrow>
     (\<exists>cfg C. nh_newClientFunc nh cfg = Inr C \<and>
        nbFindIPAddressByClaimUID C (OwnershipTag (PoolSpec any_pool_ops pool))
          (ClaimUIDCustomField (PoolSpec any_pool_ops pool)) (om_UID (cl_meta (nh_claim nh))) h1
        = Some (Inr r, h2))"

text \<open>The outcome of \<open>EnsureAddress\<close> on an address that is not set yet. Whenever it sends an
  allocation request, the lookup by claim UID came first and found no record.\<close>

definition ensure_outcome ::
  "netboxClaimHandler \<Rightarrow> any_pool \<Rightarrow> IPAddress \<Rightarrow> handler_result \<Rightarrow> IPAddress \<Rightarrow> hist \<Rightarrow> hist \<Rightarrow> bool" where
  "ensure_outcome nh pool a res a' h h' \<longleftrightarrow>
     (let es = alloc_events (added h h') in
      (case res of
         (None, None) \<Rightarrow>
           (\<exists>x gw. a' = set_allocation x gw a \<and>
              (es = [] \<longrightarrow> (\<exists>h1 h2. claim_lookup nh pool h1 (Some x) h2)))
       | (None, Some e) \<Rightarrow> api_free e \<and> a' = a
       | (Some r, Some e) \<Rightarrow> RequeueAfter r = 15 \<and> e = Errorf ''pool exhausted'' [] \<and> a' = a \<and>
           (\<exists>ids. pool_prefix_ids pool ids \<and> list_all2 allocates_from ids es)
       | (Some r, None) \<Rightarrow> False) \<and>
      (es \<noteq> [] \<longrightarrow>
         (\<exists>ids. pool_prefix_ids pool ids \<and> tried ids es) \<and>
         (\<exists>h1 h2. claim_lookup nh pool h1 None h2 \<and> grows calm h h2 \<and> grows ensuring h2 h')))"

lemma connect_holds:
  assumes "client_factory (nh_newClientFunc nh)"
  shows "holds (\<lambda>r h'. grows calm h h' \<and> (\<forall>e. r = Inl e \<longrightarrow> chain_only e) \<and>
      (\<forall>C. r = Inr C \<longrightarrow> netbox_client C \<and> (\<exists>cfg. nh_newClientFunc nh cfg = Inr C)))
    (connect E nh pool h)"
  unfolding connect_def holds_bind
  by (rule holds_mono [OF LoadConnectionConfig_holds])
     (auto split: sum.splits dest: client_factory.factory_client [OF assms]
       client_factory.factory_err [OF assms] client_err_chain)

lemma outcome_early:
  "grows calm h h' \<Longrightarrow> chain_only e \<Longrightarrow> ensure_outcome nh pool a (sanitize_result (None, Some e)) a h h'"
  by (simp add: ensure_outcome_def sanitize_result_def SanitizedError_api_free calm_no_requests Let_def)

lemma outcome_reused:
  "grows calm h h' \<Longrightarrow> claim_lookup nh pool h1 (Some x) h2 \<Longrightarrow>
     ensure_outcome nh pool a (sanitize_result (None, None)) (set_allocation x gw a) h h'"
  by (auto simp: ensure_outcome_def sanitize_result_def calm_no_requests Let_def)

lemma outcome_new:
  assumes "allocation_outcome pool a res a' (alloc_events (added h2 h'))"
    and "claim_lookup nh pool h1 None h2" "grows calm h h2" "grows ensuring h2 h'"
  shows "ensure_outcome nh pool a (sanitize_result res) a' h h'"
proof -
  have es: "alloc_events (added h h') = alloc_events (added h2 h')"
    using calm_added [OF assms(3,4)] by simp
  show ?thesis
    using assms
    by (auto simp: ensure_outcome_def allocation_outcome_def sanitize_result_def es Let_def tried_all
        SanitizedError_def as_apiError_None client_err_chain split: prod.splits option.splits)
qed

lemma ensure_address_body_holds:
  assumes f: "client_factory (nh_newClientFunc nh)"
  shows "holds (\<lambda>(res, a') h'. grows ensuring h h' \<and> ensure_outcome nh pool a (sanitize_result res) a' h h')
    (ensure_address_body E nh pool a h)"
  unfolding ensure_address_body_def Let_def holds_bind prod.case
proof (rule holds_mono [OF connect_holds [OF f]], goal_cases)
  case (1 c h1)
  show ?case
  proof (cases c)
    case (Inl e)
    with 1 show ?thesis by (simp add: outcome_early grows_calm_ensuring)
  next
    case (Inr C)
    with 1 obtain cfg where C: "netbox_client C" and cfg: "nh_newClientFunc nh cfg = Inr C" and h1: "grows calm h h1"
      by blast
    show ?thesis
      unfolding Inr sum.case holds_bind prod.case
    proof (rule holds_mono [OF holds_conj [OF holds_run netbox_client.find_uid_law [OF C]]], goal_cases)
      case (1 r h2)
      then have h2: "grows calm h h2" and run: "r = Inr x \<Longrightarrow> claim_lookup nh pool h1 x h2" for x
        using h1 cfg by (auto simp: claim_lookup_def intro: grows_trans grows_quiet_calm)
      show ?case
      proof (cases r)
        case (Inl e)
        with 1 h2 show ?thesis by (auto simp: outcome_early grows_calm_ensuring client_err_chain)
      next
        case (Inr x)
        show ?thesis
        proof (cases x)
          case None
          have "holds (\<lambda>(res, a') h'. grows ensuring h h' \<and> ensure_outcome nh pool a (sanitize_result res) a' h h')
              (allocate_new E C pool (nh_claim nh) a h2)"
            by (rule holds_mono [OF netbox_client.allocate_new_holds [OF C]])
               (use run [OF Inr] None h2 in \<open>auto intro: outcome_new grows_trans grows_calm_ensuring\<close>)
          with Inr None show ?thesis by simp
        next
          case (Some y)
          have "holds (\<lambda>ds h3. grows calm h h3) (gatewayDetails E pool C spec ids h2)" for spec ids
            by (rule holds_mono [OF netbox_client.gatewayDetails_holds [OF C]])
               (use h2 in \<open>blast intro: grows_trans\<close>)
          then have "holds (\<lambda>ds h'. grows ensuring h h' \<and>
                ensure_outcome nh pool a (sanitize_result (None, None)) (set_allocation y (gw ds) a) h h')
              (gatewayDetails E pool C spec ids h2)" for gw spec ids
            by (rule holds_mono) (use run [OF Inr] Some in \<open>blast intro: outcome_reused grows_calm_ensuring\<close>)
          then show ?thesis using Inr Some by (simp add: holds_bind)
        qed
      qed
    qed
  qed
qed

lemma EnsureAddress_holds:
  assumes "client_factory (nh_newClientFunc nh)" "nh_pool nh = Some pool" "ip_Address a = []"
  shows "holds (\<lambda>(res, a') h'. grows ensuring h h' \<and> ensure_outcome nh pool a res a' h h')
    (EnsureAddress E nh a h)"
  using assms(2,3)
  by (auto simp: EnsureAddress_def holds_bind intro!: holds_mono [OF ensure_address_body_holds [OF assms(1)]])

lemma EnsureAddress_set: "ip_Address a \<noteq> [] \<Longrightarrow> EnsureAddress E nh a h = Some (((None, None), a), h)"
  by (simp add: EnsureAddress_def)

section \<open>ReleaseAddress\<close>

text \<open>Events of \<open>ReleaseAddress\<close>: no allocation and no write to Kubernetes.\<close>

definition releasing :: "event \<Rightarrow> bool" where
  "releasing ev \<longleftrightarrow> \<not> is_alloc ev \<and> \<not> is_kube_write ev"

lemma calm_releasing: "calm ev \<Longrightarrow> releasing ev"
  by (simp add: calm_def releasing_def)

lemma grows_calm_releasing: "grows calm h h' \<Longrightarrow> grows releasing h h'"
  by (erule grows_mono) (auto simp: calm_releasing)

lemma deletes_releasing: "deletes_id i ev \<Longrightarrow> releasing ev"
  using deletes_id_is_delete [of i ev]
  by (auto simp: releasing_def is_kube_write_def is_http_def split: event.splits)

text \<open>A record was found to be the claim's: by its UID field, or by an address of its \<open>IPAddress\<close>
  object among the records that carry the ownership tag.\<close>

definition record_found :: "netboxClaimHandler \<Rightarrow> any_pool \<Rightarrow> AllocatedAddress \<Rightarrow> bool" where
  "record_found nh pool x \<longleftrightarrow>
     (\<exists>h1 h2. claim_lookup nh pool h1 (Some x) h2) \<or>
     (\<exists>cfg C candidate h1 h2. nh_newClientFunc nh cfg = Inr C \<and>
        nbFindIPAddressByAddress C (OwnershipTag (PoolSpec any_pool_ops pool)) candidate h1
        = Some (Inr (Some x), h2))"

context netbox_client
begin

lemma find_by_candidates_holds:
  "holds (\<lambda>r h'. grows calm h h' \<and> (\<forall>e. r = Inl e \<longrightarrow> client_err e) \<and>
      (\<forall>x. r = Inr (Some x) \<longrightarrow> (\<exists>c h1 h2. nbFindIPAddressByAddress C tag c h1 = Some (Inr (Some x), h2))))
    (find_by_candidates C tag cs h)"
proof (induction cs arbitrary: h)
  case (Cons c cs)
  show ?case
    unfolding find_by_candidates.simps holds_bind prod.case
  proof (rule holds_mono [OF holds_conj [OF holds_run find_address_law]], goal_cases)
    case (1 r h1)
    then have h1: "grows calm h h1" by (auto intro: grows_quiet_calm)
    have "holds (\<lambda>r h'. grows calm h h' \<and> (\<forall>e. r = Inl e \<longrightarrow> client_err e) \<and>
      (\<forall>x. r = Inr (Some x) \<longrightarrow> (\<exists>c h1 h2. nbFindIPAddressByAddress C tag c h1 = Some (Inr (Some x), h2))))
      (find_by_candidates C tag cs h1)"
      by (rule holds_mono [OF Cons.IH]) (use h1 in \<open>blast intro: grows_trans\<close>)
    with 1 h1 show ?case by (auto split: sum.splits option.splits)
  qed
qed simp

end

lemma findExistingNetBoxIP_holds:
  assumes C: "netbox_client C" and cfg: "nh_newClientFunc nh cfg = Inr C"
  shows "holds (\<lambda>r h'. grows calm h h' \<and> (\<forall>e. r = Inl e \<longrightarrow> client_err e) \<and>
      (\<forall>x. r = Inr (Some x) \<longrightarrow> record_found nh pool x) \<and>
      (r = Inr None \<longrightarrow> (\<exists>h2. claim_lookup nh pool h None h2)))
    (findExistingNetBoxIP C (PoolSpec any_pool_ops pool) (nh_claim nh) k8s h)"
  unfolding findExistingNetBoxIP_def holds_bind prod.case
proof (rule holds_mono [OF holds_conj [OF holds_run netbox_client.find_uid_law [OF C]]], goal_cases)
  case (1 r h1)
  then have h1: "grows calm h h1" and run: "\<And>x. r = Inr x \<Longrightarrow> claim_lookup nh pool h x h1"
    using cfg by (auto simp: claim_lookup_def intro: grows_quiet_calm)
  have "holds (\<lambda>r h'. grows calm h h' \<and> (\<forall>e. r = Inl e \<longrightarrow> client_err e) \<and>
      (\<forall>x. r = Inr (Some x) \<longrightarrow> record_found nh pool x))
      (find_by_candidates C (OwnershipTag (PoolSpec any_pool_ops pool)) cs h1)" for cs
    by (rule holds_mono [OF netbox_client.find_by_candidates_holds [OF C]])
       (use h1 cfg in \<open>auto simp: record_found_def intro: grows_trans\<close>)
  with 1 h1 run show ?case
    by (fastforce simp: record_found_def elim!: holds_mono split: sum.splits option.splits)
qed

definition no_address_object :: "env \<Rightarrow> IPAddressClaim \<Rightarrow> bool" where
  "no_address_object E claim \<longleftrightarrow>
     (\<exists>h1. case get_address E h1 (om_Namespace (cl_meta claim)) (om_Name (cl_meta claim)) of
        Inl x \<Rightarrow> is_NotFound (Ext x)
      | Inr a \<Rightarrow> om_Name (ip_meta a) = [])"

definition one_deletion :: "netboxClaimHandler \<Rightarrow> any_pool \<Rightarrow> event list \<Rightarrow> bool" where
  "one_deletion nh pool ds \<longleftrightarrow> (\<exists>x ev. record_found nh pool x \<and> deletes_id (aa_ID x) ev \<and> ds = [ev])"

text \<open>The outcome of \<open>ReleaseAddress\<close> with a pool, which sent the deletion requests \<open>ds\<close>.\<close>

definition release_outcome ::
  "env \<Rightarrow> netboxClaimHandler \<Rightarrow> any_pool \<Rightarrow> handler_result \<Rightarrow> event list \<Rightarrow> bool" where
  "release_outcome E nh pool res ds \<longleftrightarrow>
     (case res of
        (None, None) \<Rightarrow> one_deletion nh pool ds \<or>
          (ds = [] \<and> (\<exists>h1 h2. claim_lookup nh pool h1 None h2) \<and> no_address_object E (nh_claim nh))
      | (None, Some e) \<Rightarrow> api_free e \<and> (ds = [] \<or> one_deletion nh pool ds)
      | (Some r, Some e) \<Rightarrow> RequeueAfter r = 5 \<and> api_free e \<and> ds = []
      | (Some r, None) \<Rightarrow> False)"

lemma release_early:
  "grows calm h h' \<Longrightarrow> chain_only e \<Longrightarrow>
     release_outcome E nh pool (sanitize_result (None, Some e)) (delete_events (added h h'))"
  by (simp add: release_outcome_def sanitize_result_def SanitizedError_api_free calm_no_requests)

lemma release_record_holds:
  assumes C: "netbox_client C" and cfg: "nh_newClientFunc nh cfg = Inr C" and h1: "grows calm h h1"
    and k8s: "om_Name (ip_meta k8s) = [] \<Longrightarrow> no_address_object E (nh_claim nh)"
  shows "holds (\<lambda>res h'. grows releasing h h' \<and>
      release_outcome E nh pool (sanitize_result res) (delete_events (added h h')))
    (release_record C (PoolSpec any_pool_ops pool) (nh_claim nh) k8s h1)"
  unfolding release_record_def holds_bind prod.case
proof (rule holds_mono [OF findExistingNetBoxIP_holds [OF C cfg, where pool = pool]], goal_cases)
  case (1 r h3)
  then have h3: "grows calm h h3" using h1 by (blast intro: grows_trans)
  show ?case
  proof (cases r)
    case (Inl e)
    with 1 h3 show ?thesis by (auto simp: release_early client_err_chain grows_calm_releasing)
  next
    case (Inr found)
    show ?thesis
    proof (cases found)
      case None
      with Inr 1 h3 k8s show ?thesis
        by (auto simp: release_outcome_def sanitize_result_def unlocated_error_def SanitizedError_def
            missingAddressRequeueAfter_def calm_no_requests grows_calm_releasing)
    next
      case (Some x)
      with Inr 1 have found: "record_found nh pool x" by simp
      have "holds (\<lambda>d h4. grows releasing h h4 \<and>
          release_outcome E nh pool (sanitize_result (None, case d of Inl e \<Rightarrow> Some e | Inr _ \<Rightarrow> None))
            (delete_events (added h h4))) (nbDeleteIPAddress C (aa_ID x) h3)"
      proof (rule holds_mono [OF netbox_client.delete_law [OF C]], goal_cases)
        case (1 d h4)
        then consider (none) e where "h4 = h3" "d = Inl e" "client_err e"
          | (sent) ev where "deletes_id (aa_ID x) ev" "h4 = h3 @ [ev]" "\<forall>e. d = Inl e \<longrightarrow> client_err e"
          by (cases d) auto
        then show ?case
        proof cases
          case none
          with h3 show ?thesis by (simp add: release_early client_err_chain grows_calm_releasing)
        next
          case sent
          then have "delete_events (added h h4) = [ev]"
            using added_trans [of calm h h3 "deletes_id (aa_ID x)" h4] h3 calm_no_requests [OF h3]
              deletes_id_is_delete [of "aa_ID x" ev]
            by (simp add: delete_events_def)
          with sent found h3 show ?thesis
            by (auto simp: release_outcome_def sanitize_result_def one_deletion_def SanitizedError_api_free
                client_err_chain deletes_releasing grows_calm_releasing grows_snoc_trans split: sum.splits)
        qed
      qed
      with Inr Some show ?thesis by (simp add: holds_bind)
    qed
  qed
qed

lemma release_address_body_holds:
  assumes f: "client_factory (nh_newClientFunc nh)"
  shows "holds (\<lambda>res h'. grows releasing h h' \<and>
      release_outcome E nh pool (sanitize_result res) (delete_events (added h h')))
    (release_address_body E nh pool h)"
proof -
  let ?ns = "om_Namespace (cl_meta (nh_claim nh))" and ?name = "om_Name (cl_meta (nh_claim nh))"
  let ?h1 = "h @ [EGetAddress ?ns ?name]"
  let ?Q = "\<lambda>res h'. grows releasing h h' \<and>
      release_outcome E nh pool (sanitize_result res) (delete_events (added h h'))"
  have rest: "holds ?Q (Option.bind (connect E nh pool ?h1) (\<lambda>(c, h2). case c of
       Inl e \<Rightarrow> Some ((None, Some e), h2)
     | Inr C \<Rightarrow> release_record C (PoolSpec any_pool_ops pool) (nh_claim nh) k8s h2))"
    if k8s: "om_Name (ip_meta k8s) = [] \<Longrightarrow> no_address_object E (nh_claim nh)" for k8s
    unfolding holds_bind prod.case
  proof (rule holds_mono [OF connect_holds [OF f]], goal_cases)
    case (1 c h2)
    then have h2: "grows calm h h2" by (auto intro: grows_trans [of calm h ?h1])
    show ?case
    proof (cases c)
      case (Inl e)
      with 1 h2 show ?thesis by (simp add: release_early grows_calm_releasing)
    next
      case (Inr C)
      with 1 obtain cfg where "netbox_client C" "nh_newClientFunc nh cfg = Inr C" by blast
      from release_record_holds [OF this h2 k8s] Inr show ?thesis by simp
    qed
  qed
  show ?thesis
  proof (cases "get_address E h ?ns ?name")
    case (Inl x)
    then have "is_NotFound (Ext x) \<Longrightarrow> no_address_object E (nh_claim nh)"
      by (auto simp: no_address_object_def intro!: exI [of _ h])
    then show ?thesis
      using rest [of empty_address] Inl release_early [of h ?h1 "Ext x" E nh pool] calm_releasing
      by (simp add: release_address_body_def Let_def call_def)
  next
    case (Inr a)
    then have "om_Name (ip_meta a) = [] \<Longrightarrow> no_address_object E (nh_claim nh)"
      by (auto simp: no_address_object_def intro!: exI [of _ h])
    with rest [of a] Inr show ?thesis by (simp add: release_address_body_def Let_def call_def)
  qed
qed

lemma ReleaseAddress_holds:
  assumes "client_factory (nh_newClientFunc nh)" "nh_pool nh = Some pool"
  shows "holds (\<lambda>res h'. grows releasing h h' \<and> release_outcome E nh pool res (delete_events (added h h')))
    (ReleaseAddress E nh h)"
  using assms(2)
  by (auto simp: ReleaseAddress_def holds_bind intro!: holds_mono [OF release_address_body_holds [OF assms(1)]])

lemma ReleaseAddress_no_pool: "nh_pool nh = None \<Longrightarrow> ReleaseAddress E nh h = Some ((None, None), h)"
  by (simp add: ReleaseAddress_def)

end
