(* ===== verification/Claim_Reconciler_Facts.thy ===== *)
theory Claim_Reconciler_Facts
  imports Claim_Reconciler Claim_Handler_Facts
begin

text \<open>
  What the claim reconcile loop promises for any provider that keeps the contract of
  \<open>ClaimHandler\<close>. The contract is the locale \<open>claim_handler\<close>; it is interpreted at the end on the
  NetBox handler.
\<close>

section \<open>Kinds of events\<close>

text \<open>While an address is ensured: no deletion, and of the writes only that of the IPAddress.\<close>

definition writing :: "event \<Rightarrow> bool" where
  "writing ev \<longleftrightarrow> \<not> is_delete ev \<and> (is_kube_write ev \<longrightarrow> (\<exists>old new. ev = EWriteAddress old new))"

text \<open>After a release: no request to NetBox, and of the writes only those that remove the
  IPAddress.\<close>

definition cleanup :: "event \<Rightarrow> bool" where
  "cleanup ev \<longleftrightarrow> \<not> is_http ev \<and>
     (is_kube_write ev \<longrightarrow> (\<exists>a b. ev = EPatchAddress a b) \<or> (\<exists>ns n. ev = EDeleteAddress ns n))"

lemma grows_any: "grows P h h' \<Longrightarrow> grows (\<lambda>_. True) h h'"
  by (erule grows_mono) simp

lemma kube_write_simps [simp]:
  "is_kube_write (EWriteAddress old new)" "is_kube_write (EPatchAddress a b)"
  "is_kube_write (EDeleteAddress ns n)" "is_kube_write (EPatchClaim c d)"
  "\<not> is_kube_write (EGetAddress ns n)" "\<not> is_kube_write (EFetchAddress ns n)"
  "\<not> is_kube_write (ERecord n t r ac m)" "\<not> is_kube_write EPollTick"
  by (simp_all add: is_kube_write_def)

lemma not_http_simps [simp]:
  "\<not> is_http (EWriteAddress old new)" "\<not> is_http (EPatchAddress a b)"
  "\<not> is_http (EDeleteAddress ns n)" "\<not> is_http (EPatchClaim c d)"
  "\<not> is_http (EGetAddress ns n)" "\<not> is_http (EFetchAddress ns n)"
  "\<not> is_http (ERecord n t r ac m)" "\<not> is_http EPollTick"
  by (simp_all add: is_http_def)

lemma delete_http: "is_delete ev \<Longrightarrow> is_http ev"
  by (auto simp: is_delete_def is_http_def split: event.splits)

lemma alloc_http: "is_alloc ev \<Longrightarrow> is_http ev"
  by (auto simp: is_alloc_def is_http_def split: event.splits)

lemma ensuring_writing: "ensuring ev \<Longrightarrow> writing ev"
  by (simp add: ensuring_def writing_def)

lemma calm_writing: "calm ev \<Longrightarrow> writing ev"
  by (simp add: calm_ensuring ensuring_writing)

lemma writing_simps [simp]: "writing (EWriteAddress old new)" "writing (EGetAddress ns n)"
  "writing (EFetchAddress ns n)" "writing EPollTick"
  by (auto simp: writing_def dest: delete_http)

lemma record_writing: "is_record ev \<Longrightarrow> writing ev"
  by (simp add: calm_writing record_calm)

lemma record_cleanup: "is_record ev \<Longrightarrow> cleanup ev"
  by (auto simp: is_record_def cleanup_def split: event.splits)

lemma cleanup_simps [simp]:
  "cleanup (EGetAddress ns n)" "cleanup (EPatchAddress a b)" "cleanup (EDeleteAddress ns n)"
  by (simp_all add: cleanup_def)

lemma grows_ensuring_writing: "grows ensuring h h' \<Longrightarrow> grows writing h h'"
  by (erule grows_mono) (simp add: ensuring_writing)

section \<open>The contract of ClaimHandler\<close>

text \<open>
  Of a handler that is valid for a claim the loop relies on this. \<open>FetchPool\<close> only reads, and yields a pool or an error,
  never a result of its own. \<open>EnsureAddress\<close> writes nothing but the three address fields, asks
  for a requeue only together with an error, and deletes nothing. \<open>ReleaseAddress\<close> allocates
  nothing. No error carries a response body.
\<close>

locale claim_handler =
  fixes ops :: "'s claim_handler_ops" and valid :: "IPAddressClaim \<Rightarrow> 's \<Rightarrow> bool"
    and ready :: "'s \<Rightarrow> bool"
  assumes fetch_law: "valid c s \<Longrightarrow> holds (\<lambda>((pool, res, err), s') h'. grows calm h h' \<and> res = None \<and>
      (\<forall>e. err = Some e \<longrightarrow> api_free e) \<and> valid c s' \<and> (err = None \<longrightarrow> pool \<noteq> None \<and> ready s'))
    (chFetchPool ops s h)"
    and ensure_law: "ready s \<Longrightarrow> holds (\<lambda>((res, err), a') h'. grows ensuring h h' \<and>
      (\<forall>e. err = Some e \<longrightarrow> api_free e) \<and> (res \<noteq> None \<longrightarrow> err \<noteq> None) \<and>
      (\<exists>x p g. a' = a\<lparr>ip_Address := x, ip_Prefix := p, ip_Gateway := g\<rparr>) \<and>
      (ip_Address a \<noteq> [] \<longrightarrow> h' = h \<and> a' = a \<and> err = None))
    (chEnsureAddress ops s a h)"
    and release_law: "valid c s \<Longrightarrow> holds (\<lambda>(res, err) h'. grows releasing h h' \<and>
      (\<forall>e. err = Some e \<longrightarrow> api_free e) \<and> (res \<noteq> None \<longrightarrow> err \<noteq> None) \<and>
      length (delete_events (added h h')) \<le> 1)
    (chReleaseAddress ops s h)"

section \<open>Deletion\<close>

text \<open>The outcome of \<open>reconcileDelete\<close>: nothing is cleaned up unless the release returned no
  error, and the claim loses its finalizer only when the cleanup succeeded.\<close>

definition deletion_outcome ::
  "env \<Rightarrow> 's claim_handler_ops \<Rightarrow> 's \<Rightarrow> IPAddressClaim \<Rightarrow> err option \<Rightarrow> IPAddressClaim \<Rightarrow> hist \<Rightarrow> hist \<Rightarrow> bool" where
  "deletion_outcome E ops s claim err claim' h h' \<longleftrightarrow>
     (\<exists>res rerr h1. chReleaseAddress ops s h = Some ((res, rerr), h1) \<and>
        (case rerr of
           Some e \<Rightarrow> h' = h1 \<and> claim' = claim \<and> err = Some (Wrapf ''release address: %w'' [] e)
         | None \<Rightarrow> grows cleanup h1 h' \<and> (\<forall>e. err = Some e \<longrightarrow> api_free e) \<and>
             claim' = (if err = None then set_claim_finalizers
               (fst (RemoveFinalizer E (om_Finalizers (cl_meta claim)) ReleaseAddressFinalizer)) claim
               else claim)))"

lemma bind_ignoreNotFound: "Option.bind (map_option Ext x) ignoreNotFound = Some e \<Longrightarrow> api_free e"
  by (cases x) (auto simp: ignoreNotFound_def split: if_splits)

lemma delete_ip_address_holds:
  "holds (\<lambda>err h'. grows cleanup h h' \<and> (\<forall>e. err = Some e \<longrightarrow> api_free e))
    (delete_ip_address E b claim a h)"
proof -
  have rec: "holds (\<lambda>u h'. grows cleanup h h') (RecordNormal b n r ac m h1)" if "grows cleanup h h1" for n r ac m h1
    by (rule holds_mono [OF RecordNormal_holds]) (use that in \<open>auto intro: grows_trans grows_mono record_cleanup\<close>)
  show ?thesis
    by (auto simp: delete_ip_address_def Let_def holds_simps grows_snoc_trans split: prod.splits option.splits
        dest: bind_ignoreNotFound intro!: holds_mono [OF rec])
qed

lemma reconcileDelete_holds:
  "holds (\<lambda>((res, err), claim') h'. deletion_outcome E ops s claim err claim' h h')
    (reconcileDelete E b ops s claim h)"
  unfolding reconcileDelete_def holds_bind
proof (rule holds_mono [OF holds_run], goal_cases)
  case (1 r h1)
  obtain res rerr where r: "r = (res, rerr)" by (cases r)
  show ?case
  proof (cases rerr)
    case (Some e)
    with 1 r show ?thesis by (simp add: deletion_outcome_def)
  next
    case None
    let ?ns = "om_Namespace (cl_meta claim)" and ?name = "om_Name (cl_meta claim)"
    have out: "deletion_outcome E ops s claim err claim' h h'"
      if "grows cleanup h1 h'" "\<forall>e. err = Some e \<longrightarrow> api_free e"
        "claim' = (if err = None then set_claim_finalizers
           (fst (RemoveFinalizer E (om_Finalizers (cl_meta claim)) ReleaseAddressFinalizer)) claim else claim)"
      for err claim' h'
      using 1 r None that by (auto simp: deletion_outcome_def)
    have del: "holds (\<lambda>err h'. grows cleanup h1 h' \<and> (\<forall>e. err = Some e \<longrightarrow> api_free e))
        (delete_ip_address E b claim a (h1 @ [EGetAddress ?ns ?name]))" for a
      by (rule holds_mono [OF delete_ip_address_holds])
         (auto intro: grows_trans [of cleanup h1 "h1 @ [EGetAddress ?ns ?name]"])
    show ?thesis
      by (auto simp: r None holds_simps Let_def empty_address_def empty_meta_def
          intro!: out holds_mono [OF del] split: sum.splits option.splits)
  qed
qed

section \<open>Ensuring the address\<close>

lemma mutated_fields:
  "om_Finalizers (ip_meta (protect_address E (copy_cluster_label claim a))) =
     fst (AddFinalizer E (om_Finalizers (ip_meta a)) ProtectAddressFinalizer)"
  "om_Name (ip_meta (protect_address E (copy_cluster_label claim a))) = om_Name (ip_meta a)"
  "om_Namespace (ip_meta (protect_address E (copy_cluster_label claim a))) = om_Namespace (ip_meta a)"
  "ip_ClaimRef (protect_address E (copy_cluster_label claim a)) = ip_ClaimRef a"
  "ip_PoolRef (protect_address E (copy_cluster_label claim a)) = ip_PoolRef a"
  "ip_Address (protect_address E (copy_cluster_label claim a)) = ip_Address a"
  by (simp_all add: protect_address_def set_address_finalizers_def copy_cluster_label_def
      split: option.splits)

text \<open>The IPAddress object of a claim was read, and holds no address: it is absent or empty.\<close>

definition unset_address :: "env \<Rightarrow> IPAddressClaim \<Rightarrow> bool" where
  "unset_address E claim \<longleftrightarrow>
     (\<exists>h1 old. fetch_address E h1 (om_Namespace (cl_meta claim)) (om_Name (cl_meta claim)) = Inr old \<and>
        (\<forall>a. old = Some a \<longrightarrow> ip_Address a = []))"

text \<open>The API server accepted the write of an IPAddress that carries the protection finalizer, and
  answered with \<open>a\<close>.\<close>

definition address_written :: "env \<Rightarrow> IPAddress \<Rightarrow> bool" where
  "address_written E a \<longleftrightarrow>
     (\<exists>h1 old new opr fs. write_address E h1 old new = Inr (a, opr) \<and>
        om_Finalizers (ip_meta new) = fst (AddFinalizer E fs ProtectAddressFinalizer))"

text \<open>The cache showed the object of an address.\<close>

definition address_visible :: "env \<Rightarrow> IPAddress \<Rightarrow> bool" where
  "address_visible E a \<longleftrightarrow>
     (\<exists>h1 b. get_address E h1 (om_Namespace (ip_meta a)) (om_Name (ip_meta a)) = Inr b)"

lemma poll_visible_holds:
  "holds (\<lambda>err h'. grows calm h h' \<and> (\<forall>e. err = Some e \<longrightarrow> api_free e) \<and>
      (err = None \<longrightarrow> (\<exists>h1 b. get_address E h1 ns name = Inr b)))
    (poll_visible E ns name n h)"
proof (induction n arbitrary: h)
  case (Suc n)
  have rest: "holds (\<lambda>err h'. grows calm h h' \<and> (\<forall>e. err = Some e \<longrightarrow> api_free e) \<and>
      (err = None \<longrightarrow> (\<exists>h1 b. get_address E h1 ns name = Inr b)))
      (poll_visible E ns name n (h @ [EGetAddress ns name, EPollTick]))"
    by (rule holds_mono [OF Suc.IH]) (auto intro: grows_trans [of calm h "h @ [EGetAddress ns name, EPollTick]"])
  show ?case
  proof (cases "get_address E h ns name")
    case (Inl x)
    with rest show ?thesis
      by (simp add: call_def emit_def ignoreNotFound_def)
  next
    case (Inr b)
    then show ?thesis by (auto simp: call_def)
  qed
qed simp

context claim_handler
begin

text \<open>What \<open>mutate_address\<close> gives back: only the fields the handler may write, owner references,
  the cluster label and the finalizer differ from the object it got.\<close>

lemma mutate_address_holds:
  assumes "ready s"
  shows "holds (\<lambda>((res, err), a') h'. grows ensuring h h' \<and> (\<forall>e. err = Some e \<longrightarrow> api_free e) \<and>
      (res \<noteq> None \<longrightarrow> err \<noteq> None) \<and>
      (ip_Address a \<noteq> [] \<longrightarrow> h' = h) \<and>
      (err = None \<longrightarrow> om_Finalizers (ip_meta a') =
         fst (AddFinalizer E (om_Finalizers (ip_meta a)) ProtectAddressFinalizer) \<and>
         om_Name (ip_meta a') = om_Name (ip_meta a) \<and> om_Namespace (ip_meta a') = om_Namespace (ip_meta a) \<and>
         ip_ClaimRef a' = ip_ClaimRef a \<and> ip_PoolRef a' = ip_PoolRef a))
    (mutate_address E ops s claim pool a h)"
  unfolding mutate_address_def holds_bind
proof (rule holds_mono [OF ensure_law [OF assms]], goal_cases)
  case (1 r h1)
  obtain res err a1 where r: "r = ((res, err), a1)" by (cases r) auto
  have refs: "holds Q (Option.bind (ensureIPAddressOwnerReferences E a1 claim pool) F)"
    if "\<And>e. api_free e \<Longrightarrow> holds Q (F (Inl e))"
      "\<And>refs. holds Q (F (Inr (a1\<lparr>ip_meta := (ip_meta a1)\<lparr>om_OwnerReferences := refs\<rparr>\<rparr>)))" for F Q
  proof (cases "ensureIPAddressOwnerReferences E a1 claim pool")
    case (Some v)
    then show ?thesis
      using that ensureIPAddressOwnerReferences_err [of E a1 claim pool]
        ensureIPAddressOwnerReferences_fields [of E a1 claim pool]
      by (cases v) auto
  qed simp
  show ?case
  proof (cases err)
    case (Some e)
    with 1 r show ?thesis by auto
  next
    case None
    show ?thesis
      unfolding r prod.case None option.case
      by (rule refs) (use 1 r None in \<open>auto simp: mutated_fields\<close>)
  qed
qed

lemma create_or_patch_holds:
  fixes E claim pool
  defines "initial \<equiv> NewIPAddress claim pool"
  assumes s: "ready s"
  shows "holds (\<lambda>((res, err), a, opr) h'. grows writing h h' \<and> (\<forall>e. err = Some e \<longrightarrow> api_free e) \<and>
      (res \<noteq> None \<longrightarrow> err \<noteq> None) \<and>
      (alloc_events (added h h') \<noteq> [] \<longrightarrow> unset_address E claim) \<and>
      (err = None \<longrightarrow> address_written E a))
    (create_or_patch E initial (mutate_address E ops s claim pool) h)"
proof -
  let ?ns = "om_Namespace (cl_meta claim)" and ?name = "om_Name (cl_meta claim)"
  let ?h1 = "h @ [EFetchAddress ?ns ?name]"
  have key: "om_Namespace (ip_meta initial) = ?ns" "om_Name (ip_meta initial) = ?name" "ip_Address initial = []"
    by (simp_all add: initial_def NewIPAddress_def)
  show ?thesis
  proof (cases "fetch_address E h ?ns ?name")
    case (Inl x)
    then show ?thesis
      by (simp add: create_or_patch_def key Let_def call_def alloc_events_def is_alloc_def)
  next
    case (Inr old)
    define a0 where "a0 = (case old of None \<Rightarrow> initial | Some a \<Rightarrow> a)"
    have unset: "ip_Address a0 = [] \<Longrightarrow> unset_address E claim"
      using Inr by (auto simp: a0_def unset_address_def intro!: exI [of _ h] split: option.splits)
    have h1: "grows ensuring h ?h1" by (simp add: calm_ensuring)
    have lift: "grows ensuring ?h1 h2 \<Longrightarrow> grows ensuring h h2" for h2
      by (rule grows_trans [OF h1])
    have step: "holds (\<lambda>((res, err), a) h2. grows ensuring h h2 \<and> (\<forall>e. err = Some e \<longrightarrow> api_free e) \<and>
        (res \<noteq> None \<longrightarrow> err \<noteq> None) \<and> (alloc_events (added h h2) \<noteq> [] \<longrightarrow> unset_address E claim) \<and>
        (err = None \<longrightarrow> (\<exists>fs. om_Finalizers (ip_meta a) = fst (AddFinalizer E fs ProtectAddressFinalizer))))
      (mutate_address E ops s claim pool a0 ?h1)"
      by (rule holds_mono [OF mutate_address_holds [OF s]])
         (use unset lift h1 in \<open>auto simp: alloc_events_def is_alloc_def\<close>)
    have wr: "alloc_events (added h (h2 @ [EWriteAddress old a])) = alloc_events (added h h2)"
      if "grows ensuring h h2" for h2 a
      using that by (auto simp: grows_def alloc_events_def is_alloc_def)
    show ?thesis
      apply (simp add: create_or_patch_def key Let_def call_def Inr holds_bind a0_def [symmetric])
    proof (rule holds_mono [OF step], goal_cases)
      case (1 r h2)
      obtain res err a where r: "r = ((res, err), a)" by (cases r) auto
      show ?case
      proof (cases err)
        case (Some e)
        with 1 r show ?thesis by (auto simp: grows_ensuring_writing)
      next
        case None
        with 1 r have "grows ensuring h h2" and
          "\<exists>fs. om_Finalizers (ip_meta a) = fst (AddFinalizer E fs ProtectAddressFinalizer)" by auto
        with 1 r None wr [of h2] show ?thesis
          by (cases "write_address E h2 old a")
             (auto simp: address_written_def call_def intro: grows_snoc_trans grows_ensuring_writing)
      qed
    qed
  qed
qed

lemma ensureAddress_holds:
  assumes s: "ready s"
  shows "holds (\<lambda>(en, claim') h'. grows writing h h' \<and>
      (alloc_events (added h h') \<noteq> [] \<longrightarrow> unset_address E claim) \<and>
      (case en_err en of
         Some e \<Rightarrow> api_free e \<and>
           (\<exists>reason e'. api_free e' \<and> claim' = setClaimReady E ConditionFalse reason (MsgErr e') claim)
       | None \<Rightarrow> claim' = claim \<and> address_written E (en_address en) \<and> address_visible E (en_address en)))
    (ensureAddress E ops s pool claim h)"
  unfolding ensureAddress_def holds_bind
proof (rule holds_mono [OF create_or_patch_holds [OF s]], goal_cases)
  case (1 r h1)
  obtain res err a opr where r: "r = ((res, err), a, opr)" by (cases r) auto
  show ?case
  proof (cases err)
    case (Some e)
    with 1 r show ?thesis by (auto split: prod.splits option.splits)
  next
    case None
    with 1 r have res: "res = None" and h1: "grows writing h h1" and w: "address_written E a"
      and al: "alloc_events (added h h1) \<noteq> [] \<longrightarrow> unset_address E claim"
      by auto
    have poll: "holds (\<lambda>err h'. grows writing h h' \<and> (alloc_events (added h h') \<noteq> [] \<longrightarrow> unset_address E claim) \<and>
        (\<forall>e. err = Some e \<longrightarrow> api_free e) \<and> (err = None \<longrightarrow> address_visible E a))
      (poll_visible E (om_Namespace (ip_meta a)) (om_Name (ip_meta a)) n h1)" for n
    proof (rule holds_mono [OF poll_visible_holds], goal_cases)
      case (1 err h2)
      then have "grows writing h1 h2" by (blast intro: grows_mono calm_writing)
      with 1 h1 al calm_added_right [OF h1, of h2] show ?case
        by (auto simp: address_visible_def intro: grows_trans)
    qed
    from w show ?thesis
      by (auto simp: r None res holds_bind intro!: holds_mono [OF poll] split: option.splits)
  qed
qed

end

section \<open>reconcileClaimAddress\<close>

definition ready_false :: "env \<Rightarrow> IPAddressClaim \<Rightarrow> IPAddressClaim \<Rightarrow> bool" where
  "ready_false E claim claim' \<longleftrightarrow>
     (\<exists>reason msg. claim' = setClaimReady E ConditionFalse reason msg claim \<and>
        (\<forall>e. msg = MsgErr e \<longrightarrow> api_free e))"

text \<open>Ready=True is set for an address that was written and then seen in the cache.\<close>

definition ready_true :: "env \<Rightarrow> IPAddressClaim \<Rightarrow> IPAddressClaim \<Rightarrow> bool" where
  "ready_true E claim claim' \<longleftrightarrow>
     (\<exists>a. address_written E a \<and> address_visible E a \<and>
        claim' = setClaimReady E ConditionTrue reasonAddressAllocated
          (MsgText (''IP address '' @ ip_Address a @ '' allocated''))
          (claim\<lparr>cl_AddressRef := om_Name (ip_meta a)\<rparr>))"

text \<open>A handler after \<open>FetchPool\<close>: it found the pool, or the pool does not exist.\<close>

definition handler_fetched :: "'s claim_handler_ops \<Rightarrow> ('s \<Rightarrow> bool) \<Rightarrow> 's \<Rightarrow> bool" where
  "handler_fetched ops valid s \<longleftrightarrow>
     (\<exists>s0 h1 h2 pool res err. valid s0 \<and> chFetchPool ops s0 h1 = Some (((pool, res, err), s), h2) \<and>
        (\<forall>e. err = Some e \<longrightarrow> is_NotFound e))"

text \<open>What a reconcile of a claim does, by whether the claim is being deleted.\<close>

definition claim_reconciled ::
  "env \<Rightarrow> 's claim_handler_ops \<Rightarrow> ('s \<Rightarrow> bool) \<Rightarrow> IPAddressClaim \<Rightarrow> err option \<Rightarrow> IPAddressClaim \<Rightarrow>
     hist \<Rightarrow> hist \<Rightarrow> bool" where
  "claim_reconciled E ops valid claim err claim' h h' \<longleftrightarrow>
     (\<forall>e. err = Some e \<longrightarrow> api_free e) \<and>
     (grows calm h h' \<and> ready_false E claim claim' \<or>
      om_Deleting (cl_meta claim) \<and>
        (\<exists>s h0. valid s \<and> handler_fetched ops valid s \<and> grows calm h h0 \<and> deletion_outcome E ops s claim err claim' h0 h') \<or>
      \<not> om_Deleting (cl_meta claim) \<and> grows writing h h' \<and>
        (alloc_events (added h h') \<noteq> [] \<longrightarrow> unset_address E claim) \<and>
        (ready_false E claim claim' \<or> ready_true E claim claim' \<and> err = None))"

context claim_handler
begin

lemma deletion_outcome_api_free:
  assumes "valid c s" "deletion_outcome E ops s claim err claim' h h'" "err = Some e"
  shows "api_free e"
proof -
  obtain res rerr h1 where run: "chReleaseAddress ops s h = Some ((res, rerr), h1)"
    and rest: "case rerr of Some e \<Rightarrow> err = Some (Wrapf ''release address: %w'' [] e)
      | None \<Rightarrow> (\<forall>e. err = Some e \<longrightarrow> api_free e)"
    using assms(2) by (auto simp: deletion_outcome_def split: option.splits)
  have "\<forall>e. rerr = Some e \<longrightarrow> api_free e"
    using holdsD [OF release_law [OF assms(1)] run] by simp
  with rest assms(3) show ?thesis by (auto split: option.splits)
qed

lemma reconcileDelete_reconciled:
  assumes "valid claim s" "grows calm h0 h" "om_Deleting (cl_meta claim)"
    and "handler_fetched ops (valid claim) s"
  shows "holds (\<lambda>((res, err), claim') h'. claim_reconciled E ops (valid claim) claim err claim' h0 h')
    (reconcileDelete E b ops s claim h)"
  by (rule holds_mono [OF reconcileDelete_holds])
     (use assms deletion_outcome_api_free [OF assms(1)] in \<open>fastforce simp: claim_reconciled_def\<close>)

lemma finish_claim_holds:
  assumes "grows writing h0 h" "alloc_events (added h0 h) \<noteq> [] \<longrightarrow> unset_address E claim"
    and "address_written E a" "address_visible E a" "\<not> om_Deleting (cl_meta claim)"
  shows "holds (\<lambda>((res, err), claim') h'. claim_reconciled E ops (valid claim) claim err claim' h0 h')
    (finish_claim E b hadRef a claim h)"
proof -
  define msg where "msg = ''IP address '' @ ip_Address a @ '' allocated''"
  have out: "claim_reconciled E ops (valid claim) claim None
      (setClaimReady E ConditionTrue reasonAddressAllocated (MsgText msg)
          (claim\<lparr>cl_AddressRef := om_Name (ip_meta a)\<rparr>)) h0 h'" if rec: "grows is_record h h'" for h'
  proof -
    have "grows calm h h'" "grows writing h h'"
      using rec by (blast intro: grows_mono record_writing record_calm)+
    with assms calm_added_right [OF assms(1), of h'] grows_trans [OF assms(1)] show ?thesis
      unfolding claim_reconciled_def ready_true_def msg_def by auto
  qed
  show ?thesis
    unfolding finish_claim_def Let_def msg_def [symmetric]
    by (auto simp: holds_bind intro!: out holds_mono [OF RecordNormal_holds])
qed

lemma reconcileClaimAddress_holds:
  assumes "valid claim (adClaimHandlerFor ad claim)" "adOps ad = ops"
  shows "holds (\<lambda>((res, err), claim') h'. claim_reconciled E ops (valid claim) claim err claim' h h')
    (reconcileClaimAddress E b ad claim h)"
  unfolding reconcileClaimAddress_def Let_def assms(2) holds_bind
proof (rule holds_mono [OF holds_conj [OF holds_run fetch_law [OF assms(1)]]], goal_cases)
  case (1 r h1)
  obtain pool res err s where r: "r = ((pool, res, err), s)" by (cases r) auto
  from 1 r have fetch: "chFetchPool ops (adClaimHandlerFor ad claim) h = Some (((pool, res, err), s), h1)" by simp
  from 1 r have h1: "grows calm h h1" and res: "res = None" and s: "valid claim s"
    and err: "\<forall>e. err = Some e \<longrightarrow> api_free e" by auto
  have fail: "claim_reconciled E ops (valid claim) claim e (setClaimReady E ConditionFalse reason msg claim) h h1"
    if "\<forall>e. msg = MsgErr e \<longrightarrow> api_free e" "\<forall>x. e = Some x \<longrightarrow> api_free x" for reason msg e
    using h1 that by (auto simp: claim_reconciled_def ready_false_def)
  have del: "holds (\<lambda>((res, err), claim') h'. claim_reconciled E ops (valid claim) claim err claim' h h')
      (reconcileDelete E b ops s claim h1)" if "om_Deleting (cl_meta claim)" "\<forall>e. err = Some e \<longrightarrow> is_NotFound e"
    by (rule reconcileDelete_reconciled [OF s h1 that(1)])
       (unfold handler_fetched_def, use fetch that(2) assms(1) in blast)
  show ?case
  proof (cases err)
    case (Some e)
    with err fail del res r show ?thesis by simp
  next
    case None
    with 1 r obtain p where p: "pool = Some p" and ready: "ready s" by auto
    have ens: "holds (\<lambda>(en, claim') h'. grows writing h h' \<and>
      (alloc_events (added h h') \<noteq> [] \<longrightarrow> unset_address E claim) \<and>
      (case en_err en of
         Some e \<Rightarrow> api_free e \<and>
           (\<exists>reason e'. api_free e' \<and> claim' = setClaimReady E ConditionFalse reason (MsgErr e') claim)
       | None \<Rightarrow> claim' = claim \<and> address_written E (en_address en) \<and> address_visible E (en_address en)))
      (ensureAddress E ops s p claim h1)"
    proof (rule holds_mono [OF ensureAddress_holds [OF ready]], goal_cases)
      case (1 q h2)
      moreover have "grows writing h h1" using h1 by (rule grows_mono) (rule calm_writing)
      ultimately show ?case
        using calm_added [OF h1, of writing h2] by (auto intro: grows_trans)
    qed
    have "holds (\<lambda>((res, err), claim') h'. claim_reconciled E ops (valid claim) claim err claim' h h')
       (Option.bind (ensureAddress E ops s p claim h1) (\<lambda>((en, claim1), h2). case en_err en of
           Some e \<Rightarrow> Some (((en_result en, Some e), claim1), h2)
         | None \<Rightarrow> finish_claim E b (cl_AddressRef claim \<noteq> []) (en_address en) claim1 h2))"
      if "\<not> om_Deleting (cl_meta claim)"
      unfolding holds_bind
    proof (rule holds_mono [OF ens], goal_cases)
      case (1 q h2)
      obtain en claim1 where q: "q = (en, claim1)" by (cases q)
      from 1 q that show ?case
        by (cases "en_err en") (auto simp: claim_reconciled_def ready_false_def intro!: finish_claim_holds)
    qed
    with None p res r fail del show ?thesis by simp
  qed
qed

end

section \<open>Reconcile\<close>

text \<open>The cluster a claim is linked to lets it be reconciled: there is none, or it is not paused;
  a cluster that is gone only when the claim is being deleted.\<close>

definition cluster_allows :: "env \<Rightarrow> IPAddressClaim \<Rightarrow> bool" where
  "cluster_allows E claim \<longleftrightarrow>
     (\<exists>h0 cl err h1. getLinkedCluster E claim h0 = Some ((cl, err), h1) \<and>
        (case err of
           None \<Rightarrow> (\<forall>c. cl = Some c \<longrightarrow> \<not> IsPaused E c)
         | Some e \<Rightarrow> is_NotFound e \<and> om_Deleting (cl_meta claim)))"

text \<open>What one \<open>Reconcile\<close> does to the outside: it only reads; or it puts the finalizer on the
  claim and does nothing else; or the claim already has the finalizer and is reconciled.\<close>

definition reconcile_run ::
  "env \<Rightarrow> 's claim_handler_ops \<Rightarrow> (IPAddressClaim \<Rightarrow> 's \<Rightarrow> bool) \<Rightarrow> string \<Rightarrow> string \<Rightarrow> hist \<Rightarrow> hist \<Rightarrow> bool" where
  "reconcile_run E ops valid ns name h h' \<longleftrightarrow>
     grows calm h h' \<or>
     (\<exists>claim h1. get_claim E h ns name = Inr claim \<and> grows calm h h1 \<and> cluster_allows E claim \<and>
        (let adding = AddFinalizer E (om_Finalizers (cl_meta claim)) ReleaseAddressFinalizer;
             claim1 = set_claim_finalizers (fst adding) claim in
         if snd adding then h' = h1 @ [EPatchClaim claim claim1]
         else (\<exists>err claim' h2. claim_reconciled E ops (valid claim1) claim1 err claim' h1 h2 \<and>
                 h' = h2 @ [EPatchClaim claim claim'])))"

lemma getLinkedCluster_total:
  obtains cl err h1 where "getLinkedCluster E claim h = Some ((cl, err), h1)" "grows calm h h1"
    "\<And>e. err = Some e \<Longrightarrow> api_free e"
  by (cases "cl_ClusterName claim = []"; cases "map_of (om_Labels (cl_meta claim)) ClusterLabel";
      cases "cluster_by_name E h (om_Namespace (cl_meta claim)) (cl_ClusterName claim)";
      cases "cluster_from_meta E h (cl_meta claim)")
     (auto simp: getLinkedCluster_def call_def Let_def)

context claim_handler
begin

lemma reconcile_patched_holds:
  assumes "\<And>c. valid c (adClaimHandlerFor ad c)" "adOps ad = ops"
    and "get_claim E h ns name = Inr claim" "grows calm h h1" "cluster_allows E claim"
  shows "holds (\<lambda>_ h'. reconcile_run E ops valid ns name h h') (reconcile_patched E b ad claim h1)"
proof -
  let ?h2 = "h1 @ [ENewPatchHelper (om_Name (cl_meta claim))]"
  let ?added = "AddFinalizer E (om_Finalizers (cl_meta claim)) ReleaseAddressFinalizer"
  let ?claim1 = "set_claim_finalizers (fst ?added) claim"
  have h2: "grows calm h ?h2" using assms(4) by (rule grows_snoc_trans) simp
  show ?thesis
  proof (cases "new_patch_helper E h1 (om_Name (cl_meta claim))")
    case (Some x)
    with h2 show ?thesis by (simp add: reconcile_patched_def call_ok_def reconcile_run_def)
  next
    case None
    show ?thesis
    proof (cases "snd ?added")
      case True
      with None h2 assms show ?thesis
        by (auto simp: reconcile_patched_def call_ok_def reconcile_run_def Let_def split: prod.splits)
    next
      case False
      have "holds (\<lambda>((res, err), claim') h3. claim_reconciled E ops (valid ?claim1) ?claim1 err claim' ?h2 h3)
          (reconcileClaimAddress E b ad ?claim1 ?h2)"
        by (rule reconcileClaimAddress_holds [OF assms(1,2)])
      then have "holds (\<lambda>((res, err), claim') h3. reconcile_run E ops valid ns name h (h3 @ [EPatchClaim claim claim']))
          (reconcileClaimAddress E b ad ?claim1 ?h2)"
        by (rule holds_mono) (use False h2 assms in \<open>fastforce simp: reconcile_run_def Let_def\<close>)
      with None False show ?thesis
        by (cases ?added) (auto simp: reconcile_patched_def call_ok_def holds_bind Let_def elim!: holds_mono)
    qed
  qed
qed

lemma Reconcile_holds:
  assumes ad: "\<And>c. valid c (adClaimHandlerFor ad c)" "adOps ad = ops"
  shows "holds (\<lambda>_ h'. reconcile_run E ops valid ns name h h') (Reconcile E b ad ns name h)"
proof (cases "get_claim E h ns name")
  case (Inl x)
  then show ?thesis by (simp add: Reconcile_def call_def reconcile_run_def)
next
  case (Inr claim)
  let ?h1 = "h @ [EGetClaim ns name]"
  obtain cl err h2 where link: "getLinkedCluster E claim ?h1 = Some ((cl, err), h2)" and "grows calm ?h1 h2"
    by (rule getLinkedCluster_total)
  then have h2: "grows calm h h2" by (auto intro: grows_trans [of calm h ?h1])
  then have skip: "reconcile_run E ops valid ns name h h2" by (simp add: reconcile_run_def)
  have go: "holds (\<lambda>_ h'. reconcile_run E ops valid ns name h h') (reconcile_patched E b ad claim h2)"
    if "case err of None \<Rightarrow> \<forall>c. cl = Some c \<longrightarrow> \<not> IsPaused E c
        | Some e \<Rightarrow> is_NotFound e \<and> om_Deleting (cl_meta claim)"
    using that link by (intro reconcile_patched_holds [OF ad Inr h2]) (auto simp: cluster_allows_def)
  show ?thesis
    using skip go Inr link
    by (auto simp: Reconcile_def call_def split: option.splits)
qed

end

section \<open>The result of a run\<close>

text \<open>What controller-runtime gets: no response body in the error, and a delay only together with an
  error.\<close>

definition result_ok :: "reconcile_result \<times> err option \<Rightarrow> bool" where
  "result_ok r \<longleftrightarrow> (\<forall>e. snd r = Some e \<longrightarrow> api_free e) \<and> (fst r \<noteq> no_requeue \<longrightarrow> snd r \<noteq> None)"

lemma result_ok_simps [simp]:
  "result_ok (no_requeue, None)" "result_ok (r, Some e) = api_free e"
  by (auto simp: result_ok_def)

lemma join_patch_error_ok:
  "result_ok (r, e) \<Longrightarrow> result_ok (r, join_patch_error e (map_option Ext x))"
  by (cases x; cases e) (auto simp: join_patch_error_def result_ok_def)

context claim_handler
begin

lemma reconcileDelete_result:
  assumes "valid c s"
  shows "holds (\<lambda>(r, claim') h'. result_ok r) (reconcileDelete E b ops s claim h)"
  unfolding reconcileDelete_def holds_bind
proof (rule holds_mono [OF release_law [OF assms]], goal_cases)
  case (1 r h1)
  obtain res err where r: "r = (res, err)" by (cases r)
  have del: "holds (\<lambda>err h'. \<forall>e. err = Some e \<longrightarrow> api_free e) (delete_ip_address E b claim a h2)" for a h2
    by (rule holds_mono [OF delete_ip_address_holds]) simp
  show ?case
    using 1 by (auto simp: r holds_simps Let_def intro!: holds_mono [OF del] split: sum.splits option.splits)
qed

lemma reconcileClaimAddress_result:
  assumes "valid claim (adClaimHandlerFor ad claim)" "adOps ad = ops"
  shows "holds (\<lambda>(r, claim') h'. result_ok r) (reconcileClaimAddress E b ad claim h)"
  unfolding reconcileClaimAddress_def Let_def assms(2) holds_bind
proof (rule holds_mono [OF fetch_law [OF assms(1)]], goal_cases)
  case (1 r h1)
  obtain pool res err s where r: "r = ((pool, res, err), s)" by (cases r) auto
  from 1 r have s: "valid claim s" and ready: "err = None \<Longrightarrow> ready s" by auto
  have fin: "holds (\<lambda>(r, claim') h'. result_ok r) (finish_claim E b hadRef a claim1 h2)" for hadRef a claim1 h2
    by (auto simp: finish_claim_def Let_def holds_bind intro!: holds_mono [OF RecordNormal_holds])
  have ens: "holds (\<lambda>(en, claim') h'. \<forall>e. en_err en = Some e \<longrightarrow> api_free e) (ensureAddress E ops s p claim h1)"
    if "err = None" for p
    by (rule holds_mono [OF ensureAddress_holds [OF ready [OF that]]]) (auto split: option.splits)
  show ?case
    using 1 reconcileDelete_result [OF s]
    by (auto simp: r holds_bind fin intro!: holds_mono [OF ens] split: option.splits)
qed

lemma Reconcile_result:
  assumes ad: "\<And>c. valid c (adClaimHandlerFor ad c)" "adOps ad = ops"
  shows "holds (\<lambda>r h'. result_ok r) (Reconcile E b ad ns name h)"
proof -
  have patched: "holds (\<lambda>r h'. result_ok r) (reconcile_patched E b ad claim h1)" for claim h1
    by (auto simp: reconcile_patched_def holds_simps Let_def
        intro!: join_patch_error_ok holds_mono [OF reconcileClaimAddress_result [OF ad]] split: option.splits prod.splits)
  show ?thesis
  proof (cases "get_claim E h ns name")
    case (Inl x)
    then show ?thesis by (simp add: Reconcile_def call_def result_ok_def)
  next
    case (Inr claim)
    obtain cl err h2 where "getLinkedCluster E claim (h @ [EGetClaim ns name]) = Some ((cl, err), h2)"
      "\<And>e. err = Some e \<Longrightarrow> api_free e"
      using getLinkedCluster_total by metis
    with Inr patched show ?thesis by (auto simp: Reconcile_def call_def split: option.splits)
  qed
qed

end

section \<open>The events of a run\<close>

definition is_claim_patch :: "event \<Rightarrow> bool" where
  "is_claim_patch ev \<longleftrightarrow> (\<exists>c d. ev = EPatchClaim c d)"

lemma claim_patch_simps [simp]: "is_claim_patch (EPatchClaim c d)" "\<not> is_alloc (EPatchClaim c d)"
  "\<not> is_delete (EPatchClaim c d)"
  by (auto simp: is_claim_patch_def is_alloc_def is_delete_def)

lemma not_claim_patch:
  "calm ev \<Longrightarrow> \<not> is_claim_patch ev" "writing ev \<Longrightarrow> \<not> is_claim_patch ev"
  "releasing ev \<Longrightarrow> \<not> is_claim_patch ev" "cleanup ev \<Longrightarrow> \<not> is_claim_patch ev"
  by (auto simp: is_claim_patch_def writing_def releasing_def cleanup_def)

lemma grows_not_claim_patch:
  "grows calm h h' \<Longrightarrow> grows (\<lambda>ev. \<not> is_claim_patch ev) h h'"
  "grows writing h h' \<Longrightarrow> grows (\<lambda>ev. \<not> is_claim_patch ev) h h'"
  "grows releasing h h' \<Longrightarrow> grows (\<lambda>ev. \<not> is_claim_patch ev) h h'"
  "grows cleanup h h' \<Longrightarrow> grows (\<lambda>ev. \<not> is_claim_patch ev) h h'"
  by (auto simp: grows_def list_all_iff dest: not_claim_patch)

lemma releasing_no_allocs: "grows releasing h h' \<Longrightarrow> alloc_events (added h h') = []"
  by (auto simp: grows_def list_all_iff releasing_def alloc_events_def filter_empty_conv)

lemma cleanup_no_requests:
  "grows cleanup h h' \<Longrightarrow> alloc_events (added h h') = [] \<and> delete_events (added h h') = []"
  by (auto simp: grows_def list_all_iff cleanup_def alloc_events_def delete_events_def filter_empty_conv
      dest: alloc_http delete_http)

lemma writing_no_deletes: "grows writing h h' \<Longrightarrow> delete_events (added h h') = []"
  by (auto simp: grows_def list_all_iff writing_def delete_events_def filter_empty_conv)

context claim_handler
begin

lemma deletion_events:
  assumes "valid c s" "deletion_outcome E ops s claim err claim' h h'"
  shows "grows (\<lambda>ev. \<not> is_claim_patch ev) h h' \<and> alloc_events (added h h') = [] \<and>
    length (delete_events (added h h')) \<le> 1"
proof -
  obtain res rerr h1 where run: "chReleaseAddress ops s h = Some ((res, rerr), h1)"
    and rest: "case rerr of Some e \<Rightarrow> h' = h1 | None \<Rightarrow> grows cleanup h1 h'"
    using assms(2) by (auto simp: deletion_outcome_def split: option.splits)
  have h1: "grows releasing h h1" "length (delete_events (added h h1)) \<le> 1"
    using holdsD [OF release_law [OF assms(1)] run] by auto
  show ?thesis
  proof (cases rerr)
    case None
    with rest have "grows cleanup h1 h'" by simp
    with h1 cleanup_no_requests [of h1 h'] releasing_no_allocs [OF h1(1)] added_trans [OF h1(1), of cleanup h']
    show ?thesis
      by (auto intro: grows_trans grows_not_claim_patch)
  next
    case (Some e)
    with rest h1 releasing_no_allocs [OF h1(1)] show ?thesis by (auto intro: grows_not_claim_patch)
  qed
qed

lemma claim_reconciled_events:
  assumes "claim_reconciled E ops (valid claim) claim err claim' h h'"
  shows "grows (\<lambda>ev. \<not> is_claim_patch ev) h h' \<and>
    (alloc_events (added h h') \<noteq> [] \<longrightarrow> \<not> om_Deleting (cl_meta claim) \<and> unset_address E claim) \<and>
    length (delete_events (added h h')) \<le> 1 \<and>
    (delete_events (added h h') \<noteq> [] \<longrightarrow> om_Deleting (cl_meta claim))"
proof -
  consider (calm) "grows calm h h'"
    | (del) s h0 where "om_Deleting (cl_meta claim)" "valid claim s" "grows calm h h0"
        "deletion_outcome E ops s claim err claim' h0 h'"
    | (wr) "\<not> om_Deleting (cl_meta claim)" "grows writing h h'"
        "alloc_events (added h h') \<noteq> [] \<longrightarrow> unset_address E claim"
    using assms by (auto simp: claim_reconciled_def)
  then show ?thesis
  proof cases
    case calm
    then show ?thesis by (simp add: calm_no_requests grows_not_claim_patch)
  next
    case del
    from deletion_events [OF del(2,4)] calm_added [OF del(3), of "\<lambda>ev. \<not> is_claim_patch ev" h'] del
    show ?thesis by (auto intro: grows_trans grows_not_claim_patch)
  next
    case wr
    then show ?thesis by (auto simp: writing_no_deletes grows_not_claim_patch)
  qed
qed

text \<open>One run: it sends no request that allocates or deletes and patches no claim, or the claim it
  read is reconciled and patched.\<close>

lemma reconcile_run_cases:
  assumes "reconcile_run E ops valid ns name h h'"
  obtains (reads) "grows calm h h'"
  | (finalizer) claim h1 where "get_claim E h ns name = Inr claim" "cluster_allows E claim" "grows calm h h1"
      "snd (AddFinalizer E (om_Finalizers (cl_meta claim)) ReleaseAddressFinalizer)"
      "h' = h1 @ [EPatchClaim claim (set_claim_finalizers
         (fst (AddFinalizer E (om_Finalizers (cl_meta claim)) ReleaseAddressFinalizer)) claim)]"
  | (reconciled) claim claim1 err claim' h1 h2 where
      "get_claim E h ns name = Inr claim" "cluster_allows E claim" "grows calm h h1"
      "\<not> snd (AddFinalizer E (om_Finalizers (cl_meta claim)) ReleaseAddressFinalizer)"
      "claim1 = set_claim_finalizers
         (fst (AddFinalizer E (om_Finalizers (cl_meta claim)) ReleaseAddressFinalizer)) claim"
      "claim_reconciled E ops (valid claim1) claim1 err claim' h1 h2" "h' = h2 @ [EPatchClaim claim claim']"
  using assms by (fastforce simp: reconcile_run_def Let_def split: if_splits)

end

lemma set_claim_finalizers_fields [simp]:
  "om_Deleting (cl_meta (set_claim_finalizers fs c)) = om_Deleting (cl_meta c)"
  "om_Name (cl_meta (set_claim_finalizers fs c)) = om_Name (cl_meta c)"
  "om_Namespace (cl_meta (set_claim_finalizers fs c)) = om_Namespace (cl_meta c)"
  "om_UID (cl_meta (set_claim_finalizers fs c)) = om_UID (cl_meta c)"
  "om_Finalizers (cl_meta (set_claim_finalizers fs c)) = fs"
  "cl_Conditions (set_claim_finalizers fs c) = cl_Conditions c"
  "cl_AddressRef (set_claim_finalizers fs c) = cl_AddressRef c"
  "unset_address E (set_claim_finalizers fs c) = unset_address E c"
  by (simp_all add: set_claim_finalizers_def unset_address_def)

lemma snoc_patch:
  assumes "grows P h h2"
  shows "alloc_events (added h (h2 @ [EPatchClaim c d])) = alloc_events (added h h2)"
    "delete_events (added h (h2 @ [EPatchClaim c d])) = delete_events (added h h2)"
    "set (added h (h2 @ [EPatchClaim c d])) = insert (EPatchClaim c d) (set (added h h2))"
  using assms by (auto simp: grows_def alloc_events_def delete_events_def)

text \<open>The patch of a claim: the finalizer alone, or what the reconcile of the claim made of it,
  which sent the given deletion requests.\<close>

definition claim_patched ::
  "env \<Rightarrow> 's claim_handler_ops \<Rightarrow> (IPAddressClaim \<Rightarrow> 's \<Rightarrow> bool) \<Rightarrow> IPAddressClaim \<Rightarrow> IPAddressClaim \<Rightarrow>
     event list \<Rightarrow> bool" where
  "claim_patched E ops valid claim claim' ds \<longleftrightarrow>
     (let adding = AddFinalizer E (om_Finalizers (cl_meta claim)) ReleaseAddressFinalizer;
          claim1 = set_claim_finalizers (fst adding) claim in
      if snd adding then claim' = claim1
      else (\<exists>err h1 h2. claim_reconciled E ops (valid claim1) claim1 err claim' h1 h2 \<and>
              delete_events (added h1 h2) = ds))"

text \<open>What holds of the requests and patches of every run.\<close>

definition run_guarded ::
  "env \<Rightarrow> 's claim_handler_ops \<Rightarrow> (IPAddressClaim \<Rightarrow> 's \<Rightarrow> bool) \<Rightarrow> string \<Rightarrow> string \<Rightarrow> hist \<Rightarrow> hist \<Rightarrow> bool" where
  "run_guarded E ops valid ns name h h' \<longleftrightarrow>
     (let as = alloc_events (added h h'); ds = delete_events (added h h') in
      (as = [] \<and> ds = [] \<or>
       (\<exists>claim. get_claim E h ns name = Inr claim \<and>
          ReleaseAddressFinalizer \<in> set (om_Finalizers (cl_meta claim)) \<and> cluster_allows E claim \<and>
          (as \<noteq> [] \<longrightarrow> \<not> om_Deleting (cl_meta claim) \<and> unset_address E claim) \<and>
          (ds \<noteq> [] \<longrightarrow> om_Deleting (cl_meta claim) \<and> length ds = 1))) \<and>
      (\<forall>c c'. EPatchClaim c c' \<in> set (added h h') \<longrightarrow>
         get_claim E h ns name = Inr c \<and> cluster_allows E c \<and> claim_patched E ops valid c c' ds))"

lemma no_patch_events: "grows (\<lambda>ev. \<not> is_claim_patch ev) h h' \<Longrightarrow> EPatchClaim c c' \<notin> set (added h h')"
  by (auto simp: grows_added list_all_iff)

context claim_handler
begin

lemma reconcile_run_guarded:
  assumes run: "reconcile_run E ops valid ns name h h'" and E: "finalizers_ok E"
  shows "run_guarded E ops valid ns name h h'"
  using run
proof (cases rule: reconcile_run_cases)
  case reads
  then show ?thesis
    by (simp add: run_guarded_def calm_no_requests no_patch_events grows_not_claim_patch Let_def)
next
  case (finalizer claim h1)
  then show ?thesis
    using no_patch_events [OF grows_not_claim_patch(1) [OF finalizer(3)]]
    by (auto simp: run_guarded_def snoc_patch [OF finalizer(3)] calm_no_requests claim_patched_def Let_def)
next
  case (reconciled claim claim1 err claim' h1 h2)
  note ev = claim_reconciled_events [OF reconciled(6)]
  then have g: "grows (\<lambda>ev. \<not> is_claim_patch ev) h1 h2" by simp
  then have h2: "grows (\<lambda>ev. \<not> is_claim_patch ev) h h2"
    using reconciled(3) by (blast intro: grows_trans grows_not_claim_patch)
  have "ReleaseAddressFinalizer \<in> set (om_Finalizers (cl_meta claim))"
    using E reconciled(4) by (auto simp: finalizers_ok_def)
  moreover have "claim_patched E ops valid claim claim' (delete_events (added h1 h2))"
    using reconciled by (auto simp: claim_patched_def Let_def)
  moreover have "delete_events (added h1 h2) \<noteq> [] \<longrightarrow> length (delete_events (added h1 h2)) = 1"
    using ev by (cases "delete_events (added h1 h2)") auto
  ultimately show ?thesis
    using ev reconciled(1,2,5,7) calm_added [OF reconciled(3) g] no_patch_events [OF h2]
    by (auto simp: run_guarded_def snoc_patch [OF h2] Let_def)
qed

end

section \<open>The NetBox provider\<close>

definition netbox_handler_ops :: "env \<Rightarrow> netboxClaimHandler claim_handler_ops" where
  "netbox_handler_ops E =
     \<lparr>chFetchPool = FetchPool E, chEnsureAddress = EnsureAddress E, chReleaseAddress = ReleaseAddress E\<rparr>"

definition netbox_adapter :: "env \<Rightarrow> NetBoxProviderAdapter \<Rightarrow> netboxClaimHandler provider_adapter" where
  "netbox_adapter E a = \<lparr>adClaimHandlerFor = ClaimHandlerFor E a, adOps = netbox_handler_ops E\<rparr>"

text \<open>The handlers of a claim: as \<open>ClaimHandlerFor\<close> makes them, with any pool.\<close>

definition valid_handler ::
  "env \<Rightarrow> NetBoxProviderAdapter \<Rightarrow> IPAddressClaim \<Rightarrow> netboxClaimHandler \<Rightarrow> bool" where
  "valid_handler E a claim nh \<longleftrightarrow> client_factory (nh_newClientFunc nh) \<and>
     (\<exists>pool. nh = (ClaimHandlerFor E a claim)\<lparr>nh_pool := pool\<rparr>)"

definition ready_handler :: "netboxClaimHandler \<Rightarrow> bool" where
  "ready_handler nh \<longleftrightarrow> client_factory (nh_newClientFunc nh) \<and> nh_pool nh \<noteq> None"

lemma FetchPool_holds:
  "valid_handler E a claim nh \<Longrightarrow> holds (\<lambda>((pool, res, err), nh') h'. grows calm h h' \<and> res = None \<and>
      (\<forall>e. err = Some e \<longrightarrow> api_free e) \<and> valid_handler E a claim nh' \<and> (err = None \<longrightarrow> pool \<noteq> None \<and> ready_handler nh'))
    (FetchPool E nh h)"
  by (auto simp: FetchPool_def Let_def holds_simps ready_handler_def valid_handler_def split: sum.splits)

lemma outcome_fields:
  "ensure_outcome nh pool a (res, err) a' h h' \<Longrightarrow>
     (\<forall>e. err = Some e \<longrightarrow> api_free e) \<and> (res \<noteq> None \<longrightarrow> err \<noteq> None) \<and>
     (\<exists>x p g. a' = a\<lparr>ip_Address := x, ip_Prefix := p, ip_Gateway := g\<rparr>)"
proof -
  have "a = a\<lparr>ip_Address := ip_Address a, ip_Prefix := ip_Prefix a, ip_Gateway := ip_Gateway a\<rparr>" by simp
  then have same: "\<exists>x p g. a = a\<lparr>ip_Address := x, ip_Prefix := p, ip_Gateway := g\<rparr>" by metis
  assume "ensure_outcome nh pool a (res, err) a' h h'"
  with same show ?thesis
    by (cases res; cases err) (auto simp: ensure_outcome_def set_allocation_def Let_def)
qed

lemma release_outcome_fields:
  "release_outcome E nh pool (res, err) ds \<Longrightarrow>
     (\<forall>e. err = Some e \<longrightarrow> api_free e) \<and> (res \<noteq> None \<longrightarrow> err \<noteq> None) \<and> length ds \<le> 1"
  by (cases res; cases err) (auto simp: release_outcome_def one_deletion_def)

interpretation netbox: claim_handler "netbox_handler_ops E" "valid_handler E a" ready_handler for E a
proof (unfold_locales, goal_cases)
  case (1 c nh h)
  from FetchPool_holds [OF this] show ?case by (simp add: netbox_handler_ops_def)
next
  case (2 nh h a)
  then obtain pool where nh: "client_factory (nh_newClientFunc nh)" "nh_pool nh = Some pool"
    by (auto simp: ready_handler_def valid_handler_def)
  show ?case
  proof (cases "ip_Address a = []")
    case True
    show ?thesis
      unfolding netbox_handler_ops_def claim_handler_ops.simps
      by (rule holds_mono [OF EnsureAddress_holds [OF nh True]]) (use True in \<open>auto dest: outcome_fields\<close>)
  next
    case False
    then show ?thesis
      by (auto simp: netbox_handler_ops_def EnsureAddress_set intro: exI [of _ "ip_Address a"])
         (metis IPAddress.surjective IPAddress.update_convs)
  qed
next
  case (3 c nh h)
  show ?case
  proof (cases "nh_pool nh")
    case None
    then show ?thesis by (simp add: netbox_handler_ops_def ReleaseAddress_no_pool)
  next
    case (Some pool)
    with 3 have nh: "client_factory (nh_newClientFunc nh)" by (simp add: valid_handler_def)
    show ?thesis
      unfolding netbox_handler_ops_def claim_handler_ops.simps
      by (rule holds_mono [OF ReleaseAddress_holds [OF nh Some]]) (auto dest: release_outcome_fields)
  qed
qed

lemma netbox_adapter_valid:
  assumes "\<And>g. pa_NewClient a = Some g \<Longrightarrow> client_factory g"
  shows "valid_handler E a c (adClaimHandlerFor (netbox_adapter E a) c)"
  using new_client_factory [OF assms]
  by (auto simp: netbox_adapter_def ClaimHandlerFor_def valid_handler_def intro: exI [of _ None])

lemma netbox_adapter_ops [simp]: "adOps (netbox_adapter E a) = netbox_handler_ops E"
  by (simp add: netbox_adapter_def)

lemma netbox_Reconcile_run:
  assumes "\<And>g. pa_NewClient a = Some g \<Longrightarrow> client_factory g"
  shows "holds (\<lambda>_ h'. reconcile_run E (netbox_handler_ops E) (valid_handler E a) ns name h h')
    (Reconcile E b (netbox_adapter E a) ns name h)"
  by (rule netbox.Reconcile_holds) (simp_all add: netbox_adapter_valid [OF assms])

lemma netbox_Reconcile_result:
  assumes "\<And>g. pa_NewClient a = Some g \<Longrightarrow> client_factory g"
  shows "holds (\<lambda>r h'. result_ok r) (Reconcile E b (netbox_adapter E a) ns name h)"
  by (rule netbox.Reconcile_result [OF netbox_adapter_valid [OF assms]]) simp_all

lemma netbox_run_guarded:
  assumes "finalizers_ok E" "\<And>g. pa_NewClient a = Some g \<Longrightarrow> client_factory g"
  shows "holds (\<lambda>_ h'. run_guarded E (netbox_handler_ops E) (valid_handler E a) ns name h h')
    (Reconcile E b (netbox_adapter E a) ns name h)"
  by (rule holds_mono [OF netbox_Reconcile_run [OF assms(2)]])
     (simp_all add: netbox.reconcile_run_guarded assms(1))

text \<open>The pool that a claim refers to was looked up and does not exist.\<close>

definition pool_gone :: "env \<Rightarrow> IPAddressClaim \<Rightarrow> bool" where
  "pool_gone E claim \<longleftrightarrow>
     (let ref = cl_PoolRef claim in \<exists>h x. is_NotFound (Ext x) \<and>
        (plr_Kind ref = NetBoxIPPoolKind \<and>
           get_pool E h (om_Namespace (cl_meta claim)) (plr_Name ref) = Inl x \<or>
         plr_Kind ref = GlobalNetBoxIPPoolKind \<and> get_global_pool E h (plr_Name ref) = Inl x))"

lemma pool_gone_finalizers [simp]: "pool_gone E (set_claim_finalizers fs c) = pool_gone E c"
  by (simp add: pool_gone_def set_claim_finalizers_def)

lemma fetched_without_pool:
  assumes "handler_fetched (netbox_handler_ops E) (valid_handler E a claim) nh" "nh_pool nh = None"
  shows "pool_gone E claim"
proof -
  obtain nh0 h1 h2 pool res err where v: "valid_handler E a claim nh0"
    and run: "FetchPool E nh0 h1 = Some (((pool, res, err), nh), h2)"
    and nf: "\<forall>e. err = Some e \<longrightarrow> is_NotFound e"
    using assms(1) by (auto simp: handler_fetched_def netbox_handler_ops_def)
  from v have "nh_claim nh0 = claim" by (auto simp: valid_handler_def ClaimHandlerFor_def)
  with run nf assms(2) show ?thesis
    by (auto simp: FetchPool_def pool_gone_def call_def Let_def split: if_splits sum.splits)
qed

lemma release_outcome_cong:
  assumes "nh_newClientFunc nh = nh_newClientFunc nh'"
    and "om_UID (cl_meta (nh_claim nh)) = om_UID (cl_meta (nh_claim nh'))"
    and "om_Name (cl_meta (nh_claim nh)) = om_Name (cl_meta (nh_claim nh'))"
    and "om_Namespace (cl_meta (nh_claim nh)) = om_Namespace (cl_meta (nh_claim nh'))"
  shows "release_outcome E nh = release_outcome E nh'"
proof -
  have lookup: "claim_lookup nh = claim_lookup nh'"
    using assms by (intro ext) (simp add: claim_lookup_def)
  then have "one_deletion nh = one_deletion nh'"
    using assms by (intro ext) (simp add: one_deletion_def record_found_def)
  moreover have "no_address_object E (nh_claim nh) = no_address_object E (nh_claim nh')"
    using assms by (simp add: no_address_object_def)
  ultimately show ?thesis
    using lookup by (intro ext) (simp only: release_outcome_def)
qed

lemma release_outcome_finalizers:
  "release_outcome E ((ClaimHandlerFor E a (set_claim_finalizers fs c))\<lparr>nh_pool := q\<rparr>) =
   release_outcome E ((ClaimHandlerFor E a c)\<lparr>nh_pool := q\<rparr>)"
  by (rule release_outcome_cong) (simp_all add: ClaimHandlerFor_def)

text \<open>The claim was released: its pool is gone, or the release by the claim's handler succeeded
  with these deletion requests.\<close>

definition claim_released :: "env \<Rightarrow> NetBoxProviderAdapter \<Rightarrow> IPAddressClaim \<Rightarrow> event list \<Rightarrow> bool" where
  "claim_released E a claim ds \<longleftrightarrow>
     pool_gone E claim \<or>
     (\<exists>pool. release_outcome E ((ClaimHandlerFor E a claim)\<lparr>nh_pool := Some pool\<rparr>) pool (None, None) ds)"

lemma ReleaseAddress_released:
  assumes v: "valid_handler E a claim nh" and f: "handler_fetched (netbox_handler_ops E) (valid_handler E a claim) nh"
    and run: "ReleaseAddress E nh h1 = Some ((res, None), h2)"
  shows "claim_released E a claim (delete_events (added h1 h2))"
proof (cases "nh_pool nh")
  case None
  with fetched_without_pool [OF f] show ?thesis by (simp add: claim_released_def)
next
  case (Some pool)
  from v Some have nh: "nh = (ClaimHandlerFor E a claim)\<lparr>nh_pool := Some pool\<rparr>"
    by (auto simp: valid_handler_def)
  have "release_outcome E nh pool (res, None) (delete_events (added h1 h2))"
    using holdsD [OF ReleaseAddress_holds [OF _ Some] run] v by (auto simp: valid_handler_def)
  moreover from this have "res = None" by (cases res) (auto simp: release_outcome_def)
  ultimately show ?thesis unfolding claim_released_def by (metis nh)
qed

lemma netbox_finalizer_removed:
  assumes E: "finalizers_ok E" and p: "claim_patched E (netbox_handler_ops E) (valid_handler E a) c c' ds"
    and fin: "ReleaseAddressFinalizer \<in> set (om_Finalizers (cl_meta c))"
      "ReleaseAddressFinalizer \<notin> set (om_Finalizers (cl_meta c'))"
  shows "om_Deleting (cl_meta c) \<and> claim_released E a c ds"
proof -
  let ?fs = "fst (AddFinalizer E (om_Finalizers (cl_meta c)) ReleaseAddressFinalizer)"
  let ?c1 = "set_claim_finalizers ?fs c"
  from E fin(1) have add: "\<not> snd (AddFinalizer E (om_Finalizers (cl_meta c)) ReleaseAddressFinalizer)"
    "ReleaseAddressFinalizer \<in> set ?fs" by (auto simp: finalizers_ok_def)
  with p obtain err h1 h2 where rec: "claim_reconciled E (netbox_handler_ops E) (valid_handler E a ?c1) ?c1 err c' h1 h2"
    and ds: "delete_events (added h1 h2) = ds"
    by (auto simp: claim_patched_def Let_def)
  have "\<not> ready_false E ?c1 c'" "\<not> ready_true E ?c1 c'"
    using add(2) fin(2) by (auto simp: ready_false_def ready_true_def setClaimReady_def set_claim_finalizers_def)
  with rec obtain nh h0 where del: "om_Deleting (cl_meta c)" "valid_handler E a ?c1 nh" "grows calm h1 h0"
    "handler_fetched (netbox_handler_ops E) (valid_handler E a ?c1) nh"
    "deletion_outcome E (netbox_handler_ops E) nh ?c1 err c' h0 h2"
    by (auto simp: claim_reconciled_def)
  from del(5) obtain res rerr h3 where run: "ReleaseAddress E nh h0 = Some ((res, rerr), h3)"
    and rest: "case rerr of Some e \<Rightarrow> c' = ?c1 | None \<Rightarrow> grows cleanup h3 h2"
    by (auto simp: deletion_outcome_def netbox_handler_ops_def split: option.splits)
  have rerr: "rerr = None" using rest fin(2) add(2) by (cases rerr) auto
  have g3: "grows releasing h0 h3"
    using holdsD [OF netbox.release_law [OF del(2), where h = h0], where r = "(res, rerr)" and h = h3] run
    by (simp add: netbox_handler_ops_def)
  have "claim_released E a ?c1 (delete_events (added h0 h3))"
    using ReleaseAddress_released [OF del(2,4)] run rerr by simp
  moreover have "delete_events (added h0 h3) = ds"
  proof -
    have clean: "grows cleanup h3 h2" using rest rerr by simp
    have "grows (\<lambda>_. True) h0 h2"
      by (rule grows_trans [OF grows_any [OF g3] grows_any [OF clean]])
    then have "ds = delete_events (added h0 h2)" using calm_added [OF del(3)] ds by simp
    with cleanup_no_requests [OF clean] added_trans [OF g3 clean] show ?thesis by simp
  qed
  ultimately show ?thesis
    using del(1) by (simp add: claim_released_def release_outcome_finalizers)
qed

text \<open>The one deletion request of a stretch is for a record that was found to be the claim's.\<close>

definition owned_deletion :: "env \<Rightarrow> NetBoxProviderAdapter \<Rightarrow> IPAddressClaim \<Rightarrow> event list \<Rightarrow> bool" where
  "owned_deletion E a claim ds \<longleftrightarrow>
     (\<exists>pool. one_deletion ((ClaimHandlerFor E a claim)\<lparr>nh_pool := Some pool\<rparr>) pool ds)"

lemma one_deletion_cong:
  assumes "nh_newClientFunc nh = nh_newClientFunc nh'"
    and "om_UID (cl_meta (nh_claim nh)) = om_UID (cl_meta (nh_claim nh'))"
  shows "one_deletion nh = one_deletion nh'"
proof -
  have "claim_lookup nh = claim_lookup nh'"
    using assms by (intro ext) (simp add: claim_lookup_def)
  then show ?thesis using assms by (intro ext) (simp add: one_deletion_def record_found_def)
qed

lemma owned_deletion_finalizers [simp]:
  "owned_deletion E a (set_claim_finalizers fs c) = owned_deletion E a c"
proof -
  have "one_deletion ((ClaimHandlerFor E a (set_claim_finalizers fs c))\<lparr>nh_pool := q\<rparr>) =
      one_deletion ((ClaimHandlerFor E a c)\<lparr>nh_pool := q\<rparr>)" for q
    by (rule one_deletion_cong) (simp_all add: ClaimHandlerFor_def)
  then show ?thesis by (intro ext) (simp add: owned_deletion_def)
qed

lemma ReleaseAddress_deletes:
  assumes v: "valid_handler E a claim nh"
    and run: "ReleaseAddress E nh h1 = Some ((res, err), h2)"
  shows "delete_events (added h1 h2) = [] \<or> owned_deletion E a claim (delete_events (added h1 h2))"
proof (cases "nh_pool nh")
  case None
  with run show ?thesis by (simp add: ReleaseAddress_no_pool)
next
  case (Some pool)
  from v Some have nh: "nh = (ClaimHandlerFor E a claim)\<lparr>nh_pool := Some pool\<rparr>"
    by (auto simp: valid_handler_def)
  have "release_outcome E nh pool (res, err) (delete_events (added h1 h2))"
    using holdsD [OF ReleaseAddress_holds [OF _ Some] run] v by (auto simp: valid_handler_def)
  then have "delete_events (added h1 h2) = [] \<or> one_deletion nh pool (delete_events (added h1 h2))"
    by (cases res; cases err) (auto simp: release_outcome_def)
  then show ?thesis unfolding owned_deletion_def by (metis nh)
qed

lemma claim_reconciled_deletes:
  assumes "claim_reconciled E (netbox_handler_ops E) (valid_handler E a claim) claim err claim' h1 h2"
  shows "delete_events (added h1 h2) = [] \<or> owned_deletion E a claim (delete_events (added h1 h2))"
proof -
  consider (none) "delete_events (added h1 h2) = []"
    | (del) nh h0 where "valid_handler E a claim nh" "grows calm h1 h0"
        "deletion_outcome E (netbox_handler_ops E) nh claim err claim' h0 h2"
    using assms by (auto simp: claim_reconciled_def calm_no_requests writing_no_deletes)
  then show ?thesis
  proof cases
    case del
    from del(3) obtain res rerr h3 where run: "ReleaseAddress E nh h0 = Some ((res, rerr), h3)"
      and rest: "case rerr of Some e \<Rightarrow> h2 = h3 | None \<Rightarrow> grows cleanup h3 h2"
      by (auto simp: deletion_outcome_def netbox_handler_ops_def split: option.splits)
    from rest have clean: "grows cleanup h3 h2" by (cases rerr) auto
    have g3: "grows releasing h0 h3"
      using holdsD [OF netbox.release_law [OF del(1), where h = h0], where r = "(res, rerr)" and h = h3] run
      by (simp add: netbox_handler_ops_def)
    have "grows (\<lambda>_. True) h0 h2"
      by (rule grows_trans [OF grows_any [OF g3] grows_any [OF clean]])
    then have "delete_events (added h1 h2) = delete_events (added h0 h3)"
      using calm_added [OF del(2)] cleanup_no_requests [OF clean] added_trans [OF g3 clean] by simp
    with ReleaseAddress_deletes [OF del(1) run] show ?thesis by simp
  qed simp
qed

lemma netbox_run_deletions:
  assumes "reconcile_run E (netbox_handler_ops E) (valid_handler E a) ns name h h'"
  shows "delete_events (added h h') = [] \<or>
    (\<exists>claim. get_claim E h ns name = Inr claim \<and> owned_deletion E a claim (delete_events (added h h')))"
  using assms
proof (cases rule: netbox.reconcile_run_cases)
  case reads
  then show ?thesis by (simp add: calm_no_requests)
next
  case (finalizer claim h1)
  then show ?thesis by (simp add: snoc_patch [OF finalizer(3)] calm_no_requests)
next
  case (reconciled claim claim1 err claim' h1 h2)
  from netbox.claim_reconciled_events [OF reconciled(6)]
  have g: "grows (\<lambda>ev. \<not> is_claim_patch ev) h1 h2" by simp
  then have h2: "grows (\<lambda>ev. \<not> is_claim_patch ev) h h2"
    using reconciled(3) by (blast intro: grows_trans grows_not_claim_patch)
  show ?thesis
    using claim_reconciled_deletes [OF reconciled(6)] reconciled(1,5,7) calm_added [OF reconciled(3) g]
    by (auto simp: snoc_patch [OF h2])
qed

text \<open>What a patch may change of the status.\<close>

lemma claim_patched_status:
  assumes "claim_patched E ops valid c c' ds"
  shows "cl_Conditions c' = cl_Conditions c \<and> cl_AddressRef c' = cl_AddressRef c \<or>
    (\<exists>fs. ready_false E (set_claim_finalizers fs c) c') \<or> (\<exists>fs. ready_true E (set_claim_finalizers fs c) c')"
  using assms
  by (fastforce simp: claim_patched_def claim_reconciled_def deletion_outcome_def Let_def
      split: if_splits option.splits)

lemma spec_kept:
  "ready_false E c c' \<Longrightarrow> cl_PoolRef c' = cl_PoolRef c \<and> cl_ClusterName c' = cl_ClusterName c"
  "ready_true E c c' \<Longrightarrow> cl_PoolRef c' = cl_PoolRef c \<and> cl_ClusterName c' = cl_ClusterName c"
  "deletion_outcome E ops s c err c' h h' \<Longrightarrow> cl_PoolRef c' = cl_PoolRef c \<and> cl_ClusterName c' = cl_ClusterName c"
  by (auto simp: ready_false_def ready_true_def setClaimReady_def deletion_outcome_def set_claim_finalizers_def
      split: option.splits if_splits)

lemma claim_patched_spec:
  assumes "claim_patched E ops valid c c' ds"
  shows "cl_PoolRef c' = cl_PoolRef c \<and> cl_ClusterName c' = cl_ClusterName c"
proof -
  have "cl_PoolRef (set_claim_finalizers fs c) = cl_PoolRef c \<and>
      cl_ClusterName (set_claim_finalizers fs c) = cl_ClusterName c" for fs
    by (simp add: set_claim_finalizers_def)
  with assms show ?thesis
    by (auto simp: claim_patched_def claim_reconciled_def Let_def dest!: spec_kept split: if_splits)
qed

end
