(* ===== verification/Netbox_Store.thy ===== *)
theory Netbox_Store
  imports Claim_Reconciler_Facts
begin

text \<open>
  A NetBox that stores its records, as the abstract server behind the interface \<open>Client\<close>: the
  store is a function of the requests that were sent. An allocation request takes the first free
  address and leaves a record with the UID of the claim, a deletion removes the record of an ID.
  It is one server the contract \<open>netbox_client\<close> allows; it makes statements about several
  reconciles concrete, one after the other or with others at work in between.
\<close>

section \<open>The store\<close>

record nb_record =
  nr_ID :: int32
  nr_Address :: string
  nr_UID :: string

text \<open>The number of records ever made, and the records.\<close>

type_synonym nb_store = "nat \<times> nb_record list"

definition lease_request :: "string \<Rightarrow> int32 \<Rightarrow> event" where
  "lease_request uid i =
     EHttp \<lparr>rq_Method = ''POST'', rq_URL = available_ips_path i, rq_Headers = [], rq_Body = Some (JStr uid)\<rparr>"

definition drop_request :: "int32 \<Rightarrow> event" where
  "drop_request i =
     EHttp \<lparr>rq_Method = ''DELETE'', rq_URL = address_path i, rq_Headers = [], rq_Body = None\<rparr>"

text \<open>The request of a lookup; the store does not keep what it asks for.\<close>

definition query_request :: event where
  "query_request = EHttp \<lparr>rq_Method = ''GET'', rq_URL = addresses_path, rq_Headers = [], rq_Body = None\<rparr>"

definition free_address :: "string list \<Rightarrow> nb_record list \<Rightarrow> string option" where
  "free_address addrs rs = List.find (\<lambda>a. a \<notin> nr_Address ` set rs) addrs"

definition store_step :: "string list \<Rightarrow> nb_store \<Rightarrow> event \<Rightarrow> nb_store" where
  "store_step addrs st ev =
     (case ev of
        EHttp r \<Rightarrow>
          (case rq_Body r of
             Some (JStr uid) \<Rightarrow>
               (case free_address addrs (snd st) of
                  None \<Rightarrow> st
                | Some a \<Rightarrow> (Suc (fst st), snd st @
                    [\<lparr>nr_ID = word_of_nat (Suc (fst st)), nr_Address = a, nr_UID = uid\<rparr>]))
           | _ \<Rightarrow> (fst st, filter (\<lambda>x. \<not> deletes_id (nr_ID x) ev) (snd st)))
      | _ \<Rightarrow> st)"

definition store :: "string list \<Rightarrow> hist \<Rightarrow> nb_store" where
  "store addrs h = foldl (store_step addrs) (0, []) h"

definition records :: "string list \<Rightarrow> hist \<Rightarrow> nb_record list" where
  "records addrs h = snd (store addrs h)"

definition allocated_of :: "nb_record \<Rightarrow> AllocatedAddress" where
  "allocated_of x = \<lparr>aa_ID = nr_ID x, aa_Address = nr_Address x, aa_Prefix = 24, aa_DNSName = []\<rparr>"

section \<open>Others at work\<close>

text \<open>What others do to the store: \<open>F h\<close> are their events between the last event of the own history
  \<open>h\<close> and the next one. \<open>seen F h\<close> is what the store has seen when the next own event comes.\<close>

fun interleaved :: "(hist \<Rightarrow> hist) \<Rightarrow> hist \<Rightarrow> hist \<Rightarrow> hist" where
  "interleaved F past [] = F past"
| "interleaved F past (ev # t) = F past @ ev # interleaved F (past @ [ev]) t"

definition seen :: "(hist \<Rightarrow> hist) \<Rightarrow> hist \<Rightarrow> hist" where
  "seen F h = interleaved F [] h"

abbreviation alone :: "hist \<Rightarrow> hist" where "alone \<equiv> \<lambda>h. []"

lemma interleaved_snoc:
  "interleaved F past (t @ [ev]) = interleaved F past t @ ev # F (past @ t @ [ev])"
  by (induction t arbitrary: past) auto

lemma seen_snoc: "seen F (h @ [ev]) = seen F h @ ev # F (h @ [ev])"
  by (simp add: seen_def interleaved_snoc)

lemma seen_alone [simp]: "seen alone h = h"
proof -
  have "interleaved alone past h = h" for past by (induction h arbitrary: past) auto
  then show ?thesis by (simp add: seen_def)
qed

text \<open>The client of a store that others use too; a pool's prefixes all draw on the same addresses.\<close>

definition shared_client :: "string list \<Rightarrow> (hist \<Rightarrow> hist) \<Rightarrow> nb_client" where
  "shared_client addrs F =
     \<lparr>nbResolvePrefixIDs = (\<lambda>refs h. Some (Inl (Errorf ''not served'' []), h)),
      nbGetPrefixDetails = (\<lambda>ids h. Some (Inl (Errorf ''not served'' []), h)),
      nbEnsureIPAddressCustomField = (\<lambda>f h. Some (Inr (), h)),
      nbAllocateIPAddress = (\<lambda>i req h.
        let ev = lease_request (ar_ClaimUID req) i in
        Some (if free_address addrs (records addrs (seen F h)) = None then Inl ErrNoAvailableIP
              else Inr (allocated_of (last (records addrs (seen F h @ [ev])))), h @ [ev])),
      nbFindIPAddressByClaimUID = (\<lambda>tag f uid h.
        Some (Inr (map_option allocated_of (List.find (\<lambda>x. nr_UID x = uid) (records addrs (seen F h)))),
          h @ [query_request])),
      nbFindIPAddressByAddress = (\<lambda>tag a h.
        Some (Inr (map_option allocated_of (List.find (\<lambda>x. nr_Address x = a) (records addrs (seen F h)))),
          h @ [query_request])),
      nbDeleteIPAddress = (\<lambda>i h. Some (Inr (), h @ [drop_request i]))\<rparr>"

lemma shared_client_fields [simp]:
  "nbResolvePrefixIDs (shared_client addrs F) refs h = Some (Inl (Errorf ''not served'' []), h)"
  "nbGetPrefixDetails (shared_client addrs F) ids h = Some (Inl (Errorf ''not served'' []), h)"
  "nbEnsureIPAddressCustomField (shared_client addrs F) f h = Some (Inr (), h)"
  "nbAllocateIPAddress (shared_client addrs F) i req h =
     Some (if free_address addrs (records addrs (seen F h)) = None then Inl ErrNoAvailableIP
           else Inr (allocated_of (last (records addrs (seen F h @ [lease_request (ar_ClaimUID req) i])))),
           h @ [lease_request (ar_ClaimUID req) i])"
  "nbFindIPAddressByClaimUID (shared_client addrs F) tag f uid h =
     Some (Inr (map_option allocated_of (List.find (\<lambda>x. nr_UID x = uid) (records addrs (seen F h)))), h @ [query_request])"
  "nbFindIPAddressByAddress (shared_client addrs F) tag a h =
     Some (Inr (map_option allocated_of (List.find (\<lambda>x. nr_Address x = a) (records addrs (seen F h)))), h @ [query_request])"
  "nbDeleteIPAddress (shared_client addrs F) i h = Some (Inr (), h @ [drop_request i])"
  by (simp_all add: shared_client_def Let_def)

text \<open>The client of a store that nobody else uses.\<close>

definition store_client :: "string list \<Rightarrow> nb_client" where
  "store_client addrs = shared_client addrs alone"

lemma store_client_fields [simp]:
  "nbResolvePrefixIDs (store_client addrs) refs h = Some (Inl (Errorf ''not served'' []), h)"
  "nbGetPrefixDetails (store_client addrs) ids h = Some (Inl (Errorf ''not served'' []), h)"
  "nbEnsureIPAddressCustomField (store_client addrs) f h = Some (Inr (), h)"
  "nbAllocateIPAddress (store_client addrs) i req h =
     Some (if free_address addrs (records addrs h) = None then Inl ErrNoAvailableIP
           else Inr (allocated_of (last (records addrs (h @ [lease_request (ar_ClaimUID req) i])))),
           h @ [lease_request (ar_ClaimUID req) i])"
  "nbFindIPAddressByClaimUID (store_client addrs) tag f uid h =
     Some (Inr (map_option allocated_of (List.find (\<lambda>x. nr_UID x = uid) (records addrs h))), h @ [query_request])"
  "nbFindIPAddressByAddress (store_client addrs) tag a h =
     Some (Inr (map_option allocated_of (List.find (\<lambda>x. nr_Address x = a) (records addrs h))), h @ [query_request])"
  "nbDeleteIPAddress (store_client addrs) i h = Some (Inr (), h @ [drop_request i])"
  by (simp_all add: store_client_def)

lemma lease_allocates: "allocates_from i (lease_request uid i)"
  by (simp add: allocates_from_def lease_request_def has_suffix_append [of "[]", simplified])

lemma drop_deletes: "deletes_id i (drop_request i)"
  by (simp add: deletes_id_def drop_request_def has_suffix_append [of "[]", simplified])

lemma lease_kinds [simp]: "is_alloc (lease_request uid i)" "\<not> is_delete (lease_request uid i)"
  using allocates_from_is_alloc [OF lease_allocates] by blast+

lemma query_kinds [simp]: "quiet query_request" "\<not> is_alloc query_request" "\<not> is_delete query_request" "is_http query_request"
  by (simp_all add: quiet_def query_request_def is_alloc_def is_delete_def is_http_def)

lemma query_deletes [simp]: "\<not> deletes_id i query_request"
  by (simp add: deletes_id_def query_request_def)

lemma drop_kinds [simp]: "\<not> is_alloc (drop_request i)" "is_delete (drop_request i)"
  using deletes_id_is_delete [OF drop_deletes] by blast+

interpretation stores: netbox_client "shared_client addrs F" for addrs F
proof (unfold_locales, goal_cases)
  case 4
  then show ?case using lease_allocates by auto
next
  case 7
  then show ?case using drop_deletes by simp
qed simp_all

interpretation store_factory: client_factory "\<lambda>cfg. Inr (shared_client addrs F)" for addrs F
  by (rule client_factory.intro) (auto intro: stores.netbox_client_axioms)

section \<open>Invariants that survive a crash\<close>

text \<open>\<open>keeps I h h'\<close>: on the way from \<open>h\<close> to \<open>h'\<close> the invariant holds after each event, so also
  when the program stops there.\<close>

definition keeps :: "(hist \<Rightarrow> bool) \<Rightarrow> hist \<Rightarrow> hist \<Rightarrow> bool" where
  "keeps I h h' \<longleftrightarrow> (\<exists>t. h' = h @ t) \<and> (I h \<longrightarrow> (\<forall>t u. h' = h @ t @ u \<longrightarrow> I (h @ t)))"

lemma keeps_refl [simp]: "keeps I h h"
  by (simp add: keeps_def)

lemma keeps_snoc: "(I h \<Longrightarrow> I (h @ [ev])) \<Longrightarrow> keeps I h (h @ [ev])"
  by (auto simp: keeps_def append_eq_Cons_conv Cons_eq_append_conv)

lemma keeps_trans:
  assumes "keeps I h h1" "keeps I h1 h2"
  shows "keeps I h h2"
proof -
  from assms obtain t1 t2 where t: "h1 = h @ t1" "h2 = h1 @ t2" by (auto simp: keeps_def)
  have "I (h @ t)" if "I h" "h2 = h @ t @ u" for t u
  proof -
    have h1: "I h1" using assms(1) that(1) t(1) by (auto simp: keeps_def)
    from that(2) t have "t @ u = t1 @ t2" by simp
    then consider w where "t1 = t @ w" | w where "t = t1 @ w" "t2 = w @ u"
      by (auto simp: append_eq_append_conv2)
    then show ?thesis
    proof cases
      case 1
      with assms(1) that(1) t(1) show ?thesis by (auto simp: keeps_def)
    next
      case 2
      with assms(2) h1 t show ?thesis by (auto simp: keeps_def)
    qed
  qed
  with t show ?thesis by (auto simp: keeps_def)
qed

lemma keeps_grows:
  assumes "grows P h h'" "\<And>h ev. P ev \<Longrightarrow> I h \<Longrightarrow> I (h @ [ev])"
  shows "keeps I h h'"
proof -
  from assms(1) obtain t where t: "h' = h @ t" "list_all P t" by (auto simp: grows_def)
  have "I (h @ s)" if "I h" "list_all P s" for s
    using that(2)
  proof (induction s rule: rev_induct)
    case (snoc ev s)
    then show ?case using assms(2) [of ev "h @ s"] by simp
  qed (simp add: that(1))
  with t show ?thesis by (auto simp: keeps_def)
qed

lemma keeps_prefix: "keeps I h (h @ t @ u) \<Longrightarrow> I h \<Longrightarrow> I (h @ t)"
  by (auto simp: keeps_def)

section \<open>The claim loop keeps what its handler keeps\<close>

text \<open>The contract of \<open>ClaimHandler\<close> with a relation that every method keeps and that only
  requests to NetBox could break.\<close>

locale keeping_handler = claim_handler ops valid ready
  for ops :: "'s claim_handler_ops" and valid :: "IPAddressClaim \<Rightarrow> 's \<Rightarrow> bool" and ready :: "'s \<Rightarrow> bool" +
  fixes I :: "hist \<Rightarrow> bool"
  assumes kube_keeps: "\<not> is_http ev \<Longrightarrow> I h \<Longrightarrow> I (h @ [ev])"
    and fetch_keeps: "valid c s \<Longrightarrow> holds (\<lambda>_ h'. keeps I h h') (chFetchPool ops s h)"
    and ensure_keeps: "valid c s \<Longrightarrow> ready s \<Longrightarrow> holds (\<lambda>_ h'. keeps I h h') (chEnsureAddress ops s a h)"
    and release_keeps: "valid c s \<Longrightarrow> holds (\<lambda>_ h'. keeps I h h') (chReleaseAddress ops s h)"
begin

lemma kube_step: "keeps I h0 h \<Longrightarrow> \<not> is_http ev \<Longrightarrow> keeps I h0 (h @ [ev])"
  by (rule keeps_trans [OF _ keeps_snoc]) (simp_all add: kube_keeps)

lemma kube_steps: "keeps I h0 h \<Longrightarrow> list_all (\<lambda>ev. \<not> is_http ev) t \<Longrightarrow> keeps I h0 (h @ t)"
  by (rule keeps_trans [OF _ keeps_grows [where P = "\<lambda>ev. \<not> is_http ev"]])
     (auto simp: grows_def kube_keeps)

lemma record_keeps:
  "keeps I h0 h \<Longrightarrow> holds (\<lambda>_ h'. keeps I h0 h') (RecordNormal b n r ac m h)"
  by (rule holds_mono [OF RecordNormal_holds])
     (blast intro: keeps_trans keeps_grows kube_keeps dest: record_not_http)

lemma poll_visible_keeps:
  "keeps I h0 h \<Longrightarrow> holds (\<lambda>_ h'. keeps I h0 h') (poll_visible E ns name n h)"
proof (induction n arbitrary: h)
  case (Suc n)
  from Suc.prems have "keeps I h0 (h @ [EGetAddress ns name])" by (rule kube_step) simp
  moreover from this have "keeps I h0 ((h @ [EGetAddress ns name]) @ [EPollTick])" by (rule kube_step) simp
  ultimately show ?case
    using Suc.IH [of "(h @ [EGetAddress ns name]) @ [EPollTick]"]
    by (auto simp: holds_simps call_def emit_def split: sum.splits option.splits)
qed simp

lemma delete_ip_address_keeps:
  "keeps I h0 h \<Longrightarrow> holds (\<lambda>_ h'. keeps I h0 h') (delete_ip_address E b claim a h)"
  by (auto simp: delete_ip_address_def Let_def holds_simps intro!: holds_mono [OF record_keeps] kube_steps
      split: prod.splits option.splits)

lemma reconcileDelete_keeps:
  assumes "valid c s" "keeps I h0 h"
  shows "holds (\<lambda>_ h'. keeps I h0 h') (reconcileDelete E b ops s claim h)"
  unfolding reconcileDelete_def holds_bind
proof (rule holds_mono [OF release_keeps [OF assms(1)]], goal_cases)
  case (1 r h1)
  then have "keeps I h0 h1" by (rule keeps_trans [OF assms(2)])
  then show ?case
    by (auto simp: holds_simps Let_def intro!: holds_mono [OF delete_ip_address_keeps] kube_step
        split: prod.splits sum.splits option.splits)
qed

lemma mutate_address_keeps:
  assumes "valid c s" "ready s" "keeps I h0 h"
  shows "holds (\<lambda>_ h'. keeps I h0 h') (mutate_address E ops s claim pool a h)"
  unfolding mutate_address_def holds_bind
proof (rule holds_mono [OF ensure_keeps [OF assms(1,2)]], goal_cases)
  case (1 r h1)
  then have "keeps I h0 h1" by (rule keeps_trans [OF assms(3)])
  then show ?case
    by (cases "ensureIPAddressOwnerReferences E (snd r) claim pool")
       (auto split: prod.splits sum.splits option.splits)
qed

lemma ensureAddress_keeps:
  assumes "valid c s" "ready s" "keeps I h0 h"
  shows "holds (\<lambda>_ h'. keeps I h0 h') (ensureAddress E ops s pool claim h)"
proof -
  have "holds (\<lambda>_ h'. keeps I h0 h') (create_or_patch E initial (mutate_address E ops s claim pool) h)" for initial
    by (auto simp: create_or_patch_def Let_def holds_simps
        intro!: holds_mono [OF mutate_address_keeps [OF assms(1,2)]] kube_step assms(3)
        split: prod.splits sum.splits option.splits)
  then show ?thesis
    unfolding ensureAddress_def holds_bind
    by (rule holds_mono)
       (auto simp: holds_simps intro!: holds_mono [OF poll_visible_keeps] split: prod.splits option.splits)
qed

lemma reconcileClaimAddress_keeps:
  assumes "valid claim (adClaimHandlerFor ad claim)" "adOps ad = ops" "keeps I h0 h"
  shows "holds (\<lambda>_ h'. keeps I h0 h') (reconcileClaimAddress E b ad claim h)"
  unfolding reconcileClaimAddress_def Let_def assms(2) holds_bind
proof (rule holds_mono [OF holds_conj [OF fetch_law [OF assms(1)] fetch_keeps [OF assms(1)]]], goal_cases)
  case (1 r h1)
  obtain pool res err s where r: "r = ((pool, res, err), s)" by (cases r) auto
  from 1 have h1: "keeps I h0 h1" by (blast intro: keeps_trans [OF assms(3)])
  from 1 r have s: "valid claim s" "err = None \<Longrightarrow> ready s" by auto
  have del: "holds (\<lambda>_ h'. keeps I h0 h') (reconcileDelete E b ops s claim h1)"
    by (rule reconcileDelete_keeps [OF s(1) h1])
  have fin: "holds (\<lambda>_ h'. keeps I h0 h') (finish_claim E b hadRef a claim1 h2)" if "keeps I h0 h2" for hadRef a claim1 h2
    using that by (auto simp: finish_claim_def Let_def holds_bind intro!: holds_mono [OF record_keeps])
  have ens: "holds (\<lambda>_ h'. keeps I h0 h') (ensureAddress E ops s p claim h1)" if "err = None" for p
    by (rule ensureAddress_keeps [OF s(1) s(2) [OF that] h1])
  show ?case
    using h1 del by (auto simp: r holds_bind intro!: holds_mono [OF ens] fin split: option.splits)
qed

lemma Reconcile_keeps:
  assumes ad: "\<And>c. valid c (adClaimHandlerFor ad c)" "adOps ad = ops"
  shows "holds (\<lambda>_ h'. keeps I h h') (Reconcile E b ad ns name h)"
proof -
  have patched: "holds (\<lambda>_ h'. keeps I h h') (reconcile_patched E b ad claim h1)" if "keeps I h h1" for claim h1
    using that
    by (auto simp: reconcile_patched_def holds_simps Let_def is_http_def
        intro!: kube_steps holds_mono [OF reconcileClaimAddress_keeps [OF ad]] split: option.splits prod.splits)
  have link: "holds (\<lambda>_ h'. keeps I h h') (getLinkedCluster E claim h1)" if "keeps I h h1" for claim h1
    using that by (auto simp: getLinkedCluster_def Let_def holds_simps is_http_def intro!: kube_step)
  have "keeps I h (h @ [EGetClaim ns name])" by (rule kube_step) (simp_all add: is_http_def)
  then show ?thesis
    by (auto simp: Reconcile_def holds_simps patched intro!: holds_mono [OF link] split: sum.splits option.splits)
qed

end

section \<open>One record per claim\<close>

definition uids :: "string list \<Rightarrow> hist \<Rightarrow> string list" where
  "uids addrs h = map nr_UID (records addrs h)"

definition uids_distinct :: "string list \<Rightarrow> hist \<Rightarrow> bool" where
  "uids_distinct addrs h \<longleftrightarrow> distinct (uids addrs h)"

lemma records_snoc: "records addrs (h @ [ev]) = snd (store_step addrs (store addrs h) ev)"
  by (simp add: records_def store_def)

lemma records_kube: "\<not> is_http ev \<Longrightarrow> records addrs (h @ [ev]) = records addrs h"
  by (simp add: records_snoc store_step_def is_http_def split: event.splits) (simp_all add: records_def)

lemma records_lease:
  "records addrs (h @ [lease_request uid i]) =
     (case free_address addrs (records addrs h) of
        None \<Rightarrow> records addrs h
      | Some a \<Rightarrow> records addrs h @
          [\<lparr>nr_ID = word_of_nat (Suc (fst (store addrs h))), nr_Address = a, nr_UID = uid\<rparr>])"
  by (simp add: records_snoc store_step_def lease_request_def split: option.splits)
     (simp add: records_def)

lemma records_drop:
  "records addrs (h @ [drop_request i]) = filter (\<lambda>x. \<not> deletes_id (nr_ID x) (drop_request i)) (records addrs h)"
  by (simp add: records_snoc store_step_def drop_request_def) (simp add: records_def)

lemma uids_kube: "grows (\<lambda>ev. \<not> is_http ev) h h' \<Longrightarrow> uids addrs h' = uids addrs h"
proof -
  have "uids addrs (h @ t) = uids addrs h" if "list_all (\<lambda>ev. \<not> is_http ev) t" for t
    using that
  proof (induction t rule: rev_induct)
    case (snoc ev t)
    then show ?case using records_kube [of ev addrs "h @ t"] by (simp add: uids_def)
  qed simp
  then show "grows (\<lambda>ev. \<not> is_http ev) h h' \<Longrightarrow> uids addrs h' = uids addrs h"
    by (auto simp: grows_def)
qed

text \<open>Allocations for a claim are the only events that add a record of it.\<close>

definition allocates_for :: "string \<Rightarrow> event \<Rightarrow> bool" where
  "allocates_for u ev = (case ev of EHttp r \<Rightarrow> rq_Body r = Some (JStr u) | _ \<Rightarrow> False)"

definition others_leave :: "string \<Rightarrow> (hist \<Rightarrow> hist) \<Rightarrow> bool" where
  "others_leave u F \<longleftrightarrow> (\<forall>h. list_all (\<lambda>ev. \<not> allocates_for u ev) (F h))"

text \<open>If others leave the claim \<open>u\<close> alone, the store has at no moment held two records of it.\<close>

definition one_record :: "string list \<Rightarrow> (hist \<Rightarrow> hist) \<Rightarrow> string \<Rightarrow> hist \<Rightarrow> bool" where
  "one_record addrs F u h \<longleftrightarrow>
     (others_leave u F \<longrightarrow> (\<forall>w v. seen F h = w @ v \<longrightarrow> count_list (uids addrs w) u \<le> 1))"

lemma allocates_for_simps [simp]:
  "\<not> is_http ev \<Longrightarrow> \<not> allocates_for u ev" "\<not> allocates_for u (drop_request i)"
  "allocates_for u (lease_request u' i) \<longleftrightarrow> u' = u" "\<not> allocates_for u query_request"
  by (auto simp: allocates_for_def is_http_def drop_request_def lease_request_def query_request_def split: event.splits)

lemma count_list_filter: "count_list (map f (filter P xs)) u \<le> count_list (map f xs) u"
  by (induction xs) auto

lemma uids_step:
  assumes "\<not> allocates_for u ev"
  shows "count_list (uids addrs (w @ [ev])) u \<le> count_list (uids addrs w) u"
proof -
  have "count_list (map nr_UID (snd (store_step addrs st ev))) u \<le> count_list (map nr_UID (snd st)) u" for st
  proof (cases ev)
    case (EHttp r)
    with assms show ?thesis
      using count_list_filter [of nr_UID "\<lambda>x. \<not> deletes_id (nr_ID x) (EHttp r)" "snd st" u]
      by (auto simp: store_step_def allocates_for_def split: option.splits json.splits)
  qed (simp_all add: store_step_def)
  then show ?thesis by (simp add: uids_def records_snoc) (simp add: records_def)
qed

lemma uids_steps:
  "list_all (\<lambda>ev. \<not> allocates_for u ev) t \<Longrightarrow> count_list (uids addrs (w @ t)) u \<le> count_list (uids addrs w) u"
proof (induction t rule: rev_induct)
  case (snoc ev t)
  then show ?case using uids_step [of u ev addrs "w @ t"] by simp
qed simp

lemma one_record_step:
  assumes "one_record addrs F u h"
    and "others_leave u F \<Longrightarrow> count_list (uids addrs (seen F h @ [ev])) u \<le> 1"
  shows "one_record addrs F u (h @ [ev])"
  unfolding one_record_def
proof (intro impI allI)
  fix w v assume others: "others_leave u F" and "seen F (h @ [ev]) = w @ v"
  then have "seen F h @ ev # F (h @ [ev]) = w @ v" by (simp add: seen_snoc)
  then consider v' where "seen F h = w @ v'" | t where "w = (seen F h @ [ev]) @ t" "F (h @ [ev]) = t @ v"
    by (auto simp: append_eq_append_conv2 Cons_eq_append_conv)
  then show "count_list (uids addrs w) u \<le> 1"
  proof cases
    case 1
    with assms(1) others show ?thesis by (simp add: one_record_def)
  next
    case 2
    have "list_all (\<lambda>e. \<not> allocates_for u e) (F (h @ [ev]))" using others by (simp add: others_leave_def)
    with 2 have "list_all (\<lambda>e. \<not> allocates_for u e) t" by simp
    from uids_steps [OF this, of addrs "seen F h @ [ev]"] assms(2) [OF others] 2(1) show ?thesis by simp
  qed
qed

lemma one_record_now: "one_record addrs F u h \<Longrightarrow> others_leave u F \<Longrightarrow> count_list (uids addrs (seen F h)) u \<le> 1"
  by (simp add: one_record_def)

lemma one_record_other:
  assumes "\<not> allocates_for u ev" "one_record addrs F u h"
  shows "one_record addrs F u (h @ [ev])"
  using assms(2)
  by (rule one_record_step) (use uids_step [OF assms(1)] one_record_now [OF assms(2)] le_trans in blast)

lemma one_record_kube: "\<not> is_http ev \<Longrightarrow> one_record addrs F u h \<Longrightarrow> one_record addrs F u (h @ [ev])"
  by (rule one_record_other) simp_all

lemma one_record_lease:
  assumes "u' = u \<Longrightarrow> others_leave u F \<Longrightarrow> u \<notin> set (uids addrs (seen F h))" "one_record addrs F u h"
  shows "one_record addrs F u (h @ [lease_request u' i])"
proof (cases "u' = u")
  case True
  have "count_list (uids addrs (seen F h @ [lease_request u i])) u \<le> 1" if "others_leave u F"
    using assms(1) [OF True that]
    by (auto simp: uids_def records_lease count_list_0_iff [THEN iffD2] split: option.splits)
  with True show ?thesis using one_record_step [OF assms(2)] by simp
next
  case False
  then show ?thesis using assms(2) by (intro one_record_other) auto
qed

lemma kube_keeps_one: "grows (\<lambda>ev. \<not> is_http ev) h h' \<Longrightarrow> keeps (one_record addrs F u) h h'"
  by (erule keeps_grows) (rule one_record_kube)

lemma store_step_query [simp]: "store_step addrs st query_request = st"
  by (simp add: store_step_def query_request_def deletes_id_def)

lemma records_query [simp]: "records addrs (h @ [query_request]) = records addrs h"
  by (simp add: records_snoc) (simp add: records_def)

lemma find_uid_None:
  "List.find (\<lambda>x. nr_UID x = uid) (records addrs h) = None \<longleftrightarrow> uid \<notin> set (uids addrs h)"
  by (auto simp: uids_def find_None_iff)

lemma absent_step:
  assumes "u \<notin> set (uids addrs (seen F h))" "others_leave u F"
    and "count_list (uids addrs (seen F h @ [ev])) u \<le> count_list (uids addrs (seen F h)) u"
  shows "u \<notin> set (uids addrs (seen F (h @ [ev])))"
proof -
  have "count_list (uids addrs (seen F (h @ [ev]))) u \<le> count_list (uids addrs (seen F h @ [ev])) u"
    using uids_steps [of u "F (h @ [ev])" addrs "seen F h @ [ev]"] assms(2) by (simp add: seen_snoc others_leave_def)
  with assms(1,3) show ?thesis by (simp flip: count_list_0_iff)
qed

text \<open>The allocation loop: as long as prefixes are exhausted the store does not change, and the first
  success ends it.\<close>

lemma allocate_loop_keeps:
  "(ar_ClaimUID req = u \<Longrightarrow> others_leave u F \<Longrightarrow> u \<notin> set (uids addrs (seen F h))) \<Longrightarrow>
     holds (\<lambda>_ h'. keeps (one_record addrs F u) h h') (allocate_loop (shared_client addrs F) req ids h)"
proof (induction ids arbitrary: h)
  case (Cons i ids)
  let ?ev = "lease_request (ar_ClaimUID req) i"
  have h1: "keeps (one_record addrs F u) h (h @ [?ev])"
    using Cons.prems by (intro keeps_snoc one_record_lease)
  have "holds (\<lambda>_ h'. keeps (one_record addrs F u) h h') (allocate_loop (shared_client addrs F) req ids (h @ [?ev]))"
    if full: "free_address addrs (records addrs (seen F h)) = None"
  proof -
    have "u \<notin> set (uids addrs (seen F (h @ [?ev])))" if "ar_ClaimUID req = u" "others_leave u F"
      by (rule absent_step [OF Cons.prems [OF that] that(2)]) (use full in \<open>simp add: uids_def records_lease\<close>)
    then show ?thesis by (intro holds_mono [OF Cons.IH]) (use h1 in \<open>auto intro: keeps_trans\<close>)
  qed
  with h1 show ?case by simp
qed simp

lemma connect_store:
  assumes "nh_newClientFunc nh = (\<lambda>cfg. Inr C)"
  shows "holds (\<lambda>r h'. grows (\<lambda>ev. \<not> is_http ev) h h' \<and> (\<forall>C'. r = Inr C' \<longrightarrow> C' = C)) (connect E nh pool h)"
  unfolding connect_def holds_bind
  by (rule holds_mono [OF LoadConnectionConfig_holds]) (auto simp: assms is_http_def split: sum.splits)

lemma gatewayDetails_store: "holds (\<lambda>_ h'. h' = h) (gatewayDetails E pool (shared_client addrs F) spec ids h)"
  by (auto simp: gatewayDetails_def Let_def split: sum.splits)

lemma EnsureAddress_keeps:
  assumes "nh_newClientFunc nh = (\<lambda>cfg. Inr (shared_client addrs F))"
  shows "holds (\<lambda>_ h'. keeps (one_record addrs F u) h h') (EnsureAddress E nh a h)"
proof -
  let ?I = "one_record addrs F u" and ?C = "shared_client addrs F"
  have new: "holds (\<lambda>_ h'. keeps ?I h h') (allocate_new E ?C pool (nh_claim nh) a h1)"
    if "keeps ?I h h1" "om_UID (cl_meta (nh_claim nh)) = u \<Longrightarrow> others_leave u F \<Longrightarrow> u \<notin> set (uids addrs (seen F h1))" for pool h1
  proof -
    have loop: "holds (\<lambda>_ h'. keeps ?I h h')
        (allocate_loop ?C (allocation_request spec (nh_claim nh) md) ids h1)" for spec md ids
      by (rule holds_mono [OF allocate_loop_keeps [where u = u]])
         (use that in \<open>auto simp: allocation_request_def intro: keeps_trans\<close>)
    have gw: "holds (\<lambda>_ h'. keeps ?I h h') (gatewayDetails E pool ?C spec ids h2)" if "keeps ?I h h2" for spec ids h2
      by (rule holds_mono [OF gatewayDetails_store]) (use that in simp)
    show ?thesis
      using that(1) by (auto simp: allocate_new_def Let_def holds_bind
          intro!: holds_mono [OF loop] gw split: sum.splits option.splits)
  qed
  have body: "holds (\<lambda>_ h'. keeps ?I h h') (ensure_address_body E nh pool a h)" for pool
    unfolding ensure_address_body_def Let_def holds_bind prod.case
  proof (rule holds_mono [OF connect_store [OF assms]], goal_cases)
    case (1 r h1)
    then have h1: "keeps ?I h h1" by (simp add: kube_keeps_one)
    show ?case
    proof (cases r)
      case (Inr C)
      with 1 have C: "C = ?C" by simp
      have h2: "keeps ?I h (h1 @ [query_request])"
        by (rule keeps_trans [OF h1 keeps_snoc]) (simp add: one_record_other)
      then have gw: "holds (\<lambda>_ h'. keeps ?I h h') (gatewayDetails E pool ?C spec ids (h1 @ [query_request]))" for spec ids
        by (intro holds_mono [OF gatewayDetails_store]) simp
      show ?thesis
      proof (cases "List.find (\<lambda>x. nr_UID x = om_UID (cl_meta (nh_claim nh))) (records addrs (seen F h1))")
        case None
        then have "om_UID (cl_meta (nh_claim nh)) \<notin> set (uids addrs (seen F h1))" by (simp add: find_uid_None)
        then have "u \<notin> set (uids addrs (seen F (h1 @ [query_request])))"
          if "om_UID (cl_meta (nh_claim nh)) = u" "others_leave u F"
          by (intro absent_step uids_step) (use that in simp_all)
        with None h2 new show ?thesis by (simp add: Inr C)
      next
        case (Some x)
        with gw show ?thesis by (simp add: Inr C holds_bind)
      qed
    qed (simp add: h1)
  qed
  then show ?thesis
    by (auto simp: EnsureAddress_def holds_bind split: option.splits intro!: holds_mono [OF body])
qed

lemma ReleaseAddress_keeps:
  assumes "nh_newClientFunc nh = (\<lambda>cfg. Inr (shared_client addrs F))"
  shows "holds (\<lambda>_ h'. keeps (one_record addrs F u) h h') (ReleaseAddress E nh h)"
proof -
  let ?I = "one_record addrs F u"
  have snoc: "keeps ?I h (h1 @ [ev])" if "keeps ?I h h1" "\<not> allocates_for u ev" for h1 ev
    using that by (intro keeps_trans [OF that(1) keeps_snoc] one_record_other)
  have candidates: "holds (\<lambda>_ h'. keeps ?I h h') (find_by_candidates (shared_client addrs F) tag cs h1)"
    if "keeps ?I h h1" for tag cs h1
    using that by (induction cs arbitrary: h1) (auto simp: snoc split: option.splits)
  have pair: "keeps ?I h (h1 @ [query_request, drop_request i])" if "keeps ?I h h1" for h1 i
    using snoc [OF snoc [OF that, of query_request], of "drop_request i"] by simp
  have rel: "holds (\<lambda>_ h'. keeps ?I h h') (release_record (shared_client addrs F) spec claim k8s h1)"
    if "keeps ?I h h1" for spec claim k8s h1
    using that
    by (auto simp: release_record_def findExistingNetBoxIP_def holds_bind snoc pair intro!: holds_mono [OF candidates]
        split: sum.splits option.splits)
  have get: "grows (\<lambda>ev. \<not> is_http ev) h (h @ [EGetAddress ns n])" for ns n by simp
  have rest: "holds (\<lambda>_ h'. keeps (one_record addrs F u) h h')
      (Option.bind (connect E nh pool (h @ [EGetAddress ns n])) (\<lambda>(c, h2). case c of
         Inl e \<Rightarrow> Some ((None, Some e), h2)
       | Inr C \<Rightarrow> release_record C (PoolSpec any_pool_ops pool) (nh_claim nh) k8s h2))" for pool ns n k8s
    unfolding holds_bind prod.case
  proof (rule holds_mono [OF connect_store [OF assms]], goal_cases)
    case (1 r h2)
    then have "keeps (one_record addrs F u) h h2"
      using grows_trans [OF get] kube_keeps_one by blast
    with 1 rel show ?case by (cases r) auto
  qed
  have "keeps (one_record addrs F u) h (h @ [EGetAddress ns n])" for ns n
    by (rule kube_keeps_one [OF get])
  then have body: "holds (\<lambda>_ h'. keeps (one_record addrs F u) h h') (release_address_body E nh pool h)" for pool
    by (simp add: release_address_body_def Let_def call_def rest split: sum.splits)
  show ?thesis
    by (auto simp: ReleaseAddress_def holds_bind split: option.splits intro!: holds_mono [OF body])
qed

definition shared_adapter :: "string list \<Rightarrow> (hist \<Rightarrow> hist) \<Rightarrow> NetBoxProviderAdapter" where
  "shared_adapter addrs F = \<lparr>pa_NewClient = Some (\<lambda>cfg. Inr (shared_client addrs F)), pa_RequestTimeout = 0\<rparr>"

definition store_adapter :: "string list \<Rightarrow> NetBoxProviderAdapter" where
  "store_adapter addrs = \<lparr>pa_NewClient = Some (\<lambda>cfg. Inr (store_client addrs)), pa_RequestTimeout = 0\<rparr>"

lemma store_adapter_shared: "store_adapter addrs = shared_adapter addrs alone"
  by (simp add: store_adapter_def shared_adapter_def store_client_def)

lemma shared_adapter_factory: "pa_NewClient (shared_adapter addrs F) = Some g \<Longrightarrow> client_factory g"
  using store_factory.client_factory_axioms by (auto simp: shared_adapter_def)

lemma shared_handler:
  "valid_handler E (shared_adapter addrs F) c nh \<Longrightarrow> nh_newClientFunc nh = (\<lambda>cfg. Inr (shared_client addrs F))"
  by (auto simp: valid_handler_def ClaimHandlerFor_def new_client_func_def shared_adapter_def)

interpretation store_loop: keeping_handler "netbox_handler_ops E" "valid_handler E (shared_adapter addrs F)"
    ready_handler "one_record addrs F u" for E addrs F u
proof (unfold_locales, goal_cases)
  case (1 ev h)
  then show ?case by (rule one_record_kube)
next
  case (2 c nh h)
  have "holds (\<lambda>_ h'. grows (\<lambda>ev. \<not> is_http ev) h h') (FetchPool E nh h)"
    by (auto simp: FetchPool_def Let_def holds_simps is_http_def split: sum.splits)
  then have "holds (\<lambda>_ h'. keeps (one_record addrs F u) h h') (FetchPool E nh h)"
    by (rule holds_mono) (rule kube_keeps_one)
  then show ?case by (simp add: netbox_handler_ops_def)
next
  case (3 c nh a h)
  then show ?case by (simp add: netbox_handler_ops_def EnsureAddress_keeps [OF shared_handler])
next
  case (4 c nh h)
  then show ?case by (simp add: netbox_handler_ops_def ReleaseAddress_keeps [OF shared_handler])
qed

lemma shared_Reconcile_keeps:
  "holds (\<lambda>_ h'. keeps (one_record addrs F u) h h')
     (Reconcile E b (netbox_adapter E (shared_adapter addrs F)) ns name h)"
  by (rule store_loop.Reconcile_keeps [OF netbox_adapter_valid [OF shared_adapter_factory]]) simp_all

section \<open>Sequences of reconciles\<close>

text \<open>The histories that reconciles of any claims can lead to, from an empty store: each reconcile
  sees some state of Kubernetes, may stop after any of its events, and others do what they want to
  Kubernetes in between.\<close>

inductive reachable :: "string list \<Rightarrow> hist \<Rightarrow> bool" for addrs where
  start: "reachable addrs []"
| kube: "reachable addrs h \<Longrightarrow> \<not> is_http ev \<Longrightarrow> reachable addrs (h @ [ev])"
| reconcile: "reachable addrs h \<Longrightarrow>
    Reconcile E b (netbox_adapter E (store_adapter addrs)) ns name h = Some (r, h @ t @ u) \<Longrightarrow>
    reachable addrs (h @ t)"

lemma distinct_count: "(\<And>x. count_list xs x \<le> 1) \<Longrightarrow> distinct xs"
proof (induction xs)
  case (Cons y xs)
  have "count_list xs x \<le> 1" for x using Cons.prems [of x] by (simp split: if_splits)
  moreover have "count_list xs y = 0" using Cons.prems [of y] by simp
  ultimately show ?case using Cons.IH by (simp add: count_list_0_iff)
qed simp

lemma reachable_one_record: "reachable addrs h \<Longrightarrow> one_record addrs alone u h"
proof (induction rule: reachable.induct)
  case start
  then show ?case by (simp add: one_record_def uids_def records_def store_def)
next
  case (kube h ev)
  then show ?case by (simp add: one_record_kube)
next
  case (reconcile h E b ns name r t v)
  have "keeps (one_record addrs alone u) h (h @ t @ v)"
    by (rule holdsD [OF shared_Reconcile_keeps]) (use reconcile.hyps(2) in \<open>simp add: store_adapter_shared\<close>)
  then show ?case using reconcile.IH by (rule keeps_prefix)
qed

lemma reachable_distinct: "reachable addrs h \<Longrightarrow> uids_distinct addrs h"
  unfolding uids_distinct_def
  by (rule distinct_count) (use one_record_now [OF reachable_one_record, of addrs h] in \<open>simp add: others_leave_def\<close>)

end
