(* ===== verification/Pool_Properties.thy ===== *)
theory Pool_Properties
  imports Pool_Facts
begin

text \<open>
  The properties of the pool reconcilers, with their witnesses: concrete pools in an environment
  where NetBox is unreachable and no address is listed.
\<close>

section \<open>Concrete pools\<close>

definition sample_spec :: NetBoxIPPoolSpec where
  "sample_spec =
     \<lparr>ps_ClusterName = [], ps_ConnectionSecretRef = \<lparr>sr_Name = ''s'', sr_Namespace = []\<rparr>,
      ps_Prefixes = [\<lparr>pr_ID = Some 7, pr_CIDR = [], pr_VRFID = None, pr_Gateway = ''10.0.0.1''\<rparr>],
      ps_MetadataDefaults = \<lparr>md_TenantID = None, md_VRFID = None, md_DNSName = [], md_Tags = [],
                             md_CustomFields = []\<rparr>,
      ps_OwnershipTag = [], ps_ClaimUIDCustomField = [], ps_IPAddressStatus = [],
      ps_Gateway = [], ps_GatewayCustomField = []\<rparr>"

definition sample_status :: NetBoxIPPoolStatus where
  "sample_status =
     \<lparr>st_ObservedGeneration = 1, st_Addresses = None, st_ResolvedPrefixes = [5],
      st_ResolvedPrefixDetails = [], st_Conditions = []\<rparr>"

definition sample_meta :: "bool \<Rightarrow> object_meta" where
  "sample_meta deleting = empty_meta\<lparr>om_Name := ''p'', om_Namespace := ''ns'', om_Generation := 2,
     om_Finalizers := [poolFinalizer], om_Deleting := deleting\<rparr>"

definition sample_pool :: "bool \<Rightarrow> NetBoxIPPool" where
  "sample_pool deleting =
     \<lparr>np_gvk = \<lparr>gvk_Group = GroupVersion_Group, gvk_Version = GroupVersion_Version,
               gvk_Kind = NetBoxIPPoolKind\<rparr>,
      np_meta = sample_meta deleting, np_Spec = sample_spec, np_Status = sample_status\<rparr>"

definition sample_gpool :: "bool \<Rightarrow> GlobalNetBoxIPPool" where
  "sample_gpool deleting =
     \<lparr>gp_gvk = \<lparr>gvk_Group = GroupVersion_Group, gvk_Version = GroupVersion_Version,
               gvk_Kind = GlobalNetBoxIPPoolKind\<rparr>,
      gp_meta = (sample_meta deleting)\<lparr>om_Namespace := []\<rparr>,
      gp_Spec = \<lparr>gs_inline = sample_spec\<rparr>, gp_Status = sample_status\<rparr>"

definition sample_reconciler :: pool_reconciler where
  "sample_reconciler =
     \<lparr>rc_base = \<lparr>cb_HasRecorder = True\<rparr>, rc_NewClient = None, rc_RequestTimeout = 0\<rparr>"

definition idle_env :: env where
  "idle_env = dead_env\<lparr>list_addresses := (\<lambda>h k ns. Inr []), patch_pool := (\<lambda>h p q. None),
     get_pool := (\<lambda>h ns n. Inr (sample_pool True)),
     get_global_pool := (\<lambda>h n. Inr (sample_gpool True))\<rparr>"

lemma idle_finalizers: "finalizers_ok idle_env"
  using dead_env_finalizers by (simp add: idle_env_def finalizers_ok_def)

lemmas idle_simps =
  idle_env_def dead_env_def sample_pool_def sample_gpool_def sample_meta_def sample_spec_def
  sample_status_def empty_meta_def NetBoxIPPool_ops_def GlobalNetBoxIPPool_ops_def any_pool_ops_def

lemmas pool_eval =
  call_def call_ok_def idle_simps reconcilePoolStatus_def listAddressesInUse_def
  safeAllocatedCount_ok [of 0, simplified] Let_def resolvePoolPrefixes_def LoadConnectionConfig_def
  new_client_func_def finish_pool_def ensureClusterNameLabel_def deferred_pool_patch_def
  set_finalizers_def setPoolReadyCondition_def setConditionFalse_def secret_namespace_def
  join_patch_error_def IPPoolRefValue_def NetBoxIPPoolKind_def GlobalNetBoxIPPoolKind_def
  sample_reconciler_def

section \<open>Finalizer\<close>

text \<open>C16: for every Kubernetes API server and every NetBox server, the only write a reconcile of a
  NetBoxIPPool makes is the patch of that pool, it sends no request that allocates or deletes an
  address, and a patch that takes the protection finalizer off is of a pool that is being deleted
  and for which the index lists no allocated IPAddress.\<close>

theorem pool_finalizer_guard:
  assumes "finalizers_ok E" "\<And>g. rc_NewClient r = Some g \<Longrightarrow> client_factory g"
  shows "holds (\<lambda>_ h'. \<forall>ev \<in> set (added h h'). calm ev \<or>
      (\<exists>p p'. ev = EPatchPool (NamespacedPool p) (NamespacedPool p') \<and>
        (poolFinalizer \<in> set (om_Finalizers (np_meta p)) \<longrightarrow>
         poolFinalizer \<notin> set (om_Finalizers (np_meta p')) \<longrightarrow>
         om_Deleting (np_meta p) \<and>
         (\<exists>h1. list_addresses E h1 (IPPoolRefValue \<lparr>plr_APIGroup = GroupVersion_Group,
            plr_Kind = NetBoxIPPoolKind, plr_Name = om_Name (np_meta p)\<rparr>) (om_Namespace (np_meta p)) = Inr []))))
    (NetBoxIPPool_Reconcile E r namespace name h)"
proof -
  have "holds (\<lambda>_ h'. one_patch NamespacedPool (\<lambda>h1 p p'. finalizer_guarded NetBoxIPPool_ops p p'
      (fst (the (listAddressesInUse E (om_Namespace (np_meta p)) NetBoxIPPoolKind (om_Name (np_meta p)) h1)))) h h')
    (NetBoxIPPool_Reconcile E r namespace name h)"
    using npool.reconcilePoolStatus_finalizer [OF new_client_factory [OF assms(2)] assms(1)]
    by (intro NetBoxIPPool_Reconcile_one_patch) simp
  then show ?thesis
    by (rule holds_mono)
       (fastforce dest!: one_patch_events simp: finalizer_guarded_def dest: listAddressesInUse_Inr)
qed

theorem pool_finalizer_guard_witness:
  "\<exists>p p'. EPatchPool (NamespacedPool p) (NamespacedPool p') \<in>
       set (snd (the (NetBoxIPPool_Reconcile idle_env sample_reconciler ''ns'' ''p'' []))) \<and>
     poolFinalizer \<in> set (om_Finalizers (np_meta p)) \<and>
     poolFinalizer \<notin> set (om_Finalizers (np_meta p')) \<and> om_Deleting (np_meta p)"
proof -
  obtain p p' where run: "NetBoxIPPool_Reconcile idle_env sample_reconciler ''ns'' ''p'' [] =
    Some ((no_requeue, None), [EGetPool ''ns'' ''p'', ENewPatchHelper ''p'',
      EListAddresses ''NetBoxIPPool/p'' ''ns'', EGetSecret ''ns'' ''s'',
      EPatchPool (NamespacedPool p) (NamespacedPool p')])"
    and fs: "om_Finalizers (np_meta p) = [poolFinalizer]" "om_Finalizers (np_meta p') = []"
    by (simp add: NetBoxIPPool_Reconcile_def pool_eval)
  have "\<And>g. rc_NewClient sample_reconciler = Some g \<Longrightarrow> client_factory g"
    by (simp add: sample_reconciler_def)
  from pool_finalizer_guard [where r = sample_reconciler, OF idle_finalizers this,
      where namespace = "''ns''" and name = "''p''" and h = "[]"] fs
  have "om_Deleting (np_meta p)"
    by (simp add: run added_def)
  with run fs show ?thesis by auto
qed

section \<open>Deletion\<close>



section \<open>Resolution\<close>

text \<open>C19: a failed re-resolution is forgotten. A pool that has a cached resolution and a new
  generation is reconciled; the resolution of the new spec fails, so the reconcile returns an
  error, but it has already recorded the new generation as observed and kept the old prefixes.
  The next reconcile of the pool it wrote then sends no request at all to NetBox, returns no
  error and sets Ready=True with the prefixes of the old spec, although no reconcile has ever
  resolved the new one.\<close>

theorem stale_resolution_becomes_ready:
  assumes "client_factory f" "\<not> om_Deleting (np_meta pool)"
    and "st_ResolvedPrefixes (np_Status pool) \<noteq> []"
    and "reconcilePoolStatus E NetBoxIPPool_ops rec f timeout kind pool h = Some ((Some e, pool1), h1)"
    and "listAddressesInUse E (om_Namespace (np_meta pool)) kind (om_Name (np_meta pool)) h
      = Some (Inr as, ha)" "length as < 2 ^ 31"
    and "reconcilePoolStatus E NetBoxIPPool_ops rec f timeout kind pool1 h2 = Some ((err2, pool2), h3)"
    and "listAddressesInUse E (om_Namespace (np_meta pool)) kind (om_Name (np_meta pool)) h2
      = Some (Inr bs, hb)" "length bs < 2 ^ 31"
  shows "err2 = None \<and> grows (\<lambda>ev. \<not> is_http ev) h2 h3 \<and>
    map co_Status (st_Conditions (np_Status pool2)) = [ConditionTrue] \<and>
    np_Spec pool2 = np_Spec pool \<and>
    st_ResolvedPrefixes (np_Status pool2) = st_ResolvedPrefixes (np_Status pool)"
proof -
  obtain rerr where 1: "pool_reconciled E NetBoxIPPool_ops pool (length as) rerr (Some e) pool1"
    using npool.reconcilePoolStatus_holds [OF assms(1) _ assms(6), where pool = pool and rec = rec and
        timeout = timeout, simplified, OF assms(5)] assms(4) by (auto dest!: holdsD)
  then have pool1: "\<not> needs_resolve NetBoxIPPool_ops pool1" "\<not> om_Deleting (np_meta pool1)"
    "om_Namespace (np_meta pool1) = om_Namespace (np_meta pool)"
    "om_Name (np_meta pool1) = om_Name (np_meta pool)"
    "st_ResolvedPrefixes (np_Status pool1) = st_ResolvedPrefixes (np_Status pool)"
    "np_Spec pool1 = np_Spec pool"
    using assms(2,3) by (auto simp: pool_reconciled_def needs_resolve_def resolution_ok_def Let_def
        split: if_splits)
  obtain rerr2 where 2: "pool_reconciled E NetBoxIPPool_ops pool1 (length bs) rerr2 err2 pool2"
    using npool.reconcilePoolStatus_holds [OF assms(1) _ assms(9), where pool = pool1 and rec = rec and
        timeout = timeout, simplified, unfolded pool1, OF assms(8)] assms(7) by (auto dest!: holdsD)
  have "grows (\<lambda>ev. \<not> is_http ev) h2 h3"
    using npool.reconcilePoolStatus_cached [OF pool1(1)] assms(7) by (fastforce dest!: holdsD)
  with 2 pool1 show ?thesis
    by (auto simp: pool_reconciled_def resolution_ok_def ready_conditions_def Let_def split: if_splits)
qed

text \<open>The pool of \<open>sample_pool\<close>: generation 2 asks for prefix 7, the cache holds prefix 5 of
  generation 1, and NetBox's connection secret cannot be read.\<close>

theorem stale_resolution_becomes_ready_witness:
  "\<exists>e pool1 h1 pool2 h3.
     reconcilePoolStatus idle_env NetBoxIPPool_ops None (NewClient idle_env) 0 NetBoxIPPoolKind
       (sample_pool False) [] = Some ((Some e, pool1), h1) \<and>
     reconcilePoolStatus idle_env NetBoxIPPool_ops None (NewClient idle_env) 0 NetBoxIPPoolKind
       pool1 h1 = Some ((None, pool2), h3) \<and>
     map co_Status (st_Conditions (np_Status pool2)) = [ConditionTrue] \<and>
     map pr_ID (ps_Prefixes (np_Spec pool2)) = [Some 7] \<and> st_ResolvedPrefixes (np_Status pool2) = [5]"
proof -
  obtain e pool1 h1 where 1: "reconcilePoolStatus idle_env NetBoxIPPool_ops None (NewClient idle_env) 0
      NetBoxIPPoolKind (sample_pool False) [] = Some ((Some e, pool1), h1)"
    and "\<not> needs_resolve NetBoxIPPool_ops pool1"
    by (simp add: pool_eval needs_resolve_def)
  obtain err2 pool2 h3 where 2: "reconcilePoolStatus idle_env NetBoxIPPool_ops None (NewClient idle_env) 0
      NetBoxIPPoolKind pool1 h1 = Some ((err2, pool2), h3)"
    using npool.reconcilePoolStatus_cached_total [OF \<open>\<not> needs_resolve NetBoxIPPool_ops pool1\<close>]
    by fastforce
  have "listAddressesInUse idle_env (om_Namespace (np_meta (sample_pool False))) NetBoxIPPoolKind
      (om_Name (np_meta (sample_pool False))) h = Some (Inr [], h @ [EListAddresses ''NetBoxIPPool/p'' ''ns''])" for h
    by (simp add: pool_eval)
  from stale_resolution_becomes_ready [OF newclient.client_factory_axioms _ _ 1 this _ 2 this]
  have "err2 = None \<and> map co_Status (st_Conditions (np_Status pool2)) = [ConditionTrue] \<and>
      np_Spec pool2 = sample_spec \<and> st_ResolvedPrefixes (np_Status pool2) = [5]"
    by (simp add: idle_simps)
  with 1 2 show ?thesis by (auto simp: sample_spec_def)
qed

text \<open>C20: the cached resolution is aligned with the prefixes it was made from. Whenever
  buildResolvedPrefixes succeeds there is one entry per prefix ID, in order, each with the CIDR
  NetBox reported for that ID, and with the gateway that ResolveGateway derives from the custom
  field of that prefix, the static gateway of the spec entry at the same index and the pool-wide
  gateway; a gateway that is set is the canonical text of an address of the prefix's family.\<close>

theorem build_resolved_aligned:
  assumes "buildResolvedPrefixes E spec ids fetched = Inr (resolved, inRangeIDs)"
  shows "map rp_ID resolved = ids \<and> list_all gateway_ok resolved \<and>
    (\<forall>k < length ids. rp_CIDR (resolved ! k) = pd_CIDR (detail_by_id fetched (ids ! k)) \<and>
       (\<exists>inr. ResolveGateway (rp_CIDR (resolved ! k))
          (CustomFieldString (float_text E) (pd_CustomFields (detail_by_id fetched (ids ! k)))
             (ps_GatewayCustomField spec))
          (if k < length (ps_Prefixes spec) then pr_Gateway (ps_Prefixes spec ! k) else [])
          (ps_Gateway spec) = Inr (rp_Gateway (resolved ! k), inr)))"
proof -
  have "rp_CIDR (resolved ! k) = pd_CIDR (detail_by_id fetched (ids ! k)) \<and>
       (\<exists>inr. ResolveGateway (rp_CIDR (resolved ! k))
          (CustomFieldString (float_text E) (pd_CustomFields (detail_by_id fetched (ids ! k)))
             (ps_GatewayCustomField spec))
          (if k < length (ps_Prefixes spec) then pr_Gateway (ps_Prefixes spec ! k) else [])
          (ps_Gateway spec) = Inr (rp_Gateway (resolved ! k), inr))" if "k < length ids" for k
    using build_loop_Inr [OF assms [unfolded buildResolvedPrefixes_def]] that
    by (fastforce dest: resolve_one_gateway simp: per_prefix_static_def)
  with buildResolvedPrefixes_ok [OF assms] show ?thesis by blast
qed

text \<open>Addresses of a concrete prefix.\<close>

lemma parse_10_0_0_0: "parse_addr ''10.0.0.0'' = Some (V4 167772160)"
  by (simp add: parse_addr_def parse_ipv4_fields_def parse_octet_def is_digit_def digit_val_def
      byte_def quad_word_def)

lemma parse_10_0_0_1: "parse_addr ''10.0.0.1'' = Some (V4 167772161)"
  by (simp add: parse_addr_def parse_ipv4_fields_def parse_octet_def is_digit_def digit_val_def
      byte_def quad_word_def)

lemma parse_10_0_0_0_24: "parse_prefix ''10.0.0.0/24'' = Some (IPPrefix (V4 167772160) 24)"
  by (simp add: parse_prefix_def parse_10_0_0_0 has_zone_def parse_int_def is_digit_def digit_val_def
      byte_def less_eq_char_def max_bits_def is4_def)

lemma show_10_0_0_1: "show_addr (V4 167772161) = ''10.0.0.1''"
  by (simp add: show_addr_def show_ipv4_def octet_def digit_char_def show_nat.simps, code_simp)

lemma trim_10:
  "trim_space ''10.0.0.1'' = ''10.0.0.1''" "trim_space ''10.0.0.0/24'' = ''10.0.0.0/24''"
  by (rule trim_space_graphic; auto simp: is_graphic_def less_eq_char_def)+

lemma ResolveGateway_10:
  "ResolveGateway ''10.0.0.0/24'' [] ''10.0.0.1'' [] = Inr (''10.0.0.1'', True)"
  by (simp add: ResolveGateway_def parse_10_0_0_1 parse_10_0_0_0_24 show_10_0_0_1 trim_10 is4_def
      prefix_addr_def prefix_contains_v4)

lemma build_sample:
  "buildResolvedPrefixes idle_env sample_spec [7]
     [\<lparr>pd_ID = 7, pd_CIDR = ''10.0.0.0/24'', pd_CustomFields = []\<rparr>] =
   Inr ([\<lparr>rp_ID = 7, rp_CIDR = ''10.0.0.0/24'', rp_Gateway = ''10.0.0.1''\<rparr>], [7])"
  by (simp add: buildResolvedPrefixes_def resolve_one_def detail_by_id_def per_prefix_static_def
      sample_spec_def CustomFieldString_def ResolveGateway_10)

theorem build_resolved_aligned_witness:
  "gateway_ok \<lparr>rp_ID = 7, rp_CIDR = ''10.0.0.0/24'', rp_Gateway = ''10.0.0.1''\<rparr>"
  using build_resolved_aligned [OF build_sample] by simp

end
