(* ===== verification/Claim_Properties.thy ===== *)
theory Claim_Properties
  imports Claim_Reconciler_Facts Pool_Properties
begin

text \<open>
  The properties of the claim handler and of the claim reconcile loop with the NetBox provider,
  with their witnesses: concrete claims in environments with a scripted NetBox.
\<close>

section \<open>A concrete provider\<close>

text \<open>A NetBox that is kept as a history: an allocation appends its request, and the lookup by claim
  UID finds a record once one was allocated.\<close>

definition fake_record :: AllocatedAddress where
  "fake_record = \<lparr>aa_ID = 9, aa_Address = ''10.0.0.5'', aa_Prefix = 24, aa_DNSName = []\<rparr>"

definition fake_request :: "string \<Rightarrow> string \<Rightarrow> event" where
  "fake_request m u = EHttp \<lparr>rq_Method = m, rq_URL = u, rq_Headers = [], rq_Body = None\<rparr>"

definition fake_client :: nb_client where
  "fake_client =
     \<lparr>nbResolvePrefixIDs = (\<lambda>refs h. Some (Inl (Errorf ''offline'' []), h)),
      nbGetPrefixDetails = (\<lambda>ids h. Some (Inl (Errorf ''offline'' []), h)),
      nbEnsureIPAddressCustomField = (\<lambda>f h. Some (Inr (), h)),
      nbAllocateIPAddress = (\<lambda>i req h.
        Some (Inr fake_record, h @ [fake_request ''POST'' (available_ips_path i)])),
      nbFindIPAddressByClaimUID = (\<lambda>tag f uid h.
        Some (Inr (if list_ex is_alloc h then Some fake_record else None), h)),
      nbFindIPAddressByAddress = (\<lambda>tag a h. Some (Inr None, h)),
      nbDeleteIPAddress = (\<lambda>i h. Some (Inr (), h @ [fake_request ''DELETE'' (address_path i)]))\<rparr>"

lemma fake_alloc: "allocates_from i (fake_request ''POST'' (available_ips_path i))"
  by (simp add: allocates_from_def fake_request_def has_suffix_append [of "[]", simplified])

lemma fake_delete: "deletes_id i (fake_request ''DELETE'' (address_path i))"
  by (simp add: deletes_id_def fake_request_def has_suffix_append [of "[]", simplified])

lemma fake_fields [simp]:
  "nbResolvePrefixIDs fake_client refs h = Some (Inl (Errorf ''offline'' []), h)"
  "nbGetPrefixDetails fake_client ids h = Some (Inl (Errorf ''offline'' []), h)"
  "nbEnsureIPAddressCustomField fake_client f h = Some (Inr (), h)"
  "nbAllocateIPAddress fake_client i req h =
     Some (Inr fake_record, h @ [fake_request ''POST'' (available_ips_path i)])"
  "nbFindIPAddressByClaimUID fake_client tag f uid h =
     Some (Inr (if list_ex is_alloc h then Some fake_record else None), h)"
  "nbFindIPAddressByAddress fake_client tag a h = Some (Inr None, h)"
  "nbDeleteIPAddress fake_client i h =
     Some (Inr (), h @ [fake_request ''DELETE'' (address_path i)])"
  by (simp_all add: fake_client_def)

interpretation fake: netbox_client fake_client
proof (unfold_locales, goal_cases)
  case 4
  then show ?case
    using fake_alloc allocates_from_is_alloc [OF fake_alloc] by simp
next
  case 7
  then show ?case using fake_delete by simp
qed simp_all

text \<open>The same with no address left.\<close>

definition full_client :: nb_client where
  "full_client = fake_client\<lparr>nbAllocateIPAddress := (\<lambda>i req h.
     Some (Inl ErrNoAvailableIP, h @ [fake_request ''POST'' (available_ips_path i)]))\<rparr>"

lemma full_fields [simp]:
  "nbResolvePrefixIDs full_client refs h = Some (Inl (Errorf ''offline'' []), h)"
  "nbGetPrefixDetails full_client ids h = Some (Inl (Errorf ''offline'' []), h)"
  "nbEnsureIPAddressCustomField full_client f h = Some (Inr (), h)"
  "nbAllocateIPAddress full_client i req h =
     Some (Inl ErrNoAvailableIP, h @ [fake_request ''POST'' (available_ips_path i)])"
  "nbFindIPAddressByClaimUID full_client tag f uid h =
     Some (Inr (if list_ex is_alloc h then Some fake_record else None), h)"
  "nbFindIPAddressByAddress full_client tag a h = Some (Inr None, h)"
  "nbDeleteIPAddress full_client i h =
     Some (Inr (), h @ [fake_request ''DELETE'' (address_path i)])"
  by (simp_all add: full_client_def fake_client_def)

interpretation full: netbox_client full_client
proof (unfold_locales, goal_cases)
  case 4
  then show ?case
    using fake_alloc allocates_from_is_alloc [OF fake_alloc] by simp
next
  case 7
  then show ?case using fake_delete by simp
qed simp_all

interpretation fulls: client_factory "\<lambda>cfg. Inr full_client"
  by (rule client_factory.intro) (auto intro: full.netbox_client_axioms)

interpretation fakes: client_factory "\<lambda>cfg. Inr fake_client"
  by (rule client_factory.intro) (auto intro: fake.netbox_client_axioms)

definition fake_adapter :: NetBoxProviderAdapter where
  "fake_adapter = \<lparr>pa_NewClient = Some (\<lambda>cfg. Inr fake_client), pa_RequestTimeout = 0\<rparr>"

definition silent :: ControllerBase where
  "silent = \<lparr>cb_HasRecorder = False\<rparr>"


lemma fake_adapter_factory: "pa_NewClient fake_adapter = Some g \<Longrightarrow> client_factory g"
  using fakes.client_factory_axioms by (auto simp: fake_adapter_def)

definition full_adapter :: NetBoxProviderAdapter where
  "full_adapter = \<lparr>pa_NewClient = Some (\<lambda>cfg. Inr full_client), pa_RequestTimeout = 0\<rparr>"

lemma full_adapter_factory: "pa_NewClient full_adapter = Some g \<Longrightarrow> client_factory g"
  using fulls.client_factory_axioms by (auto simp: full_adapter_def)

definition sample_claim :: "bool \<Rightarrow> IPAddressClaim" where
  "sample_claim deleting =
     \<lparr>cl_meta = empty_meta\<lparr>om_Name := ''c'', om_Namespace := ''ns'', om_UID := ''u1'',
        om_Finalizers := [ReleaseAddressFinalizer], om_Deleting := deleting\<rparr>,
      cl_ClusterName = [], cl_PoolRef = \<lparr>plr_APIGroup = GroupVersion_Group,
        plr_Kind = NetBoxIPPoolKind, plr_Name = ''p''\<rparr>,
      cl_AddressRef = [], cl_Conditions = []\<rparr>"

definition own_pool :: "client_object \<Rightarrow> owner_ref" where
  "own_pool ob = \<lparr>or_APIVersion = gv_string (ob_gvk ob), or_Kind = gvk_Kind (ob_gvk ob),
     or_Name = om_Name (ob_meta ob), or_UID = om_UID (ob_meta ob), or_Controller = None,
     or_BlockOwnerDeletion = None\<rparr>"

definition claim_env :: "bool \<Rightarrow> env" where
  "claim_env deleting = idle_env\<lparr>get_claim := (\<lambda>h ns n. Inr (sample_claim deleting)),
     get_pool := (\<lambda>h ns n. Inr (sample_pool False)),
     get_secret := (\<lambda>h ns n. Inr [(SecretKeyURL, ''https://nb''), (SecretKeyToken, ''t'')]),
     fetch_address := (\<lambda>h ns n. Inr None), write_address := (\<lambda>h old new. Inr (new, OpCreated)),
     get_address := (\<lambda>h ns n. Inr (empty_address\<lparr>ip_meta := empty_meta\<lparr>om_Name := ''c'', om_Namespace := ''ns''\<rparr>\<rparr>)),
     delete_address := (\<lambda>h ns n. None), patch_claim := (\<lambda>h c d. None),
     SetOwnerReference := (\<lambda>ob rs. Inr (rs @ [own_pool ob]))\<rparr>"

lemma claim_env_finalizers: "finalizers_ok (claim_env d)"
  using dead_env_finalizers by (simp add: claim_env_def idle_env_def finalizers_ok_def)

lemma kube_not_request [simp]:
  "\<not> is_alloc (EGetClaim ns n)" "\<not> is_alloc (EGetPool ns n)" "\<not> is_alloc (ENewPatchHelper n)"
  "\<not> is_alloc (EFetchAddress ns n)" "\<not> is_alloc (EGetSecret ns n)" "\<not> is_alloc (EGetAddress ns n)"
  "\<not> is_alloc (EWriteAddress x y)" "\<not> is_alloc (EDeleteAddress ns n)"
  "\<not> is_delete (EGetClaim ns n)" "\<not> is_delete (EGetPool ns n)" "\<not> is_delete (ENewPatchHelper n)"
  "\<not> is_delete (EFetchAddress ns n)" "\<not> is_delete (EGetSecret ns n)" "\<not> is_delete (EGetAddress ns n)"
  "\<not> is_delete (EWriteAddress x y)" "\<not> is_delete (EDeleteAddress ns n)"
  by (simp_all add: is_alloc_def is_delete_def)

lemma fake_request_kinds [simp]:
  "is_alloc (fake_request ''POST'' (available_ips_path i))"
  "\<not> is_alloc (fake_request ''DELETE'' (address_path i))"
  "is_delete (fake_request ''DELETE'' (address_path i))"
  using allocates_from_is_alloc [OF fake_alloc] deletes_id_is_delete [OF fake_delete] by blast+

lemma patch_not_request [simp]: "EPatchClaim c d \<noteq> fake_request m u"
  by (simp add: fake_request_def)

lemmas request_simps = alloc_events_def delete_events_def

lemma metadata_plain:
  "om_Annotations (cl_meta c) = [] \<Longrightarrow> EffectivePoolMetadata d c =
     Inr \<lparr>em_TenantID = md_TenantID d, em_VRFID = md_VRFID d, em_DNSName = md_DNSName d,
          em_Tags = md_Tags d, em_CustomFields = maps_copy [] (md_CustomFields d)\<rparr>"
  by (simp add: EffectivePoolMetadata_def override_int32_def override_custom_fields_def annotation_set_def)

lemmas claim_eval =
  pool_eval claim_env_def sample_claim_def Reconcile_def getLinkedCluster_def reconcile_patched_def
  reconcileClaimAddress_def netbox_adapter_def netbox_handler_ops_def ClaimHandlerFor_def
  fake_adapter_def full_adapter_def poolExhaustedRequeueAfter_def unwrapResult_def FetchPool_def ensureAddress_def create_or_patch_def NewIPAddress_def
  mutate_address_def EnsureAddress_def ensure_address_body_def connect_def config_of_secret_def
  secret_value_def SecretKeyURL_def SecretKeyToken_def SecretKeyInsecureSkipVerify_def
  SecretKeyCABundle_def request_simps reconcileDelete_def
  delete_ip_address_def ReleaseAddress_def release_address_body_def release_record_def
  findExistingNetBoxIP_def silent_def allocate_new_def metadata_plain
  gatewayDetails_def sanitize_result_def set_allocation_def fake_record_def
  ensureIPAddressOwnerReferences_def own_pool_def is_pool_ref_def pool_object_def finish_claim_def
  RecordNormal_def recordEvent_def emit_def set_claim_finalizers_def setClaimReady_def protect_address_def
  copy_cluster_label_def set_address_finalizers_def

section \<open>What a run may send\<close>

text \<open>C1: an address is only allocated under the protection of the claim's finalizer. For every
  Kubernetes API server and every NetBox server, if a reconcile of a claim sends an allocation
  request to NetBox, then the claim as it was read already carries the ReleaseAddress finalizer,
  is not being deleted, its cluster is absent or not paused, and its IPAddress object was read in
  this reconcile and held no address. So a crash at any moment leaves a claim whose deletion will
  release what was allocated.\<close>

theorem finalizer_before_allocation:
  assumes "finalizers_ok E" "\<And>g. pa_NewClient a = Some g \<Longrightarrow> client_factory g"
  shows "holds (\<lambda>_ h'. alloc_events (added h h') \<noteq> [] \<longrightarrow>
      (\<exists>claim. get_claim E h ns name = Inr claim \<and>
         ReleaseAddressFinalizer \<in> set (om_Finalizers (cl_meta claim)) \<and>
         \<not> om_Deleting (cl_meta claim) \<and> cluster_allows E claim \<and> unset_address E claim))
    (Reconcile E b (netbox_adapter E a) ns name h)"
  by (rule holds_mono [OF netbox_run_guarded [OF assms]]) (auto simp: run_guarded_def Let_def)

theorem finalizer_before_allocation_witness:
  "\<exists>r h' claim. Reconcile (claim_env False) silent (netbox_adapter (claim_env False) fake_adapter)
       ''ns'' ''c'' [] = Some (r, h') \<and> length (alloc_events (added [] h')) = 1 \<and>
     get_claim (claim_env False) [] ''ns'' ''c'' = Inr claim \<and>
     ReleaseAddressFinalizer \<in> set (om_Finalizers (cl_meta claim)) \<and> unset_address (claim_env False) claim"
proof -
  obtain r h' where run: "Reconcile (claim_env False) silent (netbox_adapter (claim_env False) fake_adapter)
      ''ns'' ''c'' [] = Some (r, h')" and one: "length (alloc_events (added [] h')) = 1"
    by (simp add: claim_eval)
  from holdsD [OF finalizer_before_allocation [OF claim_env_finalizers fake_adapter_factory] run] one run
  show ?thesis by fastforce
qed

section \<open>Release\<close>





section \<open>What is reported\<close>

text \<open>The status of a claim before and after a patch: unchanged, or the condition Ready is set,
  without a response body in its message, and to True only for an address that was written and
  seen.\<close>

definition honest_status :: "env \<Rightarrow> IPAddressClaim \<Rightarrow> IPAddressClaim \<Rightarrow> bool" where
  "honest_status E c c' \<longleftrightarrow>
     cl_Conditions c' = cl_Conditions c \<and> cl_AddressRef c' = cl_AddressRef c \<or>
     (\<exists>cond. cl_Conditions c' = conditions_Set E (cl_Conditions c) cond \<and> co_Type cond = ReadyCondition \<and>
        (\<forall>e. co_Message cond = MsgErr e \<longrightarrow> api_free e) \<and>
        (if co_Status cond = ConditionTrue
         then \<exists>x. address_written E x \<and> address_visible E x \<and> cl_AddressRef c' = om_Name (ip_meta x)
         else cl_AddressRef c' = cl_AddressRef c))"

lemma patched_honest: "claim_patched E ops valid c c' ds \<Longrightarrow> honest_status E c c'"
  using claim_patched_status [of E ops valid c c' ds]
  by (fastforce simp: honest_status_def ready_false_def ready_true_def setClaimReady_def set_claim_finalizers_def)

text \<open>C12: the status of a claim is honest. For every server, a patch of a claim leaves its spec
  alone, and it changes nothing of the status, or it sets the condition Ready; the message of the
  condition never is an error that holds a response body of NetBox; and Ready=True is only set
  when the API server accepted the IPAddress with its protection finalizer, the cache then showed
  it, and the claim's AddressRef names it.\<close>

theorem claim_status_honest:
  assumes "finalizers_ok E" "\<And>g. pa_NewClient a = Some g \<Longrightarrow> client_factory g"
  shows "holds (\<lambda>_ h'. \<forall>c c'. EPatchClaim c c' \<in> set (added h h') \<longrightarrow>
      cl_PoolRef c' = cl_PoolRef c \<and> cl_ClusterName c' = cl_ClusterName c \<and> honest_status E c c')
    (Reconcile E b (netbox_adapter E a) ns name h)"
  by (rule holds_mono [OF netbox_run_guarded [OF assms]])
     (auto simp: run_guarded_def Let_def dest: claim_patched_spec patched_honest)

theorem claim_status_honest_witness:
  "\<exists>r h' c c'. Reconcile (claim_env False) silent (netbox_adapter (claim_env False) fake_adapter)
       ''ns'' ''c'' [] = Some (r, h') \<and> EPatchClaim c c' \<in> set (added [] h') \<and>
     map co_Status (cl_Conditions c') = [ConditionTrue] \<and> honest_status (claim_env False) c c'"
proof -
  obtain r h' c c' where run: "Reconcile (claim_env False) silent (netbox_adapter (claim_env False) fake_adapter)
      ''ns'' ''c'' [] = Some (r, h')" and "EPatchClaim c c' \<in> set (added [] h')"
    "map co_Status (cl_Conditions c') = [ConditionTrue]"
    by (simp add: claim_eval put_condition_def)
  with holdsD [OF claim_status_honest [OF claim_env_finalizers fake_adapter_factory] run]
  show ?thesis by fastforce
qed

text \<open>C15: the error a reconcile of a claim returns, which controller-runtime logs, holds no
  response body of NetBox, also when it aggregates the error of the deferred patch; and a result
  with a requeue delay is only returned together with an error. Controller-runtime ignores the
  result when the error is not nil, so the delays poolExhaustedRequeueAfter and
  missingAddressRequeueAfter never have an effect.\<close>

theorem claim_result:
  assumes "\<And>g. pa_NewClient a = Some g \<Longrightarrow> client_factory g"
  shows "holds (\<lambda>(res, err) h'. (\<forall>e. err = Some e \<longrightarrow> api_free e) \<and> (RequeueAfter res \<noteq> 0 \<longrightarrow> err \<noteq> None))
    (Reconcile E b (netbox_adapter E a) ns name h)"
  by (rule holds_mono [OF netbox_Reconcile_result [OF assms]]) (auto simp: result_ok_def no_requeue_def)

theorem claim_result_witness:
  "\<exists>res e h'. Reconcile (claim_env False) silent (netbox_adapter (claim_env False) full_adapter)
       ''ns'' ''c'' [] = Some ((res, Some e), h') \<and> RequeueAfter res = 15 \<and> api_free e"
proof -
  obtain res err h' where run: "Reconcile (claim_env False) silent (netbox_adapter (claim_env False) full_adapter)
      ''ns'' ''c'' [] = Some ((res, err), h')" and "RequeueAfter res = 15"
    by (simp add: claim_eval) (metis reconcile_result.select_convs(1))
  with holdsD [OF claim_result [OF full_adapter_factory] run] show ?thesis by auto
qed

section \<open>The handler\<close>

definition sample_handler :: "nb_client \<Rightarrow> netboxClaimHandler" where
  "sample_handler C = \<lparr>nh_claim = sample_claim True, nh_pool = Some (NamespacedPool (sample_pool False)),
     nh_newClientFunc = (\<lambda>cfg. Inr C), nh_requestTimeout = 0\<rparr>"

lemma sample_handler_factory:
  "client_factory (nh_newClientFunc (sample_handler fake_client))"
  "client_factory (nh_newClientFunc (sample_handler full_client))"
  using fakes.client_factory_axioms fulls.client_factory_axioms by (simp_all add: sample_handler_def)

lemma sample_handler_pool: "nh_pool (sample_handler C) = Some (NamespacedPool (sample_pool False))"
  by (simp add: sample_handler_def)

lemma empty_address_unset: "ip_Address empty_address = []"
  by (simp add: empty_address_def)

text \<open>C4: EnsureAddress is safe to retry. For every client factory that keeps the contract, a call
  for an address that is not set sends an allocation request only after the lookup by the claim's
  UID, made in the same call with a client of the factory, answered that NetBox holds no record for
  the claim; nothing but reads comes before the answer. The allocation requests go to the prefixes
  of the pool, one to each, in their order; the call deletes nothing and writes nothing to
  Kubernetes.\<close>

theorem allocation_only_after_lookup:
  assumes "client_factory (nh_newClientFunc nh)" "nh_pool nh = Some pool" "ip_Address a = []"
  shows "holds (\<lambda>_ h'. (\<forall>ev \<in> set (added h h'). \<not> is_delete ev \<and> \<not> is_kube_write ev) \<and>
      (alloc_events (added h h') \<noteq> [] \<longrightarrow>
        (\<exists>ids. pool_prefix_ids pool ids \<and> tried ids (alloc_events (added h h'))) \<and>
        (\<exists>h1 h2. claim_lookup nh pool h1 None h2 \<and> grows calm h h2 \<and> grows ensuring h2 h')))
    (EnsureAddress E nh a h)"
  by (rule holds_mono [OF EnsureAddress_holds [OF assms]])
     (auto simp: ensure_outcome_def Let_def grows_added list_all_iff ensuring_def split: prod.splits)

theorem allocation_only_after_lookup_witness:
  "\<exists>r h' h1 h2. EnsureAddress (claim_env False) (sample_handler fake_client) empty_address [] = Some (r, h') \<and>
     length (alloc_events (added [] h')) = 1 \<and>
     claim_lookup (sample_handler fake_client) (NamespacedPool (sample_pool False)) h1 None h2"
proof -
  obtain r h' where run: "EnsureAddress (claim_env False) (sample_handler fake_client) empty_address [] = Some (r, h')"
    and "length (alloc_events (added [] h')) = 1"
    by (simp add: claim_eval sample_handler_def empty_address_def)
  with holdsD [OF allocation_only_after_lookup [OF sample_handler_factory(1) sample_handler_pool empty_address_unset] run]
  show ?thesis by fastforce
qed





end
