(* ===== verification/Store_Properties.thy ===== *)
theory Store_Properties
  imports Netbox_Store Claim_Properties
begin

text \<open>
  Properties of several reconciles in a row against the NetBox store of \<open>Netbox_Store\<close>: what
  survives crashes at any point, and what a retried release may do.
\<close>

section \<open>Crashes\<close>


lemma store_append: "store addrs (h @ t) = foldl (store_step addrs) (store addrs h) t"
  by (simp add: store_def)

lemma store_step_kube: "\<not> is_http ev \<Longrightarrow> store_step addrs st ev = st"
  by (simp add: store_step_def is_http_def split: event.splits)

lemma store_step_lease: "store_step addrs st (lease_request uid i) =
    (case free_address addrs (snd st) of
       None \<Rightarrow> st
     | Some a \<Rightarrow> (Suc (fst st), snd st @
         [\<lparr>nr_ID = word_of_nat (Suc (fst st)), nr_Address = a, nr_UID = uid\<rparr>]))"
  by (simp add: store_step_def lease_request_def)

lemma store_step_drop: "store_step addrs st (drop_request i) =
    (fst st, filter (\<lambda>x. \<not> deletes_id (nr_ID x) (drop_request i)) (snd st))"
  by (simp add: store_step_def drop_request_def)

lemma more_not_http [simp]:
  "\<not> is_http (EGetClaim ns n)" "\<not> is_http (EGetPool ns n)" "\<not> is_http (ENewPatchHelper n)"
  "\<not> is_http (EGetSecret ns n)"
  by (simp_all add: is_http_def)

lemma store_Cons: "store addrs (ev # t) = foldl (store_step addrs) (store_step addrs (0, []) ev) t"
  by (simp add: store_def)

lemmas store_eval =
  claim_eval store_Cons records_def store_append store_step_kube store_step_lease store_step_drop store_adapter_def
  free_address_def allocated_of_def allocation_request_def drop_deletes

lemma store_Nil [simp]: "store addrs [] = (0, [])"
  by (simp add: store_def)


section \<open>A release that is retried\<close>

text \<open>Two claims of one pool, which has a single address: \<open>a\<close> is being deleted and \<open>b\<close> waits for
  an address. The first attempt to delete the IPAddress object of \<open>a\<close> fails.\<close>

definition claim_of :: "string \<Rightarrow> bool \<Rightarrow> IPAddressClaim" where
  "claim_of n deleting = (sample_claim deleting)\<lparr>cl_meta := (cl_meta (sample_claim deleting))
     \<lparr>om_Name := n, om_UID := ''u'' @ n\<rparr>\<rparr>"

definition address_of :: "string \<Rightarrow> IPAddress" where
  "address_of n = empty_address\<lparr>ip_meta := empty_meta\<lparr>om_Name := n, om_Namespace := ''ns''\<rparr>,
     ip_Address := ''10.0.0.5'', ip_Prefix := Some 24\<rparr>"

definition two_claims :: env where
  "two_claims = (claim_env False)
     \<lparr>get_claim := (\<lambda>h ns n. Inr (claim_of n (n = ''a''))),
      get_address := (\<lambda>h ns n. Inr (address_of n)),
      delete_address := (\<lambda>h ns n. if EDeleteAddress ns n \<in> set h then None else Some down)\<rparr>"

definition only_address :: "string list" where "only_address = [''10.0.0.5'']"

abbreviation run_claim :: "string \<Rightarrow> (reconcile_result \<times> err option) io" where
  "run_claim n \<equiv> Reconcile two_claims silent (netbox_adapter two_claims (store_adapter only_address)) ''ns'' n"

lemmas two_eval = store_eval two_claims_def claim_of_def address_of_def only_address_def empty_address_def
  netboxAddressCandidates_def

lemma kube_not_store [simp]:
  "EDeleteAddress ns n \<noteq> lease_request uid i" "EDeleteAddress ns n \<noteq> drop_request i"
  "EPatchClaim c d \<noteq> lease_request uid i" "EPatchClaim c d \<noteq> drop_request i"
  "EDeleteAddress ns n \<noteq> query_request" "EPatchClaim c d \<noteq> query_request"
  by (simp_all add: lease_request_def drop_request_def query_request_def)

lemma ignore_down: "ignoreNotFound (Ext down) = Some (Ext down)"
  by (simp add: ignoreNotFound_def down_def)

lemma release_a_fails:
  "\<exists>h1. run_claim ''a'' [lease_request ''ua'' 5] = Some ((no_requeue, Some (Ext down)), h1) \<and>
     store only_address h1 = (1, []) \<and> EDeleteAddress ''ns'' ''a'' \<in> set h1"
  by (simp add: two_eval ignore_down)

lemma allocate_b:
  assumes "store only_address h1 = (1, [])"
  shows "\<exists>t c c'. run_claim ''b'' h1 = Some ((no_requeue, None), h1 @ t) \<and>
     store only_address (h1 @ t) = (2, [\<lparr>nr_ID = 2, nr_Address = ''10.0.0.5'', nr_UID = ''ub''\<rparr>]) \<and>
     EPatchClaim c c' \<in> set t \<and> om_Name (cl_meta c') = ''b'' \<and> map co_Status (cl_Conditions c') = [ConditionTrue]"
  using assms by (simp add: two_eval ignore_down put_condition_def)

lemma release_a_again:
  assumes "store only_address h2 = (2, [\<lparr>nr_ID = 2, nr_Address = ''10.0.0.5'', nr_UID = ''ub''\<rparr>])"
    and "EDeleteAddress ''ns'' ''a'' \<in> set h2"
  shows "\<exists>t c c'. run_claim ''a'' h2 = Some ((no_requeue, None), h2 @ t) \<and>
     delete_events t = [drop_request 2] \<and> store only_address (h2 @ t) = (2, []) \<and>
     EPatchClaim c c' \<in> set t \<and> om_Name (cl_meta c') = ''a'' \<and> om_Finalizers (cl_meta c') = []"
  using assms by (simp add: two_eval ignore_down)

text \<open>C9: a retried release deletes the record of another claim. The release of claim \<open>a\<close> deletes its
  record in NetBox first and the IPAddress object after it; if the second step fails, the claim
  keeps its finalizer and is reconciled again. By then NetBox may have given the address to claim
  \<open>b\<close>, which is Ready. The retry finds no record with the UID of \<open>a\<close>, falls back to the address
  of the IPAddress object, finds the record of \<open>b\<close> and deletes it, reports success and lets \<open>a\<close>
  go: \<open>b\<close> uses an address that NetBox considers free.\<close>

theorem retried_release_deletes_other_record:
  "\<exists>h1 h2 h3. run_claim ''a'' [lease_request ''ua'' 5] = Some ((no_requeue, Some (Ext down)), h1) \<and>
     records only_address h1 = [] \<and>
     run_claim ''b'' h1 = Some ((no_requeue, None), h2) \<and>
     map nr_UID (records only_address h2) = [''ub''] \<and>
     (\<exists>c c'. EPatchClaim c c' \<in> set (added h1 h2) \<and> om_Name (cl_meta c') = ''b'' \<and>
        map co_Status (cl_Conditions c') = [ConditionTrue]) \<and>
     run_claim ''a'' h2 = Some ((no_requeue, None), h3) \<and>
     delete_events (added h2 h3) = [drop_request 2] \<and> records only_address h3 = [] \<and>
     (\<exists>c c'. EPatchClaim c c' \<in> set (added h2 h3) \<and> om_Name (cl_meta c') = ''a'' \<and>
        om_Finalizers (cl_meta c') = [])"
proof -
  obtain h1 where 1: "run_claim ''a'' [lease_request ''ua'' 5] = Some ((no_requeue, Some (Ext down)), h1)"
    "store only_address h1 = (1, [])" "EDeleteAddress ''ns'' ''a'' \<in> set h1"
    using release_a_fails by blast
  obtain t c c' where 2: "run_claim ''b'' h1 = Some ((no_requeue, None), h1 @ t)"
    "store only_address (h1 @ t) = (2, [\<lparr>nr_ID = 2, nr_Address = ''10.0.0.5'', nr_UID = ''ub''\<rparr>])"
    "EPatchClaim c c' \<in> set t" "om_Name (cl_meta c') = ''b''" "map co_Status (cl_Conditions c') = [ConditionTrue]"
    using allocate_b [OF 1(2)] by (elim exE conjE) (rule that)
  from 1(3) have "EDeleteAddress ''ns'' ''a'' \<in> set (h1 @ t)" by simp
  from release_a_again [OF 2(2) this] obtain u d d' where 3:
    "run_claim ''a'' (h1 @ t) = Some ((no_requeue, None), (h1 @ t) @ u)"
    "delete_events u = [drop_request 2]" "store only_address ((h1 @ t) @ u) = (2, [])"
    "EPatchClaim d d' \<in> set u" "om_Name (cl_meta d') = ''a''" "om_Finalizers (cl_meta d') = []"
    by (elim exE conjE) (rule that)
  have added: "added h1 (h1 @ t) = t" "added (h1 @ t) ((h1 @ t) @ u) = u" by (simp_all add: added_def)
  show ?thesis
    apply (rule exI [of _ h1], rule exI [of _ "h1 @ t"], rule exI [of _ "(h1 @ t) @ u"])
    unfolding added records_def 1(2) 2(2) 3(3)
    using 1(1) 2(1,3-5) 3(1,2,4-6) by (intro conjI exI) (assumption | simp)+
qed

section \<open>A release whose record is gone\<close>





end
