(* ===== verification/Netbox_Properties.thy ===== *)
theory Netbox_Properties
  imports Netbox_Client_Facts Netbox_Gateway Netbox_Config Pool_Facts
begin

text \<open>
  The properties of the NetBox client and of the pure parts of internal/netbox, with their
  witnesses.
\<close>

section \<open>Pagination\<close>


text \<open>A server whose links lead down a rank.\<close>

definition links_descend ::
  "env \<Rightarrow> APIClient \<Rightarrow> (json \<Rightarrow> 'a option) \<Rightarrow> (string \<Rightarrow> url_query \<Rightarrow> hist \<Rightarrow> nat) \<Rightarrow> bool" where
  "links_descend E c d rank \<longleftrightarrow>
     (\<forall>p q h page h1 u. client_get E c p q zero_list_response (dec_list_response d) h = Some (Inr page, h1) \<longrightarrow>
        lr_Next page \<noteq> [] \<longrightarrow> url_Parse E (lr_Next page) = Some u \<longrightarrow>
        rank (u_Path u) (u_Query u) h1 < rank p q h)"

lemma listAll_loop_returns:
  assumes "links_descend E c d rank"
  shows "listAll_loop E c d p q all h \<noteq> None"
proof (induction "rank p q h" arbitrary: p q all h rule: less_induct)
  case less
  obtain r h1 where get: "client_get E c p q zero_list_response (dec_list_response d) h = Some (r, h1)"
    using client_do_returns by (fastforce simp: client_get_def)
  show ?case
  proof (cases r)
    case (Inl e)
    with get show ?thesis by (subst listAll_loop.simps) simp
  next
    case (Inr page)
    with get less assms show ?thesis
      by (subst listAll_loop.simps) (auto simp: Let_def links_descend_def split: option.splits)
  qed
qed

text \<open>C27: listAll terminates on every server whose next links lead down some rank, whatever the
  pages hold and whichever requests fail.\<close>

theorem listAll_terminates:
  assumes "links_descend E c d rank"
  shows "listAll E c d p q h \<noteq> None"
  using listAll_loop_returns [OF assms] by (simp add: listAll_def)

definition sample_client :: APIClient where
  "sample_client =
     \<lparr>ac_baseURL = ''https://nb'', ac_token = ''t'',
      ac_httpClient = \<lparr>hc_ProxyFromEnvironment = True, hc_InsecureSkipVerify = False, hc_RootCAs = None,
                       hc_Timeout = 30\<rparr>\<rparr>"

text \<open>A server of two pages: the second answer has no link.\<close>

definition page1 :: string where
  \<open>page1 = ''{"count":2,"next":"https://nb/netbox/api/?offset=1","results":[{"name":"a","slug":"a"}]}''\<close>

definition page2 :: string where
  \<open>page2 = ''{"count":2,"next":null,"results":[{"name":"b","slug":"b"}]}''\<close>

definition ok_response :: "string \<Rightarrow> http_response" where
  "ok_response body = \<lparr>rs_StatusCode = 200, rs_Status = ''200 OK'', rs_Body = Inr body\<rparr>"

definition two_pages :: env where
  "two_pages = dead_env
     \<lparr>http_do := (\<lambda>h c r. Inr (ok_response (if list_ex is_http h then page2 else page1)))\<rparr>"

definition tag_named :: "string \<Rightarrow> netBoxTag" where
  "tag_named n = \<lparr>tg_Name = n, tg_Slug = n\<rparr>"

lemma decode_pages:
  "Option.bind (json_parse page1) (dec_list_response dec_tag) =
     Some \<lparr>lr_Count = 2, lr_Next = ''https://nb/netbox/api/?offset=1'', lr_Results = [tag_named ''a'']\<rparr>"
  "Option.bind (json_parse page2) (dec_list_response dec_tag) =
     Some \<lparr>lr_Count = 2, lr_Next = [], lr_Results = [tag_named ''b'']\<rparr>"
  by (simp_all add: page1_def page2_def json_eval dec_list_response_def members_def dec_field_def dec_int_def
      dec_string_def dec_slice_def dec_tag_def tag_named_def lower_byte_def parse_int_def digit_val_def)

lemma page_nonempty: "page1 \<noteq> []" "page2 \<noteq> []"
  by (simp_all add: page1_def page2_def)

lemma two_pages_get:
  "base_ok two_pages c \<Longrightarrow> plain_path p \<Longrightarrow>
   client_get two_pages c p q zero_list_response (dec_list_response dec_tag) h =
     Some (Inr (if list_ex is_http h
                then \<lparr>lr_Count = 2, lr_Next = [], lr_Results = [tag_named ''b'']\<rparr>
                else \<lparr>lr_Count = 2, lr_Next = ''https://nb/netbox/api/?offset=1'', lr_Results = [tag_named ''a'']\<rparr>),
       h @ [EHttp (build_request two_pages c ''GET'' p q None)])"
  by (simp add: client_get_def client_do_sent)
     (simp add: two_pages_def read_response_def containsStatus_def ok_response_def decode_pages page_nonempty)

lemma two_pages_link:
  assumes "client_get two_pages c p q zero_list_response (dec_list_response dec_tag) h = Some (Inr page, h1)"
    and "lr_Next page \<noteq> []"
  shows "\<not> list_ex is_http h \<and> list_ex is_http h1"
proof -
  have "http_do two_pages h hc rq = Inr (ok_response (if list_ex is_http h then page2 else page1))" for hc rq
    by (simp add: two_pages_def)
  then show ?thesis
    using assms unfolding client_get_def
    by (auto elim!: client_do_cases
        simp: read_response_def containsStatus_def ok_response_def decode_pages page_nonempty is_http_def split: if_splits)
qed

lemma two_pages_descend: "links_descend two_pages c dec_tag (\<lambda>p q h. if list_ex is_http h then 0 else 1)"
  unfolding links_descend_def by (intro allI impI) (drule two_pages_link, auto)

lemma dead_url: "url_Parse dead_env s = parse_url (\<lambda>scheme s. Some s) s"
  by (simp add: url_Parse_def dead_env_def)

lemma http_do_url [simp]: "url_Parse (E\<lparr>http_do := f\<rparr>) = url_Parse E"
  by (simp add: url_Parse_def)

lemma two_pages_url: "url_Parse two_pages ''https://nb/netbox/api/?offset=1'' =
    Some \<lparr>u_Scheme = ''https'', u_Host = ''nb'', u_Path = ''/netbox/api/'', u_Query = [(''offset'', [''1''])]\<rparr>"
  unfolding two_pages_def http_do_url dead_url by code_simp

lemma dead_base:
  "url_Parse dead_env ''https://nb'' = Some \<lparr>u_Scheme = ''https'', u_Host = ''nb'', u_Path = [], u_Query = []\<rparr>"
  "url_Parse dead_env ''https://nb/netbox'' =
     Some \<lparr>u_Scheme = ''https'', u_Host = ''nb'', u_Path = ''/netbox'', u_Query = []\<rparr>"
  unfolding dead_url by code_simp+

lemma dead_base_ok:
  assumes "url_Parse E = url_Parse dead_env" "ac_baseURL c = ''https://nb'' \<or> ac_baseURL c = ''https://nb/netbox''"
  shows "base_ok E c"
proof -
  have "trim_right_byte (CHR ''/'') ''https://nb'' = ''https://nb''"
    "trim_right_byte (CHR ''/'') ''https://nb/netbox'' = ''https://nb/netbox''" by code_simp+
  with assms dead_base show ?thesis unfolding base_ok_def by (metis list.discI url.select_convs(1,2))
qed

lemma sample_base [simp]: "url_Parse E = url_Parse dead_env \<Longrightarrow> base_ok E sample_client"
  by (rule dead_base_ok) (simp_all add: sample_client_def)

lemma is_http_EHttp [simp]: "is_http (EHttp r)"
  by (simp add: is_http_def)

lemma two_pages_plain: "plain_path ''/netbox/api/''" "plain_path ''/api/''"
  by (simp_all add: plain_path_bytes starts_def plain_char_def has_ctl_def)

theorem listAll_terminates_witness:
  "\<exists>h'. listAll two_pages sample_client dec_tag ''/api/'' [] [] = Some (Inr [tag_named ''a'', tag_named ''b''], h')"
proof -
  from listAll_terminates [OF two_pages_descend, of sample_client "''/api/''" "[]" "[]"]
  obtain r h' where run: "listAll two_pages sample_client dec_tag ''/api/'' [] [] = Some (r, h')" by auto
  have base: "base_ok two_pages sample_client" by (simp add: two_pages_def)
  have "r = Inr [tag_named ''a'', tag_named ''b'']"
    using run unfolding listAll_def
    by (subst (asm) listAll_loop.simps, simp add: two_pages_get base two_pages_plain two_pages_url Let_def,
        subst (asm) listAll_loop.simps, simp add: two_pages_get base two_pages_plain two_pages_url Let_def)
  with run show ?thesis by blast
qed

text \<open>How a link that lies under the base URL is read.\<close>

lemma link_parsed:
  assumes base: "base_ok E c" "ac_baseURL c = sc @ ''://'' @ au @ basePath"
    and sc: "scheme_text sc" and au: "set au \<inter> set ''/?#'' = {}" and paths: "plain_path basePath" "plain_path path"
    and q: "proper_query q" "sort_key fst q = q"
  shows "\<exists>u. url_Parse E (ac_baseURL c @ path @ query_suffix q) = Some u \<and> u_Path u = basePath @ path \<and> u_Query u = q"
proof -
  let ?t = "\<lparr>ut_scheme = sc, ut_authority = au, ut_path = basePath @ path, ut_query = query_suffix q, ut_fragment = []\<rparr>"
  have "starts (CHR ''/'') (basePath @ path)" using paths by (auto simp: plain_path_def starts_def)
  then have ok: "url_text_ok ?t"
    using sc au paths query_suffix_facts(1,2) [of q] by (auto simp: url_text_ok_def plain_path_def starts_def [of _ "[]"])
  have plain: "unescape False (basePath @ path) = Some (basePath @ path)"
    using paths by (intro unescape_plain) (auto simp: plain_path_def)
  have query: "parse_query (tl (query_suffix q)) = q"
    using parse_encode_query [OF q(1)] q(2) by (cases "q = []") (simp_all add: query_suffix_def encode_query_def query_pairs_def)
  obtain u where u: "url_Parse E (ac_baseURL c @ path @ query_suffix q) = Some u"
    using request_parses [OF base(1) paths(2), of "[]" q None] by (auto simp: request_url)
  have "ac_baseURL c @ path @ query_suffix q = url_string ?t" by (simp add: base(2) url_string_def)
  with u have "parse_url_text (url_host E) ?t = Some u" by (simp add: url_Parse_def parse_url_string [OF ok])
  then show ?thesis using u by (auto simp: parse_url_text_def plain query split: if_splits option.splits)
qed

text \<open>C29: where the second page of a list is requested. NetBox links to the next page with an
  absolute URL below the base URL of the client. listAll keeps the path and the query values of the
  link and appends them to the base URL again, so the path of the base URL occurs twice in the next
  request: it goes to the address of the link, query values included, exactly if the base URL has
  no path.\<close>

theorem next_page_request:
  assumes "base_ok E c" "ac_baseURL c = sc @ ''://'' @ au @ basePath"
    and "scheme_text sc" "set au \<inter> set ''/?#'' = {}" "plain_path basePath" "plain_path path"
    and "proper_query q'" "sort_key fst q' = q'"
    and "client_get E c p q zero_list_response (dec_list_response d) h = Some (Inr page, h1)"
    and "lr_Next page = ac_baseURL c @ path @ query_suffix q'"
    and "listAll E c d p q h = Some (r, h')"
  shows "\<exists>req t. h' = h1 @ EHttp req # t \<and> rq_Method req = ''GET'' \<and>
    rq_URL req = ac_baseURL c @ basePath @ path @ query_suffix q' \<and> (rq_URL req = lr_Next page \<longleftrightarrow> basePath = [])"
proof -
  let ?req = "build_request E c ''GET'' (basePath @ path) q' None"
  have plain: "plain_path (basePath @ path)" using assms(5,6) by (auto simp: plain_path_def starts_def)
  obtain u where u: "url_Parse E (lr_Next page) = Some u" "u_Path u = basePath @ path" "u_Query u = q'"
    using link_parsed [OF assms(1-8)] unfolding assms(10) by blast
  have "lr_Next page \<noteq> []" by (simp add: assms(2,10))
  then have run: "listAll_loop E c d (basePath @ path) q' (lr_Results page) h1 = Some (r, h')"
    using assms(11) unfolding listAll_def
    by (subst (asm) listAll_loop.simps) (simp add: assms(9) u Let_def)
  obtain r1 where get: "client_get E c (basePath @ path) q' zero_list_response (dec_list_response d) h1 = Some (r1, h1 @ [EHttp ?req])"
    by (simp add: client_get_def client_do_sent [OF assms(1) plain])
  have "grows is_get (h1 @ [EHttp ?req]) h'"
    using run get by (subst (asm) listAll_loop.simps)
      (auto simp: Let_def dest: listAll_loop_safe split: sum.splits if_splits option.splits)
  then obtain t where "h' = h1 @ EHttp ?req # t" by (auto simp: grows_def)
  then show ?thesis
    by (intro exI [of _ ?req] exI [of _ t]) (auto simp: request_url assms(10), simp add: build_request_def)
qed

theorem next_page_request_witness:
  "\<exists>r h' req t. listAll two_pages (sample_client\<lparr>ac_baseURL := ''https://nb/netbox''\<rparr>) dec_tag ''/api/'' [] [] = Some (r, h') \<and>
     tl h' = EHttp req # t \<and> rq_URL req = ''https://nb/netbox/netbox/api/?offset=1''"
proof -
  let ?c = "sample_client\<lparr>ac_baseURL := ''https://nb/netbox''\<rparr>"
  have base: "base_ok two_pages ?c" by (rule dead_base_ok) (simp_all add: two_pages_def)
  obtain r h' where run: "listAll two_pages ?c dec_tag ''/api/'' [] [] = Some (r, h')"
    using listAll_loop_returns [OF two_pages_descend] unfolding listAll_def by fastforce
  have suffix: "query_suffix [(''offset'', [''1''])] = ''?offset=1''" by code_simp
  have proper: "proper_query [(''offset'', [''1''])]" by (simp add: proper_query_def query_pairs_def maxQueryParams_def)
  have path: "plain_path ''/netbox''" by (simp add: plain_path_bytes starts_def plain_char_def has_ctl_def)
  have scheme: "scheme_text ''https''" by code_simp
  from next_page_request [OF base _ scheme _ path two_pages_plain(2) proper _ two_pages_get [OF base two_pages_plain(2)] _ run,
      of "''nb''"] show ?thesis using run by (auto simp: suffix)
qed

section \<open>A small NetBox\<close>

text \<open>A NetBox with one tag, one prefix and one address with the UID \<open>u1\<close>; it allocates
  10.0.0.5/24 and knows no address to delete.\<close>

definition tags_page :: string where
  \<open>tags_page = ''{"results":[{"name":"t","slug":"t"}]}''\<close>

definition prefixes_page :: string where
  \<open>prefixes_page = ''{"results":[{"id":7,"prefix":"10.0.0.0/24"}]}''\<close>

definition addresses_page :: string where
  \<open>addresses_page = ''{"results":[{"id":9,"address":"10.0.0.5/24","custom_fields":{"f":"u1"}}]}''\<close>

definition created_page :: string where
  \<open>created_page = ''[{"id":9,"address":"10.0.0.5/24"}]''\<close>

definition small_netbox :: env where
  "small_netbox = dead_env\<lparr>http_do := (\<lambda>h c r. Inr
     (if rq_Method r = ''POST'' then (ok_response created_page)\<lparr>rs_StatusCode := 201\<rparr>
      else if rq_Method r = ''DELETE'' then (ok_response [])\<lparr>rs_StatusCode := 404\<rparr>
      else ok_response
        (if has_prefix (rq_URL r) ''https://nb/api/extras/tags/'' then tags_page
         else if has_prefix (rq_URL r) ''https://nb/api/ipam/prefixes/'' then prefixes_page
         else addresses_page)))\<rparr>"

lemma small_pages:
  "Option.bind (json_parse tags_page) (dec_list_response dec_tag) =
     Some \<lparr>lr_Count = 0, lr_Next = [], lr_Results = [tag_named ''t'']\<rparr>"
  "Option.bind (json_parse prefixes_page) (dec_list_response (dec_prefix Some)) =
     Some \<lparr>lr_Count = 0, lr_Next = [],
       lr_Results = [\<lparr>px_ID = 7, px_Prefix = ''10.0.0.0/24'', px_CustomFields = []\<rparr>]\<rparr>"
  "Option.bind (json_parse addresses_page) (dec_list_response (dec_ip Some)) =
     Some \<lparr>lr_Count = 0, lr_Next = [],
       lr_Results = [\<lparr>ia_ID = 9, ia_Address = ''10.0.0.5/24'', ia_DNSName = [], ia_Status = None, ia_Tags = [],
         ia_CustomFields = [(''f'', JStr ''u1'')]\<rparr>]\<rparr>"
  "Option.bind (json_parse created_page) (dec_slice (dec_ip Some)) =
     Some [\<lparr>ia_ID = 9, ia_Address = ''10.0.0.5/24'', ia_DNSName = [], ia_Status = None, ia_Tags = [],
         ia_CustomFields = []\<rparr>]"
  by (simp_all add: tags_page_def prefixes_page_def addresses_page_def created_page_def json_eval
      dec_list_response_def members_def dec_field_def dec_int_def dec_int32_def dec_string_def dec_slice_def
      dec_map_any_def dec_tag_def dec_prefix_def dec_ip_def dec_status_def tag_named_def lower_byte_def
      parse_int_def digit_val_def)

lemma small_nonempty: "tags_page \<noteq> []" "prefixes_page \<noteq> []" "addresses_page \<noteq> []" "created_page \<noteq> []"
  by (simp_all add: tags_page_def prefixes_page_def addresses_page_def created_page_def)

lemma small_fields [simp]: "url_Parse small_netbox = url_Parse dead_env"
  "float_text small_netbox = Some" "unicode small_netbox = unicode dead_env"
  by (simp_all add: small_netbox_def) (simp add: dead_env_def)

lemmas small_eval = client_do_sent small_fields read_response_def containsStatus_def Let_def

lemma single_page:
  assumes "client_get E c p q zero_list_response (dec_list_response d) h = Some (Inr page, h1)" "lr_Next page = []"
  shows "listAll E c d p q h = Some (Inr (lr_Results page), h1)"
  unfolding listAll_def by (subst listAll_loop.simps) (simp add: assms Let_def)

definition small_get :: "string \<Rightarrow> url_query \<Rightarrow> event" where
  "small_get p q = EHttp (build_request small_netbox sample_client ''GET'' p q None)"

lemma small_client_get:
  "client_get small_netbox sample_client tags_path q zero_list_response (dec_list_response dec_tag) h =
     Some (Inr \<lparr>lr_Count = 0, lr_Next = [], lr_Results = [tag_named ''t'']\<rparr>, h @ [small_get tags_path q])"
  "client_get small_netbox sample_client prefixes_path q zero_list_response (dec_list_response (dec_prefix Some)) h =
     Some (Inr \<lparr>lr_Count = 0, lr_Next = [],
       lr_Results = [\<lparr>px_ID = 7, px_Prefix = ''10.0.0.0/24'', px_CustomFields = []\<rparr>]\<rparr>, h @ [small_get prefixes_path q])"
  "client_get small_netbox sample_client addresses_path q zero_list_response (dec_list_response (dec_ip Some)) h =
     Some (Inr \<lparr>lr_Count = 0, lr_Next = [],
       lr_Results = [\<lparr>ia_ID = 9, ia_Address = ''10.0.0.5/24'', ia_DNSName = [], ia_Status = None, ia_Tags = [],
         ia_CustomFields = [(''f'', JStr ''u1'')]\<rparr>]\<rparr>, h @ [small_get addresses_path q])"
  by (simp_all add: client_get_def small_eval small_get_def)
     (simp_all add: small_netbox_def ok_response_def small_pages small_nonempty build_request_def sample_client_def
        read_response_def containsStatus_def
        tags_path_def prefixes_path_def addresses_path_def has_prefix_def)

lemmas small_listAll =
  single_page [OF small_client_get(1), simplified]
  single_page [OF small_client_get(2), simplified]
  single_page [OF small_client_get(3), simplified]

section \<open>Prefixes\<close>

text \<open>What one reference resolves to: its ID, or the one prefix that NetBox lists for its CIDR.\<close>

definition resolves_to :: "env \<Rightarrow> APIClient \<Rightarrow> NetBoxPrefixReference \<Rightarrow> int32 \<Rightarrow> bool" where
  "resolves_to E c ref i \<longleftrightarrow>
     (case pr_ID ref of
        Some j \<Rightarrow> i = j
      | None \<Rightarrow> pr_CIDR ref \<noteq> [] \<and> (\<exists>p h1 h2. px_ID p = i \<and>
          paged E c (dec_prefix (float_text E)) prefixes_path (prefix_query ref) h1 [p] h2))"

lemma resolve_loop_resolves:
  "holds (\<lambda>r h'. \<forall>js. r = Inr js \<longrightarrow> (\<exists>ks. js = ids @ ks \<and> list_all2 (resolves_to E c) refs ks))
    (resolve_loop E c ids refs h)"
proof (induction refs arbitrary: ids h)
  case (Cons ref refs)
  have rec: "holds (\<lambda>r h'. \<forall>js. r = Inr js \<longrightarrow> (\<exists>ks. js = ids @ ks \<and> list_all2 (resolves_to E c) (ref # refs) ks))
      (resolve_loop E c (ids @ [i]) refs h1)" if "resolves_to E c ref i" for i h1
    by (rule holds_mono [OF Cons.IH]) (use that in auto)
  show ?case
  proof (cases "pr_ID ref")
    case (Some i)
    then have "resolves_to E c ref i" by (simp add: resolves_to_def)
    from rec [OF this, of h] Some show ?thesis by simp
  next
    case None
    show ?thesis
    proof (cases "pr_CIDR ref = []")
      case False
      show ?thesis
        unfolding resolve_loop.simps None option.case if_P [OF False] holds_bind
      proof (rule holds_mono [OF holds_run], goal_cases)
        case (1 r h1)
        have "resolves_to E c ref (px_ID p)" if "r = Inr [p]" for p
          using 1 that None False by (auto simp: resolves_to_def listAll_iff_paged)
        with rec show ?case by (auto split: sum.splits list.splits)
      qed
    qed (simp add: None)
  qed
qed simp

text \<open>C30: ResolvePrefixIDs yields one ID per reference, in the order of the references: the ID the
  reference names, or the ID of the only prefix that NetBox lists for its CIDR and VRF; no prefix
  and more than one are errors. It sends only GET requests.\<close>

theorem resolve_prefix_ids:
  "holds (\<lambda>r h'. (\<forall>ev \<in> set (added h h'). is_get ev) \<and>
      (case r of Inl e \<Rightarrow> client_err e | Inr ids \<Rightarrow> list_all2 (resolves_to E c) refs ids))
    (ResolvePrefixIDs E c refs h)"
  unfolding ResolvePrefixIDs_def
  by (rule holds_mono [OF holds_conj [OF resolve_loop_holds resolve_loop_resolves]])
     (auto simp: grows_added list_all_iff split: sum.splits)

theorem resolve_prefix_ids_witness:
  "\<exists>h'. ResolvePrefixIDs small_netbox sample_client
       [\<lparr>pr_ID = Some 5, pr_CIDR = [], pr_VRFID = None, pr_Gateway = []\<rparr>,
        \<lparr>pr_ID = None, pr_CIDR = ''10.0.0.0/24'', pr_VRFID = None, pr_Gateway = []\<rparr>] [] = Some (Inr [5, 7], h') \<and>
     (\<forall>ev \<in> set h'. is_get ev)"
proof -
  let ?refs = "[\<lparr>pr_ID = Some 5, pr_CIDR = [], pr_VRFID = None, pr_Gateway = []\<rparr>,
    \<lparr>pr_ID = None, pr_CIDR = ''10.0.0.0/24'', pr_VRFID = None, pr_Gateway = []\<rparr>]"
  obtain h' where run: "ResolvePrefixIDs small_netbox sample_client ?refs [] = Some (Inr [5, 7], h')"
    by (simp add: ResolvePrefixIDs_def small_fields small_listAll)
  from holdsD [OF resolve_prefix_ids run] run show ?thesis by auto
qed

section \<open>Allocation and deletion\<close>

text \<open>A request that allocates for a claim: its custom fields are those of the metadata, except that
  the claim UID field holds the UID.\<close>

definition allocation_for :: "env \<Rightarrow> APIClient \<Rightarrow> int32 \<Rightarrow> AllocationRequest \<Rightarrow> event \<Rightarrow> bool" where
  "allocation_for E c i req ev \<longleftrightarrow>
     (\<exists>cf tags rest. ev = EHttp (build_request E c ''POST'' (available_ips_path i) [] (Some (JArr [JObj
         ([(''status'', JStr (ar_Status req)), (''description'', JStr (ar_Description req)),
           (''custom_fields'', JObj (map (\<lambda>(k, v). (k, JStr v)) cf)), (''tags'', JArr (map tag_json tags))] @ rest)]))) \<and>
        map_of cf = (map_of (rev (em_CustomFields (ar_Metadata req))))(ar_ClaimUIDFieldName req \<mapsto> ar_ClaimUID req))"

lemma payload_allocates:
  "allocation_for E c i req (EHttp (build_request E c ''POST'' (available_ips_path i) []
     (Some (JArr [allocation_payload req tags]))))"
proof -
  have "map_of (allocation_custom_fields req) =
      (map_of (rev (em_CustomFields (ar_Metadata req))))(ar_ClaimUIDFieldName req \<mapsto> ar_ClaimUID req)"
    by (auto simp: allocation_custom_fields_def update_conv' map_of_maps_copy fun_eq_iff split: option.splits)
  then show ?thesis
    unfolding allocation_for_def allocation_payload_def str_map_json_def by blast
qed

text \<open>C22: every allocation request carries the identity of the claim. Whatever the server answers,
  AllocateIPAddress sends at most one allocation request, to the given prefix; in its body the
  custom fields are those of the metadata, except that the claim UID field always holds the UID of
  the claim, also when the metadata names that field; status and description are those asked for.\<close>

theorem allocation_request_identifies_claim:
  "holds (\<lambda>_ h'. allocs (added h h') \<le> 1 \<and>
      (\<forall>ev \<in> set (added h h'). is_alloc ev \<longrightarrow> allocation_for E c i req ev))
    (AllocateIPAddress E c i req h)"
proof (rule holds_mono [OF holds_conj [OF AllocateIPAddress_cases AllocateIPAddress_holds]], goal_cases)
  case (1 r h')
  from 1 have one: "allocs (added h h') \<le> 1" by simp
  from 1 obtain h1 where g: "grows quiet h h1" and
    h': "h' = h1 \<or> (\<exists>tags. h' = h1 @ [EHttp (build_request E c ''POST'' (available_ips_path i) []
            (Some (JArr [allocation_payload req tags])))])" by blast
  from g obtain t where t: "h1 = h @ t" "\<forall>ev \<in> set t. \<not> is_alloc ev"
    by (auto simp: grows_def list_all_iff dest: is_alloc_not_quiet)
  from h' have "\<forall>ev \<in> set (added h h'). is_alloc ev \<longrightarrow> allocation_for E c i req ev"
    using t(2) payload_allocates by (elim disjE exE) (auto simp: t(1))
  with one show ?case by blast
qed

definition sample_request :: AllocationRequest where
  "sample_request =
     \<lparr>ar_Metadata = \<lparr>em_TenantID = None, em_VRFID = None, em_DNSName = [], em_Tags = [],
        em_CustomFields = [(''f'', ''forged'')]\<rparr>,
      ar_OwnershipTag = ''t'', ar_ClaimUIDFieldName = ''f'', ar_ClaimUID = ''u1'', ar_Description = ''ns/c'',
      ar_Status = ''active''\<rparr>"

lemma small_ensureTag: "ensureTag small_netbox sample_client ''t'' h =
    Some (Inr (tag_named ''t''), h @ [small_get tags_path [(''name'', [''t''])]])"
  by (simp add: ensureTag_def small_listAll) (simp add: tag_named_def)

lemma trim_t: "trim_space ''t'' = ''t''"
  by (rule trim_space_graphic) (simp add: is_graphic_def)

lemma small_answers:
  "http_do small_netbox h hc (build_request E c ''POST'' p q b) =
     Inr ((ok_response created_page)\<lparr>rs_StatusCode := 201\<rparr>)"
  "http_do small_netbox h hc (build_request E c ''DELETE'' p q b) =
     Inr ((ok_response [])\<lparr>rs_StatusCode := 404\<rparr>)"
  by (simp_all add: small_netbox_def build_request_def)

lemma small_post:
  "AllocateIPAddress small_netbox sample_client 7 sample_request h =
     Some (Inr (mapIPAddress \<lparr>ia_ID = 9, ia_Address = ''10.0.0.5/24'', ia_DNSName = [], ia_Status = None, ia_Tags = [],
         ia_CustomFields = []\<rparr>),
       h @ [small_get tags_path [(''name'', [''t''])],
            EHttp (build_request small_netbox sample_client ''POST'' (available_ips_path 7) []
              (Some (JArr [allocation_payload sample_request [tag_named ''t'']])))])"
  by (simp add: AllocateIPAddress_def appendUnique_def ensureTags_def trim_t small_ensureTag sample_request_def
      client_post_def small_eval small_answers)
     (simp add: ok_response_def small_pages small_nonempty containsStatus_def)

theorem allocation_request_identifies_claim_witness:
  "\<exists>r ev h'. AllocateIPAddress small_netbox sample_client 7 sample_request [] = Some (r, h') \<and> ev \<in> set h' \<and>
     allocation_for small_netbox sample_client 7 sample_request ev \<and> allocs h' = 1"
proof -
  let ?ev = "EHttp (build_request small_netbox sample_client ''POST'' (available_ips_path 7) []
    (Some (JArr [allocation_payload sample_request [tag_named ''t'']])))"
  obtain r h' where run: "AllocateIPAddress small_netbox sample_client 7 sample_request [] = Some (r, h')"
    and ev: "?ev \<in> set h'" by (simp add: small_post)
  from holdsD [OF allocation_request_identifies_claim run] ev
  have "allocs h' \<le> 1" "allocation_for small_netbox sample_client 7 sample_request ?ev"
    by (auto simp: is_alloc_request)
  moreover have "allocs h' \<noteq> 0" using ev by (force simp: allocs_def filter_empty_conv is_alloc_request)
  ultimately show ?thesis using run ev by (metis le_neq_implies_less less_one)
qed

lemma client_do_answer:
  assumes "base_ok E c" "plain_path p"
    and "http_do E h (ac_httpClient c) (build_request E c m p q b) = Inr resp"
  shows "client_do E c m p q b z d ex h = Some (read_response m p z d ex resp, h @ [EHttp (build_request E c m p q b)])"
  using assms by (simp add: client_do_sent)

text \<open>C23: what an allocation makes of the answer to its request. It reports the prefix as exhausted
  exactly when the answer is a success with an empty list or no body, or has status 400 or 409 and
  its body speaks of available IPs or addresses, in any case of letters; it returns an address only
  from a success, the first one of the list.\<close>

theorem allocate_answers:
  fixes E c i req tags
  defines "rq \<equiv> build_request E c ''POST'' (available_ips_path i) [] (Some (JArr [allocation_payload req tags]))"
  assumes tags: "ensureTags E c (appendUnique (em_Tags (ar_Metadata req)) [ar_OwnershipTag req]) h = Some (Inr tags, h1)"
    and base: "base_ok E c"
    and ans: "http_do E h1 (ac_httpClient c) rq = Inr \<lparr>rs_StatusCode = code, rs_Status = status, rs_Body = Inr body\<rparr>"
  shows "\<exists>r. AllocateIPAddress E c i req h = Some (r, h1 @ [EHttp rq]) \<and>
    (r = Inl ErrNoAvailableIP \<longleftrightarrow>
       code \<in> {200, 201} \<and> (body = [] \<or> Option.bind (json_parse body) (dec_slice (dec_ip (float_text E))) = Some []) \<or>
       code \<in> {400, 409} \<and> (str_contains (to_lower (unicode E) body) ''available ip'' \<or>
         str_contains (to_lower (unicode E) body) ''available addresses'')) \<and>
    (\<forall>a. r = Inr a \<longrightarrow> code \<in> {200, 201} \<and> (\<exists>ip ips.
       Option.bind (json_parse body) (dec_slice (dec_ip (float_text E))) = Some (ip # ips) \<and> a = mapIPAddress ip))"
proof -
  have run: "client_post E c (available_ips_path i) (JArr [allocation_payload req tags]) []
      (dec_slice (dec_ip (float_text E))) [200, 201] h1 =
    Some (read_response ''POST'' (available_ips_path i) [] (Some (dec_slice (dec_ip (float_text E)))) [200, 201]
      \<lparr>rs_StatusCode = code, rs_Status = status, rs_Body = Inr body\<rparr>, h1 @ [EHttp rq])"
    unfolding client_post_def rq_def by (rule client_do_answer) (use base ans in \<open>simp_all add: rq_def\<close>)
  show ?thesis
    by (auto simp: AllocateIPAddress_def tags run read_response_def containsStatus_def isNoAvailableIPError_def Let_def
        split: option.splits list.splits if_splits)
qed

theorem allocate_answers_witness:
  "\<exists>a h'. AllocateIPAddress small_netbox sample_client 7 sample_request [] = Some (Inr a, h') \<and>
     aa_ID a = 9 \<and> length h' = 2"
proof -
  let ?h1 = "[small_get tags_path [(''name'', [''t''])]]"
  have tags: "ensureTags small_netbox sample_client (appendUnique (em_Tags (ar_Metadata sample_request))
      [ar_OwnershipTag sample_request]) [] = Some (Inr [tag_named ''t''], ?h1)"
    by (simp add: appendUnique_def ensureTags_def trim_t small_ensureTag sample_request_def Let_def)
  from allocate_answers [OF tags, of 7 201 "''200 OK''" created_page] obtain r where
    run: "AllocateIPAddress small_netbox sample_client 7 sample_request [] = Some (r, ?h1 @
      [EHttp (build_request small_netbox sample_client ''POST'' (available_ips_path 7) []
        (Some (JArr [allocation_payload sample_request [tag_named ''t'']])))])"
    by (auto simp: small_fields small_answers ok_response_def)
  moreover have "r = Inr (mapIPAddress \<lparr>ia_ID = 9, ia_Address = ''10.0.0.5/24'', ia_DNSName = [],
      ia_Status = None, ia_Tags = [], ia_CustomFields = []\<rparr>)"
    using run by (simp add: small_post)
  ultimately show ?thesis by (simp add: mapIPAddress_def Let_def split: prod.splits)
qed

text \<open>C24: deleting an address twice is harmless: a deletion succeeds exactly when NetBox answers 204
  or that the address does not exist, 404; it is one DELETE request for that record, without a
  body.\<close>

theorem delete_answers:
  fixes E c i
  defines "rq \<equiv> build_request E c ''DELETE'' (address_path i) [] None"
  assumes base: "base_ok E c"
    and ans: "http_do E h (ac_httpClient c) rq = Inr \<lparr>rs_StatusCode = code, rs_Status = status, rs_Body = Inr body\<rparr>"
  shows "\<exists>r. DeleteIPAddress E c i h = Some (r, h @ [EHttp rq]) \<and> (r = Inr () \<longleftrightarrow> code \<in> {204, 404})"
proof -
  have "client_do E c ''DELETE'' (address_path i) [] None () None [204, 404] h =
    Some (read_response ''DELETE'' (address_path i) () None [204, 404]
      \<lparr>rs_StatusCode = code, rs_Status = status, rs_Body = Inr body\<rparr>, h @ [EHttp rq])"
    unfolding rq_def by (rule client_do_answer) (use base ans in \<open>simp_all add: rq_def\<close>)
  then show ?thesis
    by (auto simp: DeleteIPAddress_def read_response_def containsStatus_def)
qed

theorem delete_answers_witness:
  "\<exists>h'. DeleteIPAddress small_netbox sample_client 3 [] = Some (Inr (), h') \<and> length h' = 1"
  using delete_answers [of small_netbox sample_client "[]" 3 404 "''200 OK''" "[]"]
  by (auto simp: small_fields small_answers ok_response_def)

section \<open>Clients\<close>





end
