(* ===== verification/Totality.thy ===== *)
theory Totality
  imports Netbox_Properties Claim_Properties Netbox_Store
begin

text \<open>
  That a reconcile of a claim returns: it neither panics nor waits forever. The client side is the
  locale \<open>responsive_client\<close> (every call of the NetBox client returns) and the loop is proved over
  any handler in the locale \<open>responsive_handler\<close>. The NetBox handler is responsive over a responsive
  client, the HTTP client is responsive on servers whose pagination ends.
\<close>

definition runs :: "'a option \<Rightarrow> bool" where
  "runs m \<longleftrightarrow> m \<noteq> None"

lemma runs_Some [simp]: "runs (Some x)"
  by (simp add: runs_def)

lemma runs_bind: "runs m \<Longrightarrow> (\<And>r h. m = Some (r, h) \<Longrightarrow> runs (f (r, h))) \<Longrightarrow> runs (Option.bind m f)"
  by (cases m) (auto simp: runs_def)

lemma runs_bind_value: "runs m \<Longrightarrow> (\<And>x. m = Some x \<Longrightarrow> runs (f x)) \<Longrightarrow> runs (Option.bind m f)"
  by (cases m) (auto simp: runs_def)

lemma call_runs [simp]: "runs (call ev f h)" "runs (call_ok ev g h)" "runs (emit ev h)"
  by (simp_all add: call_def call_ok_def emit_def)

lemma record_runs [simp]: "runs (RecordNormal b ob rs ac m h)" "runs (RecordWarning b ob rs ac m h)"
  by (simp_all add: RecordNormal_def RecordWarning_def recordEvent_def)

section \<open>The client\<close>

locale responsive_client =
  fixes C :: nb_client
  assumes resolve_runs: "runs (nbResolvePrefixIDs C refs h)"
    and details_runs: "runs (nbGetPrefixDetails C ids h)"
    and field_runs: "runs (nbEnsureIPAddressCustomField C f h)"
    and allocate_runs: "runs (nbAllocateIPAddress C i req h)"
    and find_uid_runs: "runs (nbFindIPAddressByClaimUID C tag f uid h)"
    and find_address_runs: "runs (nbFindIPAddressByAddress C tag a h)"
    and delete_runs: "runs (nbDeleteIPAddress C j h)"
begin

lemma gatewayDetails_runs: "runs (gatewayDetails E pool C spec ids h)"
  by (auto simp: gatewayDetails_def Let_def intro!: runs_bind resolve_runs details_runs split: sum.splits)

lemma allocate_loop_runs: "runs (allocate_loop C req ids h)"
  by (induction ids arbitrary: h) (auto intro!: runs_bind allocate_runs split: sum.splits)

lemma allocate_new_runs: "runs (allocate_new E C pool claim address h)"
  by (auto simp: allocate_new_def Let_def intro!: runs_bind field_runs resolve_runs allocate_loop_runs
      gatewayDetails_runs split: sum.splits option.splits)

lemma find_by_candidates_runs: "runs (find_by_candidates C tag cs h)"
  by (induction cs arbitrary: h) (auto intro!: runs_bind find_address_runs split: sum.splits option.splits)

lemma release_record_runs: "runs (release_record C spec claim address h)"
  by (auto simp: release_record_def findExistingNetBoxIP_def intro!: runs_bind find_uid_runs
      find_by_candidates_runs delete_runs split: sum.splits option.splits)

end

text \<open>The store of \<open>Netbox_Store\<close> answers every call.\<close>

interpretation store_responsive: responsive_client "store_client addrs" for addrs
  by unfold_locales simp_all

section \<open>The handler\<close>

lemma load_runs: "runs (LoadConnectionConfig E ns ref h)"
  using LoadConnectionConfig_returns by (simp add: runs_def)

lemma connect_runs: "runs (connect E nh pool h)"
  by (auto simp: connect_def intro!: runs_bind load_runs)

lemma connect_client:
  "connect E nh pool h = Some (Inr C, h') \<Longrightarrow> \<exists>cfg. nh_newClientFunc nh cfg = Inr C"
  by (auto simp: connect_def split: Option.bind_splits sum.splits)

definition responsive_factory :: "(ConnectionConfig \<Rightarrow> err + nb_client) \<Rightarrow> bool" where
  "responsive_factory f \<longleftrightarrow> (\<forall>cfg C. f cfg = Inr C \<longrightarrow> responsive_client C)"

lemma factory_client:
  "responsive_factory (nh_newClientFunc nh) \<Longrightarrow> connect E nh pool h = Some (Inr C, h') \<Longrightarrow> responsive_client C"
  using connect_client by (fastforce simp: responsive_factory_def)

lemma EnsureAddress_runs:
  assumes "responsive_factory (nh_newClientFunc nh)" "nh_pool nh \<noteq> None"
  shows "runs (EnsureAddress E nh address h)"
proof -
  note client = factory_client [OF assms(1)]
  have "runs (ensure_address_body E nh pool address h)" for pool
    unfolding ensure_address_body_def Let_def
    by (auto intro!: runs_bind connect_runs responsive_client.find_uid_runs responsive_client.gatewayDetails_runs
        responsive_client.allocate_new_runs split: sum.splits option.splits dest!: client)
  then show ?thesis
    using assms(2) by (auto simp: EnsureAddress_def intro!: runs_bind)
qed

lemma ReleaseAddress_runs:
  assumes "responsive_factory (nh_newClientFunc nh)"
  shows "runs (ReleaseAddress E nh h)"
proof -
  note client = factory_client [OF assms]
  have "runs (release_address_body E nh pool h)" for pool
    unfolding release_address_body_def Let_def
    by (auto intro!: runs_bind connect_runs responsive_client.release_record_runs split: sum.splits dest!: client)
  then show ?thesis
    by (auto simp: ReleaseAddress_def intro!: runs_bind split: option.splits)
qed

lemma FetchPool_runs: "runs (FetchPool E nh h)"
  by (auto simp: FetchPool_def Let_def intro!: runs_bind split: sum.splits)

lemma FetchPool_ready:
  assumes "FetchPool E nh h = Some (((pool, res, err), nh'), h')"
  shows "nh_newClientFunc nh' = nh_newClientFunc nh \<and> (err = None \<longrightarrow> res = None \<and> nh_pool nh' \<noteq> None)"
  using assms by (auto simp: FetchPool_def call_def Let_def split: if_splits sum.splits)

section \<open>The reconcile loop\<close>

lemma poll_runs: "runs (poll_visible E ns name n h)"
  by (induction n arbitrary: h) (auto intro!: runs_bind split: sum.splits option.splits)

lemma delete_ip_address_runs: "runs (delete_ip_address E b claim address h)"
  by (auto simp: delete_ip_address_def Let_def intro!: runs_bind split: prod.splits option.splits)

lemma getLinkedCluster_runs: "runs (getLinkedCluster E claim h)"
  by (auto simp: getLinkedCluster_def Let_def intro!: runs_bind split: sum.splits)

lemma finish_claim_runs: "runs (finish_claim E b had address claim h)"
  by (auto simp: finish_claim_def Let_def intro!: runs_bind)

text \<open>A handler whose calls return: \<open>ok\<close> marks the states of a handler that \<open>ClaimHandlerFor\<close> made,
  \<open>ready\<close> those in which its pool was fetched.\<close>

locale responsive_handler =
  fixes E :: env and ad :: "'s provider_adapter" and ok :: "'s \<Rightarrow> bool" and ready :: "'s \<Rightarrow> bool"
  assumes made_ok: "ok (adClaimHandlerFor ad claim)"
    and fetch_runs: "runs (chFetchPool (adOps ad) s h)"
    and fetch_ok: "ok s \<Longrightarrow> chFetchPool (adOps ad) s h = Some (((pool, res, err), s'), h') \<Longrightarrow>
      ok s' \<and> (err = None \<longrightarrow> res = None \<and> ready s')"
    and ensure_runs: "ok s \<Longrightarrow> ready s \<Longrightarrow> runs (chEnsureAddress (adOps ad) s address h)"
    and release_runs: "ok s \<Longrightarrow> runs (chReleaseAddress (adOps ad) s h)"
    and owner_refs: "owner_refs_ok E"
begin

lemma owners_run: "runs (ensureIPAddressOwnerReferences E address claim pool)"
  using ensureIPAddressOwnerReferences_total [OF owner_refs] by (simp add: runs_def)

lemma mutate_runs: "ok s \<Longrightarrow> ready s \<Longrightarrow> runs (mutate_address E (adOps ad) s claim pool address h)"
  by (auto simp: mutate_address_def intro!: runs_bind ensure_runs runs_bind_value [OF owners_run]
      split: option.splits sum.splits)

lemma create_or_patch_runs:
  assumes "ok s" "ready s"
  shows "runs (create_or_patch E initial (mutate_address E (adOps ad) s claim pool) h)"
  by (auto simp: create_or_patch_def Let_def intro!: runs_bind mutate_runs assms split: option.splits sum.splits)

lemma ensureAddress_runs: "ok s \<Longrightarrow> ready s \<Longrightarrow> runs (ensureAddress E (adOps ad) s pool claim h)"
  by (auto simp: ensureAddress_def intro!: runs_bind create_or_patch_runs poll_runs split: option.splits)

lemma reconcileDelete_runs: "ok s \<Longrightarrow> runs (reconcileDelete E b (adOps ad) s claim h)"
  by (auto simp: reconcileDelete_def Let_def intro!: runs_bind release_runs delete_ip_address_runs
      split: option.splits sum.splits)

lemma reconcileClaimAddress_runs: "runs (reconcileClaimAddress E b ad claim h)"
  by (auto simp: reconcileClaimAddress_def Let_def intro!: runs_bind fetch_runs reconcileDelete_runs
      ensureAddress_runs finish_claim_runs dest!: fetch_ok [OF made_ok] split: option.splits)

lemma reconcile_patched_runs: "runs (reconcile_patched E b ad claim h)"
  by (auto simp: reconcile_patched_def Let_def intro!: runs_bind reconcileClaimAddress_runs
      split: option.splits prod.splits)

lemma Reconcile_runs: "runs (Reconcile E b ad namespace name h)"
  by (auto simp: Reconcile_def intro!: runs_bind getLinkedCluster_runs reconcile_patched_runs
      split: option.splits sum.splits)

end

text \<open>The NetBox handler is responsive over every responsive client.\<close>

definition made_by :: "env \<Rightarrow> NetBoxProviderAdapter \<Rightarrow> netboxClaimHandler \<Rightarrow> bool" where
  "made_by E a nh \<longleftrightarrow> nh_newClientFunc nh = new_client_func E (pa_NewClient a)"

lemma netbox_responsive:
  assumes "responsive_factory (new_client_func E (pa_NewClient a))" "owner_refs_ok E"
  shows "responsive_handler E (netbox_adapter E a) (made_by E a) (\<lambda>nh. nh_pool nh \<noteq> None)"
proof (rule responsive_handler.intro, goal_cases)
  case (1 claim)
  show ?case by (simp add: netbox_adapter_def ClaimHandlerFor_def made_by_def)
next
  case (2 s h)
  show ?case by (simp add: netbox_handler_ops_def FetchPool_runs)
next
  case (3 s h pool res err s' h')
  then show ?case using FetchPool_ready [of E s h pool res err s' h'] by (simp add: netbox_handler_ops_def made_by_def)
next
  case (4 s address h)
  then show ?case using assms(1) by (simp add: netbox_handler_ops_def made_by_def EnsureAddress_runs)
next
  case (5 s h)
  then show ?case using assms(1) by (simp add: netbox_handler_ops_def made_by_def ReleaseAddress_runs)
next
  case 6
  show ?case by (rule assms(2))
qed

lemma claim_env_owner_refs: "owner_refs_ok (claim_env d)"
  by (auto simp: owner_refs_ok_def claim_env_def is_pool_ref_def own_pool_def)

interpretation store_handler: responsive_handler "claim_env d" "netbox_adapter (claim_env d) (store_adapter addrs)"
    "made_by (claim_env d) (store_adapter addrs)" "\<lambda>nh. nh_pool nh \<noteq> None" for d addrs
  by (rule netbox_responsive [OF _ claim_env_owner_refs])
     (auto simp: responsive_factory_def new_client_func_def store_adapter_def intro: store_responsive.responsive_client_axioms)

section \<open>The HTTP client\<close>

text \<open>A server whose pagination ends, for each kind of list the client reads.\<close>

definition pagination_ends :: "env \<Rightarrow> APIClient \<Rightarrow> bool" where
  "pagination_ends E c \<longleftrightarrow>
     (\<exists>rank. links_descend E c dec_tag rank) \<and>
     (\<exists>rank. links_descend E c (dec_prefix (float_text E)) rank) \<and>
     (\<exists>rank. links_descend E c (dec_ip (float_text E)) rank) \<and>
     (\<exists>rank. links_descend E c dec_custom_field rank)"

lemma listAll_runs: "links_descend E c d rank \<Longrightarrow> runs (listAll E c d p q h)"
  using listAll_loop_returns by (simp add: listAll_def runs_def)

lemma do_runs: "runs (client_get E c p q z d h)" "runs (client_post E c p b z d ex h)"
  "runs (client_do E c m p q bd z dd ex h)"
  by (simp_all add: client_get_def client_post_def runs_def del: not_None_eq)

lemma lists_run:
  assumes "pagination_ends E c"
  shows "runs (listAll E c dec_tag p q h)" "runs (listAll E c (dec_prefix (float_text E)) p q h)"
    "runs (listAll E c (dec_ip (float_text E)) p q h)" "runs (listAll E c dec_custom_field p q h)"
  using assms listAll_runs unfolding pagination_ends_def by blast+

lemma ensureTag_runs: "pagination_ends E c \<Longrightarrow> runs (ensureTag E c name h)"
  by (auto simp: ensureTag_def intro!: runs_bind lists_run do_runs split: sum.splits option.splits)

lemma ensureTags_loop_runs: "pagination_ends E c \<Longrightarrow> runs (ensureTags_loop E c out names h)"
  by (induction names arbitrary: out h) (auto simp: Let_def intro!: runs_bind ensureTag_runs split: sum.splits)

lemma resolve_loop_runs: "pagination_ends E c \<Longrightarrow> runs (resolve_loop E c ids refs h)"
  by (induction refs arbitrary: ids h)
     (auto intro!: runs_bind lists_run split: option.splits sum.splits list.splits)

lemma APIClient_responsive:
  assumes "pagination_ends E c"
  shows "responsive_client (APIClient_as_Client E c)"
proof (rule responsive_client.intro, goal_cases)
  case (1 refs h)
  show ?case using assms by (simp add: APIClient_as_Client_def ResolvePrefixIDs_def resolve_loop_runs)
next
  case (2 ids h)
  show ?case using assms
    by (auto simp: APIClient_as_Client_def GetPrefixDetails_def intro!: runs_bind lists_run split: sum.splits)
next
  case (3 f h)
  show ?case using assms
    by (auto simp: APIClient_as_Client_def EnsureIPAddressCustomField_def intro!: runs_bind lists_run split: sum.splits)
next
  case (4 i req h)
  show ?case using assms
    by (auto simp: APIClient_as_Client_def AllocateIPAddress_def ensureTags_def
        intro!: runs_bind ensureTags_loop_runs do_runs split: sum.splits)
next
  case (5 tag f uid h)
  show ?case using assms
    by (auto simp: APIClient_as_Client_def FindIPAddressByClaimUID_def intro!: runs_bind ensureTag_runs lists_run
        split: sum.splits)
next
  case (6 tag a h)
  show ?case using assms
    by (auto simp: APIClient_as_Client_def FindIPAddressByAddress_def intro!: runs_bind ensureTag_runs lists_run
        split: sum.splits)
next
  case (7 j h)
  show ?case
    by (auto simp: APIClient_as_Client_def DeleteIPAddress_def intro!: runs_bind do_runs split: sum.splits)
qed

lemma NewClient_responsive: "(\<And>c. pagination_ends E c) \<Longrightarrow> responsive_factory (NewClient E)"
  by (auto simp: responsive_factory_def NewClient_def intro: APIClient_responsive split: sum.splits)

section \<open>The pool reconcilers\<close>

lemma warn_runs: "runs (warn_in_range rec obj ids h)"
  by (induction ids arbitrary: h) (auto intro!: runs_bind split: option.splits)

lemma resolve_with_client_runs:
  assumes "responsive_client C"
  shows "runs (resolve_with_client E ops C rec pool h)"
  by (auto simp: resolve_with_client_def resolvePrefixDetails_def intro!: runs_bind warn_runs
      responsive_client.resolve_runs [OF assms] responsive_client.details_runs [OF assms] split: sum.splits)

lemma resolvePoolPrefixes_runs:
  "responsive_factory f \<Longrightarrow> runs (resolvePoolPrefixes E ops rec f d pool h)"
  by (auto simp: resolvePoolPrefixes_def responsive_factory_def intro!: runs_bind load_runs resolve_with_client_runs
      split: sum.splits)

lemma reconcilePoolStatus_runs:
  assumes "responsive_factory f"
  shows "runs (reconcilePoolStatus E ops rec f d kind pool h)"
  by (auto simp: reconcilePoolStatus_def listAddressesInUse_def finish_pool_def Let_def
      intro!: runs_bind resolvePoolPrefixes_runs [OF assms] split: sum.splits option.splits)

lemma pool_reconcilers_run:
  assumes "responsive_factory (new_client_func E (rc_NewClient r))"
  shows "runs (NetBoxIPPool_Reconcile E r namespace name h)" "runs (GlobalNetBoxIPPool_Reconcile E r name h)"
  by (auto simp: NetBoxIPPool_Reconcile_def GlobalNetBoxIPPool_Reconcile_def deferred_pool_patch_def
      intro!: runs_bind reconcilePoolStatus_runs [OF assms] split: sum.splits option.splits)

section \<open>Every reconcile returns\<close>

text \<open>C11: every reconcile comes to an end. For every Kubernetes API server and every NetBox server whose
  pagination ends, whatever they answer and whichever calls fail, the reconcilers of claims and of
  both kinds of pools, with the HTTP client that main gives them, return a result: they do not panic
  on a missing pool or an empty list of owners, and they do not wait forever.\<close>

theorem reconciles_return:
  assumes "pa_NewClient a = None" "rc_NewClient r = None" "\<And>c. pagination_ends E c" "owner_refs_ok E"
  shows "(\<exists>res err h'. Reconcile E b (netbox_adapter E a) namespace name h = Some ((res, err), h')) \<and>
    (\<exists>res err h'. NetBoxIPPool_Reconcile E r namespace name h = Some ((res, err), h')) \<and>
    (\<exists>res err h'. GlobalNetBoxIPPool_Reconcile E r name h = Some ((res, err), h'))"
proof -
  have f: "responsive_factory (new_client_func E None)"
    using NewClient_responsive [OF assms(3)] by (simp add: new_client_func_def)
  then have "responsive_handler E (netbox_adapter E a) (made_by E a) (\<lambda>nh. nh_pool nh \<noteq> None)"
    using assms(1,4) by (intro netbox_responsive) simp_all
  then have "runs (Reconcile E b (netbox_adapter E a) namespace name h)" by (rule responsive_handler.Reconcile_runs)
  with pool_reconcilers_run [of E r, unfolded assms(2), OF f] show ?thesis by (auto simp: runs_def)
qed

lemma no_answer:
  assumes "\<And>h hc r. \<exists>e. http_do E h hc r = Inl e"
  shows "client_get E c p q z d h \<noteq> Some (Inr page, h1)"
  using assms by (auto simp: client_get_def client_do_def call_def Let_def split: option.splits sum.splits)
    (metis Inl_Inr_False)

lemma no_answer_ends: "(\<And>h hc r. \<exists>e. http_do E h hc r = Inl e) \<Longrightarrow> pagination_ends E c"
  by (simp add: pagination_ends_def links_descend_def no_answer)

theorem reconciles_return_witness:
  "(\<exists>res err h'. Reconcile (claim_env True) silent
     (netbox_adapter (claim_env True) \<lparr>pa_NewClient = None, pa_RequestTimeout = 30\<rparr>) ''ns'' ''c'' [] = Some ((res, err), h')) \<and>
   (\<exists>res err h'. NetBoxIPPool_Reconcile (claim_env True) sample_reconciler ''ns'' ''p'' [] = Some ((res, err), h'))"
proof -
  have "pagination_ends (claim_env True) c" for c
    by (rule no_answer_ends) (simp add: claim_env_def idle_env_def dead_env_def)
  from reconciles_return [where a = "\<lparr>pa_NewClient = None, pa_RequestTimeout = 30\<rparr>" and r = sample_reconciler,
      OF _ _ this claim_env_owner_refs]
  show ?thesis by (simp add: sample_reconciler_def)
qed

end
