(* ===== verification/Metadata_Properties.thy ===== *)
theory Metadata_Properties
  imports Netbox_Client
begin

text \<open>
  Properties of the pure parts of internal/netbox: comma separated lists, 32-bit numbers, the
  metadata of an allocation, the union of tag lists and tag slugs.
\<close>

section \<open>Comma separated lists and numbers\<close>

definition csv_item :: "string \<Rightarrow> bool" where
  "csv_item s \<longleftrightarrow> s \<noteq> [] \<and> trim_space s = s \<and> CHR '','' \<notin> set s"

text \<open>splitCSV reads back exactly the lists that can be written: joining items with commas and
  splitting the text gives the items again if and only if every item is nonempty, trimmed and free
  of commas.\<close>

lemma splitCSV_round_trip:
  "splitCSV (join_with '','' ss) = ss \<longleftrightarrow> list_all csv_item ss"
proof
  assume eq: "splitCSV (join_with '','' ss) = ss"
  have "csv_item s" if "s \<in> set ss" for s
    using that splitCSV_trimmed [of s "join_with '','' ss"] by (simp add: eq csv_item_def)
  then show "list_all csv_item ss" by (simp add: list_all_iff)
next
  assume "list_all csv_item ss"
  then show "splitCSV (join_with '','' ss) = ss"
    by (intro splitCSV_join) (auto simp: list_all_iff csv_item_def)
qed

lemma parse_int_below: "i < - (2 ^ (bits - 1)) \<Longrightarrow> parse_int bits (show_int i) = None"
proof -
  assume less: "i < - (2 ^ (bits - 1))"
  then have neg: "i < 0" by (meson less_trans neg_less_0_iff_less zero_less_numeral zero_less_power)
  have "\<not> nat (- i) \<le> 2 ^ (bits - 1)" using less by (simp add: nat_le_iff)
  with neg show ?thesis by (simp add: parse_int_def show_int_def parse_show_nat)
qed

text \<open>C40: parseInt32 accepts the decimal text of exactly the numbers of 32 bits, with their value;
  it never wraps a larger one around.\<close>

theorem parseInt32_decimal:
  "parseInt32 (show_int i) =
     (if - (2 ^ 31) \<le> i \<and> i < 2 ^ 31 then Inr (word_of_int i)
      else Inl (Ext (OtherErr ''strconv.ParseInt'')))"
  using parse_show_int [of 32 i] parse_int_out_of_range [of 32 i] parse_int_below [of i 32]
  by (auto simp: parseInt32_def not_le not_less)

section \<open>Union of tag lists\<close>

definition trimmed_values :: "string list \<Rightarrow> string list" where
  "trimmed_values vs = filter (\<lambda>v. v \<noteq> []) (map trim_space vs)"

lemma append_unique_loop_remdups:
  "distinct out \<Longrightarrow>
     append_unique_loop out vs = rev (remdups (rev (out @ trimmed_values vs)))"
proof (induction vs arbitrary: out)
  case Nil
  then show ?case by (simp add: trimmed_values_def distinct_remdups_id)
next
  case (Cons v vs)
  let ?v = "trim_space v"
  have drop: "remdups (ws @ ?v # rev out) = remdups (ws @ rev out)" if "?v \<in> set out" for ws
    using that by (subst (1 2) remdups_append2 [symmetric]) simp
  show ?case
    using Cons drop by (auto simp: trimmed_values_def Let_def)
qed

text \<open>appendUnique is the union of the two lists: it keeps of the trimmed, nonempty values the
  first occurrence of each, in their order. The reference definition removes the later duplicates
  with the library's remdups on the reversed list.\<close>

lemma appendUnique_remdups:
  "appendUnique values extras = rev (remdups (rev (trimmed_values (values @ extras))))"
  by (simp add: appendUnique_def append_unique_loop_remdups)

lemma set_trimmed_values: "set (trimmed_values vs) = trim_space ` set vs - {[]}"
  by (auto simp: trimmed_values_def)

lemma appendUnique_set:
  "set (appendUnique values extras) = trim_space ` (set values \<union> set extras) - {[]}"
  by (simp add: appendUnique_remdups set_trimmed_values)

lemma appendUnique_distinct: "distinct (appendUnique values extras)"
  by (simp add: appendUnique_remdups)

section \<open>The metadata of an allocation\<close>

text \<open>What the override of a number means: without an annotation, or with an empty one, the value
  of the pool; else the value the annotation spells, which fits into 32 bits.\<close>

definition chosen_int32 :: "str_map \<Rightarrow> string \<Rightarrow> int32 option \<Rightarrow> int32 option \<Rightarrow> bool" where
  "chosen_int32 m key old new \<longleftrightarrow>
     (case annotation_set m key of
        None \<Rightarrow> new = old
      | Some raw \<Rightarrow> \<exists>i. parse_int 32 raw = Some (sint i) \<and> new = Some i)"

lemma parse_int32_sint: "parse_int 32 raw = Some i \<Longrightarrow> sint (word_of_int i :: int32) = i"
  using parse_int_range [of 32 raw i] by (simp add: signed_take_bit_int_eq_self signed_of_int)

lemma override_int32_chosen:
  "override_int32 m key old = Inr new \<longleftrightarrow> chosen_int32 m key old new"
  by (auto simp: override_int32_def chosen_int32_def parseInt32_def parse_int32_sint
      split: option.splits sum.splits)

definition chosen_fields :: "str_map \<Rightarrow> str_map \<Rightarrow> str_map \<Rightarrow> bool" where
  "chosen_fields m old new \<longleftrightarrow>
     (case annotation_set m AnnotationCustomFields of
        None \<Rightarrow> map_of new = map_of (rev old)
      | Some raw \<Rightarrow> \<exists>values. Option.bind (json_parse raw) dec_map_string = Some values \<and>
          map_of new = map_of (rev old) ++ map_of (rev values))"

lemma splitCSV_items: "list_all csv_item (splitCSV raw)"
  using splitCSV_trimmed [of _ raw] by (auto simp: list_all_iff csv_item_def)

lemma map_of_copy: "map_of (maps_copy dst src) = map_of dst ++ map_of (rev src)"
  by (rule ext) (simp add: map_of_maps_copy map_add_def split: option.splits)

lemma override_fields_chosen:
  "override_custom_fields m (maps_copy [] old) = Inr new \<Longrightarrow> chosen_fields m old new"
  by (auto simp: override_custom_fields_def chosen_fields_def map_of_copy split: option.splits)

text \<open>A claim overrides the pool's metadata field by field. If EffectivePoolMetadata succeeds,
  tenant and VRF are those of the annotations, read as 32-bit numbers, and without an annotation
  those of the pool; the DNS name is that of the annotation even when it is empty; the tags are the
  items of the annotation and the custom fields are the pool's, overridden by those the annotation
  gives.\<close>

lemma effective_metadata:
  assumes "EffectivePoolMetadata d claim = Inr em"
  defines "m \<equiv> om_Annotations (cl_meta claim)"
  shows "chosen_int32 m AnnotationTenantID (md_TenantID d) (em_TenantID em)
    \<and> chosen_int32 m AnnotationVRFID (md_VRFID d) (em_VRFID em)
    \<and> em_DNSName em = (case map_of m AnnotationDNSName of None \<Rightarrow> md_DNSName d | Some n \<Rightarrow> n)
    \<and> (case annotation_set m AnnotationTags of
         None \<Rightarrow> em_Tags em = md_Tags d | Some raw \<Rightarrow> em_Tags em = splitCSV raw \<and> list_all csv_item (em_Tags em))
    \<and> chosen_fields m (md_CustomFields d) (em_CustomFields em)"
  using assms(1)
  by (auto simp: EffectivePoolMetadata_def m_def [symmetric] Let_def override_int32_chosen splitCSV_items
      dest: override_fields_chosen split: sum.splits option.splits)

lemma effective_metadata_example:
  "\<exists>em. EffectivePoolMetadata
       \<lparr>md_TenantID = Some 3, md_VRFID = Some 4, md_DNSName = ''pool'', md_Tags = [''p''], md_CustomFields = []\<rparr>
       \<lparr>cl_meta = empty_meta\<lparr>om_Annotations := [(AnnotationVRFID, ''12''), (AnnotationTags, ''a, b'')]\<rparr>,
        cl_ClusterName = [], cl_PoolRef = \<lparr>plr_APIGroup = [], plr_Kind = [], plr_Name = []\<rparr>, cl_AddressRef = [],
        cl_Conditions = []\<rparr> = Inr em \<and>
     em_TenantID em = Some 3 \<and> em_VRFID em = Some 12 \<and> em_DNSName em = ''pool'' \<and> em_Tags em = [''a'', ''b'']"
proof -
  let ?d = "\<lparr>md_TenantID = Some 3, md_VRFID = Some 4, md_DNSName = ''pool'', md_Tags = [''p''], md_CustomFields = []\<rparr>"
  let ?c = "\<lparr>cl_meta = empty_meta\<lparr>om_Annotations := [(AnnotationVRFID, ''12''), (AnnotationTags, ''a, b'')]\<rparr>,
    cl_ClusterName = [], cl_PoolRef = \<lparr>plr_APIGroup = [], plr_Kind = [], plr_Name = []\<rparr>, cl_AddressRef = [],
    cl_Conditions = []\<rparr>"
  have twelve: "parse_int 32 ''12'' = Some 12"
    by (simp add: parse_int_def digit_val_def is_digit_def byte_def)
  have csv: "splitCSV ''a, b'' = [''a'', ''b'']"
    by (simp add: splitCSV_def) (simp add: trim_space_def space1_def)
  have i12: "i = 12" if "sint i = 12" for i :: int32
  proof -
    have "i = word_of_int (sint i)" by simp
    with that show ?thesis by simp
  qed
  obtain em where run: "EffectivePoolMetadata ?d ?c = Inr em"
    by (simp add: EffectivePoolMetadata_def override_int32_def override_custom_fields_def annotation_set_def
        AnnotationVRFID_def AnnotationTags_def AnnotationTenantID_def AnnotationDNSName_def AnnotationCustomFields_def
        AnnotationPrefix_def parseInt32_def twelve)
  from effective_metadata [OF run] run show ?thesis
    by (auto simp: chosen_int32_def annotation_set_def AnnotationVRFID_def AnnotationTags_def AnnotationTenantID_def
        AnnotationDNSName_def AnnotationPrefix_def twelve csv dest: i12)
qed

section \<open>Tag slugs\<close>

abbreviation sep_char :: "char \<Rightarrow> bool" where
  "sep_char c \<equiv> c \<in> set ''-_''"

text \<open>The slugs NetBox accepts and shows: separated words of lower case letters and digits.\<close>

definition proper_ends :: "string \<Rightarrow> bool" where
  "proper_ends s \<longleftrightarrow> s \<noteq> [] \<and> \<not> sep_char (hd s) \<and> \<not> sep_char (last s)"

definition single_seps :: "string \<Rightarrow> bool" where
  "single_seps s \<longleftrightarrow> successively (\<lambda>c d. \<not> (sep_char c \<and> sep_char d)) s"

definition is_slug :: "string \<Rightarrow> bool" where
  "is_slug s \<longleftrightarrow> list_all slug_char s \<and> proper_ends s \<and> single_seps s"

lemma set_trim_set: "set (trim_set cs s) \<subseteq> set s"
  by (metis set_dropWhileD set_rev subsetI trim_set_def)

lemma trim_both_ends:
  assumes "rev (dropWhile P (rev (dropWhile P s))) \<noteq> []"
  defines "u \<equiv> rev (dropWhile P (rev (dropWhile P s)))"
  shows "\<not> P (hd u) \<and> \<not> P (last u)"
proof -
  let ?t = "dropWhile P s"
  have d: "dropWhile P (rev ?t) \<noteq> []" using assms(1) by (metis rev.simps(1))
  then have t: "?t \<noteq> []" by (metis dropWhile.simps(1) rev.simps(1))
  obtain p where "rev ?t = p @ dropWhile P (rev ?t)" by (metis takeWhile_dropWhile_id)
  with d have "last (dropWhile P (rev ?t)) = last (rev ?t)" by (metis last_appendR)
  with t d have "hd u = hd ?t" by (simp add: u_def hd_rev last_rev)
  with hd_dropWhile [OF t] hd_dropWhile [OF d] d show ?thesis by (simp add: u_def last_rev)
qed

lemma trim_set_ends: "trim_set ''-_'' s \<noteq> [] \<Longrightarrow> proper_ends (trim_set ''-_'' s)"
  using trim_both_ends [of sep_char s] unfolding trim_set_def proper_ends_def by blast

lemma dropWhile_hd: "\<not> P (hd s) \<Longrightarrow> dropWhile P s = s"
  by (cases s) auto

lemma trim_set_id: "proper_ends s \<Longrightarrow> trim_set ''-_'' s = s"
  by (simp add: proper_ends_def trim_set_def dropWhile_hd hd_rev del: set_simps)

lemma replace_non_slug_chars: "list_all slug_char (replace_non_slug b s)"
  by (induction b s rule: replace_non_slug.induct) (auto simp: slug_char_def)

lemma tag_slug: "is_slug ''tag''"
  by (simp add: is_slug_def slug_char_def is_lower_def proper_ends_def single_seps_def)

text \<open>C39: every slug is well formed: whatever the tag name, its slug is not empty, holds only lower
  case letters, digits, hyphens and underscores, and neither starts nor ends with a separator.\<close>

theorem slugifyTag_well_formed:
  "list_all slug_char (slugifyTag U raw) \<and> proper_ends (slugifyTag U raw)"
proof -
  let ?r = "replace_non_slug False (trim_set ''-_'' (slug_loop U (runes (trim_space (to_lower U raw))) [] False))"
  have "list_all slug_char (trim_set ''-_'' ?r)"
    using replace_non_slug_chars [of False] set_trim_set [of "''-_''" ?r] by (auto simp: list_all_iff)
  with tag_slug trim_set_ends [of ?r] show ?thesis
    by (auto simp: slugifyTag_def Let_def is_slug_def)
qed

lemma replace_non_slug_id: "list_all slug_char s \<Longrightarrow> replace_non_slug b s = s"
  by (induction b s rule: replace_non_slug.induct) auto

lemma slug_char_ascii: "slug_char c \<Longrightarrow> is_ascii c \<and> \<not> is_upper c \<and> is_graphic c"
  by (auto simp: slug_char_def is_lower_def is_digit_def is_upper_def is_ascii_def is_graphic_def less_eq_char_def)

lemma slug_ascii: "list_all slug_char s \<Longrightarrow> list_all is_ascii s"
  by (auto simp: list_all_iff dest: slug_char_ascii)

text \<open>On ASCII the loop runs over the bytes.\<close>

definition alnum_char :: "char \<Rightarrow> bool" where
  "alnum_char c \<longleftrightarrow> is_upper c \<or> is_lower c \<or> is_digit c"

lemma alnum_rune: "is_ascii c \<Longrightarrow> is_letter_rune U (byte c) \<or> is_digit_rune U (byte c) \<longleftrightarrow> alnum_char c"
  by (auto simp: is_letter_rune_def is_digit_rune_def alnum_char_def is_ascii_def is_upper_def is_lower_def
      is_digit_def less_eq_char_def byte_def)

lemma byte_eq: "byte c = byte d \<longleftrightarrow> c = d"
  by (metis char_of_byte)

lemma slug_alnum: "slug_char c \<longleftrightarrow> alnum_char c \<and> \<not> is_upper c \<or> sep_char c"
  by (auto simp: slug_char_def alnum_char_def is_upper_def is_lower_def is_digit_def less_eq_char_def)

lemma alnum_not_sep: "alnum_char c \<Longrightarrow> \<not> sep_char c"
  by (auto simp: alnum_char_def is_upper_def is_lower_def is_digit_def)

text \<open>What the loop has built: words and single separators, none at the start, and \<open>lastHyphen\<close>
  tells whether the text ends in a separator.\<close>

definition slug_so_far :: "string \<Rightarrow> bool \<Rightarrow> bool" where
  "slug_so_far b hy \<longleftrightarrow> list_all slug_char b \<and> single_seps b \<and>
     (b = [] \<longrightarrow> \<not> hy) \<and> (b \<noteq> [] \<longrightarrow> \<not> sep_char (hd b) \<and> (hy \<longleftrightarrow> sep_char (last b)))"

lemma single_seps_snoc: "single_seps (b @ [c]) \<longleftrightarrow> single_seps b \<and> (b = [] \<or> \<not> (sep_char (last b) \<and> sep_char c))"
  by (auto simp: single_seps_def successively_append_iff)

lemma slug_so_far_word:
  "slug_so_far b hy \<Longrightarrow> alnum_char c \<Longrightarrow> \<not> is_upper c \<Longrightarrow> slug_so_far (b @ [c]) False"
  using alnum_not_sep [of c]
  by (auto simp: slug_so_far_def single_seps_snoc slug_alnum hd_append simp del: set_simps)

lemma slug_so_far_sep:
  "slug_so_far b False \<Longrightarrow> b \<noteq> [] \<Longrightarrow> sep_char c \<Longrightarrow> slug_so_far (b @ [c]) True"
  by (auto simp: slug_so_far_def single_seps_snoc slug_alnum hd_append simp del: set_simps)

lemma slug_loop_so_far:
  assumes "list_all (\<lambda>c. is_ascii c \<and> \<not> is_upper c) s" "slug_so_far b hy"
  shows "\<exists>hy'. slug_so_far (slug_loop U (map byte s) b hy) hy'"
  using assms
proof (induction s arbitrary: b hy)
  case (Cons c s)
  have c: "is_ascii c" "\<not> is_upper c" and s: "list_all (\<lambda>c. is_ascii c \<and> \<not> is_upper c) s"
    using Cons.prems(1) by auto
  note IH = Cons.IH [OF s]
  note sep = slug_so_far_sep [where c = c] slug_so_far_sep [where c = "CHR ''-''"]
  show ?case
  proof (cases "alnum_char c")
    case True
    then show ?thesis
      using IH [OF slug_so_far_word [OF Cons.prems(2) True c(2)]] by (simp add: alnum_rune c encode_ascii)
  next
    case False
    have enc: "encode_rune (byte (CHR ''_'')) = ''_''" "encode_rune (byte (CHR ''-'')) = ''-''"
      by (simp_all add: encode_ascii is_ascii_def)
    show ?thesis
      using False IH Cons.prems(2) sep [of b] by (auto simp: alnum_rune c enc byte_eq)
  qed
qed auto

lemma single_seps_dropWhile: "single_seps s \<Longrightarrow> single_seps (dropWhile P s)"
  unfolding single_seps_def by (metis successively_append_iff takeWhile_dropWhile_id)

lemma single_seps_rev: "single_seps (rev s) = single_seps s"
  unfolding single_seps_def successively_rev
  by (rule arg_cong [where f = "\<lambda>P. successively P s"]) (auto simp: fun_eq_iff)

lemma single_seps_trim: "single_seps s \<Longrightarrow> single_seps (trim_set cs s)"
  by (simp add: trim_set_def single_seps_rev single_seps_dropWhile)

lemma lower_byte_not_upper: "\<not> is_upper (lower_byte c)"
  by (auto simp: lower_byte_def is_upper_def byte_def less_eq_char_def)

lemma lowered_ascii:
  assumes "list_all is_ascii raw"
  shows "list_all (\<lambda>c. is_ascii c \<and> \<not> is_upper c) (trim_space (to_lower U raw))"
  using assms set_trim_space [of "map lower_byte raw"]
  by (auto simp: to_lower_ascii list_all_iff lower_byte_not_upper lower_ascii)

lemma slugifyTag_ascii: "list_all is_ascii raw \<Longrightarrow> is_slug (slugifyTag U raw)"
proof -
  assume ascii: "list_all is_ascii raw"
  let ?v = "trim_space (to_lower U raw)"
  let ?b = "slug_loop U (runes ?v) [] False"
  have v: "list_all (\<lambda>c. is_ascii c \<and> \<not> is_upper c) ?v" using ascii by (rule lowered_ascii)
  then have "runes ?v = map byte ?v" by (intro runes_ascii) (auto simp: list_all_iff)
  moreover have "slug_so_far [] False" by (simp add: slug_so_far_def single_seps_def)
  ultimately obtain hy where hy: "slug_so_far ?b hy" using slug_loop_so_far [OF v] by metis
  from hy have "list_all slug_char ?b" by (simp add: slug_so_far_def)
  then have chars: "list_all slug_char (trim_set ''-_'' ?b)"
    using set_trim_set [of "''-_''" ?b] by (auto simp: list_all_iff)
  from hy have seps: "single_seps (trim_set ''-_'' ?b)"
    unfolding slug_so_far_def by (intro single_seps_trim) blast
  show ?thesis
  proof (cases "trim_set ''-_'' ?b = []")
    case True
    moreover have "trim_set ''-_'' [] = []" by (simp add: trim_set_def)
    ultimately have "slugifyTag U raw = ''tag''" by (simp add: slugifyTag_def Let_def)
    then show ?thesis by (simp add: tag_slug)
  next
    case False
    note ends = trim_set_ends [OF False]
    have "is_slug (trim_set ''-_'' ?b)" using chars seps ends by (simp add: is_slug_def)
    moreover have "?v \<noteq> []" using False by (auto simp: trim_set_def)
    ultimately show ?thesis
      unfolding slugifyTag_def Let_def replace_non_slug_id [OF chars] trim_set_id [OF ends]
      using False by (simp only: if_False)
  qed
qed

lemma slug_loop_id:
  assumes "list_all slug_char s" "single_seps s" "s \<noteq> [] \<Longrightarrow> sep_char (hd s) \<Longrightarrow> \<not> hy \<and> b \<noteq> []"
  shows "slug_loop U (map byte s) b hy = b @ s"
  using assms
proof (induction s arbitrary: b hy)
  case (Cons c s)
  have c: "is_ascii c" "slug_char c" using Cons.prems(1) slug_char_ascii by auto
  have s: "list_all slug_char s" "single_seps s"
    using Cons.prems(1,2) by (cases s; simp add: single_seps_def)+
  have enc: "encode_rune (byte (CHR ''_'')) = ''_''" "encode_rune (byte (CHR ''-'')) = ''-''"
    by (simp_all add: encode_ascii is_ascii_def)
  show ?case
  proof (cases "alnum_char c")
    case True
    have "slug_loop U (map byte s) (b @ [c]) False = (b @ [c]) @ s" by (rule Cons.IH [OF s]) simp
    with True show ?thesis by (simp add: alnum_rune c encode_ascii)
  next
    case False
    with c have sep: "sep_char c" by (simp add: slug_alnum)
    have "slug_loop U (map byte s) (b @ [c]) True = (b @ [c]) @ s"
      by (rule Cons.IH [OF s]) (use Cons.prems(2) sep in \<open>cases s; auto simp: single_seps_def\<close>)
    with False sep Cons.prems(3) show ?thesis by (auto simp: alnum_rune c enc byte_eq)
  qed
qed simp

lemma slugifyTag_slug: "is_slug s \<Longrightarrow> slugifyTag U s = s"
proof -
  assume slug: "is_slug s"
  then have chars: "list_all slug_char s" and ends: "proper_ends s" and seps: "single_seps s" by (auto simp: is_slug_def)
  have lower: "to_lower U s = s"
    using chars by (intro to_lower_fix) (auto simp: list_all_iff dest: slug_char_ascii)
  have trim: "trim_space s = s"
    using chars by (intro trim_space_graphic) (auto simp: list_all_iff dest: slug_char_ascii)
  have "slug_loop U (runes s) [] False = s"
    using slug_loop_id [OF chars seps, of False "[]"] ends by (simp add: runes_ascii slug_ascii [OF chars] proper_ends_def)
  then show ?thesis
    using ends chars by (simp add: slugifyTag_def lower trim trim_set_id replace_non_slug_id) (simp add: proper_ends_def)
qed

text \<open>The slugs of ASCII tag names are normal forms: besides being well formed they never have two
  separators in a row, and making the slug of a slug changes nothing, so a tag named like a slug
  gets itself as its slug.\<close>

lemma slugifyTag_normal_form:
  assumes "list_all is_ascii raw"
  shows "is_slug (slugifyTag U raw) \<and> slugifyTag U (slugifyTag U raw) = slugifyTag U raw"
  using slugifyTag_ascii [OF assms] slugifyTag_slug by blast

lemma slugifyTag_example:
  "\<forall>U. slugifyTag U (slugifyTag U '' My  API (Prod)'') = slugifyTag U '' My  API (Prod)'' \<and>
     slugifyTag U '' My  API (Prod)'' = ''my-api-prod''"
proof
  fix U
  have ascii: "list_all is_ascii '' My  API (Prod)''" by (simp add: is_ascii_def)
  have lower: "to_lower U '' My  API (Prod)'' = '' my  api (prod)''"
    unfolding to_lower_ascii [OF ascii] by code_simp
  have trim: "trim_space '' my  api (prod)'' = ''my  api (prod)''" by code_simp
  have runes: "runes ''my  api (prod)'' = map byte ''my  api (prod)''" by (rule runes_ascii) (simp add: is_ascii_def)
  have loop: "slug_loop U (map byte ''my  api (prod)'') [] False = ''my-api-prod-''"
    by (simp add: alnum_rune byte_eq encode_ascii is_ascii_def alnum_char_def is_upper_def is_lower_def is_digit_def)
  have "trim_set ''-_'' ''my-api-prod-'' = ''my-api-prod''" "trim_set ''-_'' ''my-api-prod'' = ''my-api-prod''"
    "replace_non_slug False ''my-api-prod'' = ''my-api-prod''"
    by code_simp+
  then have "slugifyTag U '' My  API (Prod)'' = ''my-api-prod''"
    unfolding slugifyTag_def lower trim runes loop Let_def by simp
  with slugifyTag_normal_form [OF ascii, of U]
  show "slugifyTag U (slugifyTag U '' My  API (Prod)'') = slugifyTag U '' My  API (Prod)'' \<and>
     slugifyTag U '' My  API (Prod)'' = ''my-api-prod''" by metis
qed

end
