(* ===== verification/Tag_Filter.thy ===== *)
theory Tag_Filter
  imports Netbox_Properties Metadata_Properties Claim_Properties
begin

text \<open>
  What a retry does when the ownership tag is not its own slug. NetBox filters a list of addresses by
  the slugs of tags; the client sends the name of the tag. The NetBox of this theory has the tag
  \<open>My API\<close> with the slug that the client itself gives it, and answers the lookup like NetBox: it
  lists the addresses allocated so far under the slug, and nothing under another text.
\<close>

definition tag_page :: string where
  \<open>tag_page = ''{"results":[{"name":"My API","slug":"my-api"}]}''\<close>

definition field_page :: string where
  \<open>field_page = ''{"results":[{"name":"cluster_api_claim_uid"}]}''\<close>

definition held_page :: string where
  \<open>held_page = ''{"results":[{"id":9,"address":"10.0.0.5/24","custom_fields":{"cluster_api_claim_uid":"u1"}}]}''\<close>

definition empty_page :: string where
  \<open>empty_page = ''{"results":[]}''\<close>

definition filtering_netbox :: env where
  "filtering_netbox = (claim_env False)\<lparr>http_do := (\<lambda>h c r. Inr
     (if rq_Method r = ''POST'' then (ok_response created_page)\<lparr>rs_StatusCode := 201\<rparr>
      else ok_response
        (if has_prefix (rq_URL r) ''https://nb/api/extras/tags/'' then tag_page
         else if has_prefix (rq_URL r) ''https://nb/api/extras/custom-fields/'' then field_page
         else if has_prefix (rq_URL r) ''https://nb/api/ipam/ip-addresses/?tag=my-api'' \<and> allocs h \<noteq> 0 then held_page
         else empty_page)))\<rparr>"

definition filtering_client :: APIClient where
  "filtering_client =
     \<lparr>ac_baseURL = ''https://nb'', ac_token = ''t'',
      ac_httpClient = \<lparr>hc_ProxyFromEnvironment = True, hc_InsecureSkipVerify = False, hc_RootCAs = None,
                       hc_Timeout = DefaultRequestTimeout\<rparr>\<rparr>"

lemma filtering_pages:
  "Option.bind (json_parse tag_page) (dec_list_response dec_tag) =
     Some \<lparr>lr_Count = 0, lr_Next = [], lr_Results = [\<lparr>tg_Name = ''My API'', tg_Slug = ''my-api''\<rparr>]\<rparr>"
  "Option.bind (json_parse field_page) (dec_list_response dec_custom_field) =
     Some \<lparr>lr_Count = 0, lr_Next = [], lr_Results = [\<lparr>cf_Name = ''cluster_api_claim_uid''\<rparr>]\<rparr>"
  "Option.bind (json_parse empty_page) (dec_list_response (dec_ip Some)) =
     Some \<lparr>lr_Count = 0, lr_Next = [], lr_Results = []\<rparr>"
  by (simp_all add: tag_page_def field_page_def empty_page_def json_eval
      dec_list_response_def members_def dec_field_def dec_int_def dec_string_def dec_slice_def
      dec_tag_def dec_custom_field_def lower_byte_def parse_int_def digit_val_def)

lemma held_page_lists:
  "Option.bind (json_parse held_page) (dec_list_response (dec_ip Some)) =
     Some \<lparr>lr_Count = 0, lr_Next = [],
       lr_Results = [\<lparr>ia_ID = 9, ia_Address = ''10.0.0.5/24'', ia_DNSName = [], ia_Status = None, ia_Tags = [],
         ia_CustomFields = [(''cluster_api_claim_uid'', JStr ''u1'')]\<rparr>]\<rparr>"
  by (simp add: held_page_def json_eval
      dec_list_response_def members_def dec_field_def dec_int_def dec_int32_def dec_string_def dec_slice_def
      dec_map_any_def dec_tag_def dec_ip_def dec_status_def lower_byte_def parse_int_def digit_val_def)

lemma filtering_nonempty: "tag_page \<noteq> []" "field_page \<noteq> []" "held_page \<noteq> []" "empty_page \<noteq> []"
  by (simp_all add: tag_page_def field_page_def held_page_def empty_page_def)

lemma filtering_fields:
  "url_Parse filtering_netbox = url_Parse dead_env" "float_text filtering_netbox = Some"
  unfolding url_Parse_def by (simp_all add: filtering_netbox_def claim_env_def idle_env_def dead_env_def)

lemma filtering_base: "base_ok filtering_netbox filtering_client"
  by (rule dead_base_ok) (simp_all add: filtering_fields filtering_client_def)

lemmas filtering_eval = client_do_sent filtering_base filtering_fields read_response_def containsStatus_def Let_def

definition filtering_get :: "string \<Rightarrow> url_query \<Rightarrow> event" where
  "filtering_get p q = EHttp (build_request filtering_netbox filtering_client ''GET'' p q None)"

lemma my_api_query: "encode_query [(''tag'', [''My API''])] = ''tag=My+API''"
  by code_simp

lemma filtering_client_get:
  "client_get filtering_netbox filtering_client tags_path q zero_list_response (dec_list_response dec_tag) h =
     Some (Inr \<lparr>lr_Count = 0, lr_Next = [], lr_Results = [\<lparr>tg_Name = ''My API'', tg_Slug = ''my-api''\<rparr>]\<rparr>,
       h @ [filtering_get tags_path q])"
  "client_get filtering_netbox filtering_client custom_fields_path q zero_list_response (dec_list_response dec_custom_field) h =
     Some (Inr \<lparr>lr_Count = 0, lr_Next = [], lr_Results = [\<lparr>cf_Name = ''cluster_api_claim_uid''\<rparr>]\<rparr>,
       h @ [filtering_get custom_fields_path q])"
  "client_get filtering_netbox filtering_client addresses_path [(''tag'', [''My API''])] zero_list_response
       (dec_list_response (dec_ip Some)) h =
     Some (Inr \<lparr>lr_Count = 0, lr_Next = [], lr_Results = []\<rparr>, h @ [filtering_get addresses_path [(''tag'', [''My API''])]])"
  by (simp_all add: client_get_def filtering_eval filtering_get_def)
     (simp_all add: filtering_netbox_def ok_response_def filtering_pages filtering_nonempty build_request_def
        filtering_client_def read_response_def containsStatus_def tags_path_def custom_fields_path_def
        addresses_path_def has_prefix_def my_api_query)

lemmas filtering_listAll =
  single_page [OF filtering_client_get(1), simplified]
  single_page [OF filtering_client_get(2), simplified]
  single_page [OF filtering_client_get(3), simplified]

lemma slug_my_api: "slugifyTag U ''My API'' = ''my-api''"
proof -
  have ascii: "list_all is_ascii ''My API''" by (simp add: is_ascii_def)
  have lower: "to_lower U ''My API'' = ''my api''" unfolding to_lower_ascii [OF ascii] by code_simp
  have trim: "trim_space ''my api'' = ''my api''" by code_simp
  have runes: "runes ''my api'' = map byte ''my api''" by (rule runes_ascii) (simp add: is_ascii_def)
  have loop: "slug_loop U (map byte ''my api'') [] False = ''my-api''"
    by (simp add: alnum_rune byte_eq encode_ascii is_ascii_def alnum_char_def is_upper_def is_lower_def is_digit_def)
  have "trim_set ''-_'' ''my-api'' = ''my-api''" "replace_non_slug False ''my-api'' = ''my-api''"
    by code_simp+
  then show ?thesis unfolding slugifyTag_def lower trim runes loop Let_def by simp
qed

lemma filtering_ensureTag: "ensureTag filtering_netbox filtering_client ''My API'' h =
    Some (Inr \<lparr>tg_Name = ''My API'', tg_Slug = ''my-api''\<rparr>, h @ [filtering_get tags_path [(''name'', [''My API''])]])"
  by (simp add: ensureTag_def filtering_listAll)

lemma filtering_find:
  "FindIPAddressByClaimUID filtering_netbox filtering_client ''My API'' f uid h = Some (Inr None,
     h @ [filtering_get tags_path [(''name'', [''My API''])], filtering_get addresses_path [(''tag'', [''My API''])]])"
  by (simp add: FindIPAddressByClaimUID_def filtering_ensureTag filtering_listAll filtering_fields)

lemma filtering_field:
  "EnsureIPAddressCustomField filtering_netbox filtering_client f h =
     Some (Inr (), h @ [filtering_get custom_fields_path [(''name'', [f]), (''object_type'', [''ipam.ipaddress''])]])"
  by (simp add: EnsureIPAddressCustomField_def filtering_listAll)

definition filtering_post :: "int32 \<Rightarrow> AllocationRequest \<Rightarrow> event" where
  "filtering_post i req = EHttp (build_request filtering_netbox filtering_client ''POST'' (available_ips_path i) []
     (Some (JArr [allocation_payload req [\<lparr>tg_Name = ''My API'', tg_Slug = ''my-api''\<rparr>]])))"

definition leased_address :: AllocatedAddress where
  "leased_address = mapIPAddress \<lparr>ia_ID = 9, ia_Address = ''10.0.0.5/24'', ia_DNSName = [], ia_Status = None,
     ia_Tags = [], ia_CustomFields = []\<rparr>"

lemma trim_my_api: "trim_space ''My API'' = ''My API''"
  by code_simp

lemma filtering_answer:
  "http_do filtering_netbox h hc (build_request E c ''POST'' p q b) = Inr ((ok_response created_page)\<lparr>rs_StatusCode := 201\<rparr>)"
  by (simp add: filtering_netbox_def build_request_def)

lemma filtering_allocate:
  assumes "em_Tags (ar_Metadata req) = []" "ar_OwnershipTag req = ''My API''"
  shows "AllocateIPAddress filtering_netbox filtering_client i req h = Some (Inr leased_address,
     h @ [filtering_get tags_path [(''name'', [''My API''])], filtering_post i req])"
  by (simp add: AllocateIPAddress_def appendUnique_def ensureTags_def trim_my_api filtering_ensureTag assms
      client_post_def filtering_eval filtering_answer filtering_post_def leased_address_def)
     (simp add: ok_response_def small_pages small_nonempty containsStatus_def)

definition tagged_pool :: NetBoxIPPool where
  "tagged_pool = (sample_pool False)\<lparr>np_Spec := sample_spec\<lparr>ps_OwnershipTag := ''My API''\<rparr>,
     np_Status := sample_status\<lparr>st_ResolvedPrefixes := [7],
       st_ResolvedPrefixDetails := [\<lparr>rp_ID = 7, rp_CIDR = ''10.0.0.0/24'', rp_Gateway = ''10.0.0.1''\<rparr>]\<rparr>\<rparr>"

definition tagged_handler :: netboxClaimHandler where
  "tagged_handler = \<lparr>nh_claim = sample_claim False, nh_pool = Some (NamespacedPool tagged_pool),
     nh_newClientFunc = NewClient filtering_netbox, nh_requestTimeout = 0\<rparr>"

lemma filtering_secret: "get_secret filtering_netbox h ns n = Inr [(''url'', ''https://nb''), (''token'', ''t'')]"
  by (simp add: filtering_netbox_def claim_env_def SecretKeyURL_def SecretKeyToken_def)

lemma filtering_url: "SplitBaseURL filtering_netbox ''https://nb'' = Inr (''https'', ''nb'')"
  by (simp add: SplitBaseURL_def filtering_fields dead_base)

lemma filtering_trim: "trim_right_byte (CHR ''/'') ''https://nb'' = ''https://nb''"
  by code_simp

lemma filtering_connect:
  "connect filtering_netbox tagged_handler (NamespacedPool tagged_pool) h =
     Some (Inr (APIClient_as_Client filtering_netbox filtering_client), h @ [EGetSecret ''ns'' ''s''])"
  by (simp add: connect_def LoadConnectionConfig_def call_def filtering_secret config_of_secret_def
      secret_value_def SecretKeyURL_def SecretKeyToken_def SecretKeyInsecureSkipVerify_def SecretKeyCABundle_def
      tagged_handler_def tagged_pool_def idle_simps secret_namespace_def Let_def NewClient_def NewHTTPClient_def
      filtering_url filtering_trim filtering_client_def)

lemma sample_metadata:
  "EffectivePoolMetadata (ps_MetadataDefaults sample_spec) (sample_claim False) =
     Inr \<lparr>em_TenantID = None, em_VRFID = None, em_DNSName = [], em_Tags = [], em_CustomFields = []\<rparr>"
  by (simp add: EffectivePoolMetadata_def override_int32_def override_custom_fields_def annotation_set_def
      sample_spec_def sample_claim_def empty_meta_def maps_copy_def)

definition tagged_request :: AllocationRequest where
  "tagged_request = allocation_request (np_Spec tagged_pool) (sample_claim False)
     \<lparr>em_TenantID = None, em_VRFID = None, em_DNSName = [], em_Tags = [], em_CustomFields = []\<rparr>"

lemma tagged_fields:
  "PoolSpec any_pool_ops (NamespacedPool p) = np_Spec p" "PoolStatus any_pool_ops (NamespacedPool p) = np_Status p"
  "ps_MetadataDefaults (np_Spec tagged_pool) = ps_MetadataDefaults sample_spec"
  "OwnershipTag (np_Spec tagged_pool) = ''My API''"
  "st_ResolvedPrefixes (np_Status tagged_pool) = [7]"
  "st_ResolvedPrefixDetails (np_Status tagged_pool) =
     [\<lparr>rp_ID = 7, rp_CIDR = ''10.0.0.0/24'', rp_Gateway = ''10.0.0.1''\<rparr>]"
  by (simp_all add: any_pool_ops_def NetBoxIPPool_ops_def tagged_pool_def OwnershipTag_def)

lemma filtering_ensure:
  "EnsureAddress filtering_netbox tagged_handler empty_address h =
     Some (((None, None), set_allocation leased_address ''10.0.0.1'' empty_address),
       h @ [EGetSecret ''ns'' ''s'', filtering_get tags_path [(''name'', [''My API''])],
            filtering_get addresses_path [(''tag'', [''My API''])],
            filtering_get custom_fields_path [(''name'', [ClaimUIDCustomField (np_Spec tagged_pool)]),
              (''object_type'', [''ipam.ipaddress''])],
            filtering_get tags_path [(''name'', [''My API''])], filtering_post 7 tagged_request])"
proof -
  have req: "AllocateIPAddress filtering_netbox filtering_client i tagged_request h = Some (Inr leased_address,
     h @ [filtering_get tags_path [(''name'', [''My API''])], filtering_post i tagged_request])" for i h
    by (rule filtering_allocate) (simp_all add: tagged_request_def allocation_request_def tagged_fields)
  have handler: "nh_pool tagged_handler = Some (NamespacedPool tagged_pool)" "nh_claim tagged_handler = sample_claim False"
    by (simp_all add: tagged_handler_def)
  have client: "nbFindIPAddressByClaimUID (APIClient_as_Client E c) = FindIPAddressByClaimUID E c"
    "nbEnsureIPAddressCustomField (APIClient_as_Client E c) = EnsureIPAddressCustomField E c"
    "nbAllocateIPAddress (APIClient_as_Client E c) = AllocateIPAddress E c" for E c
    by (simp_all add: APIClient_as_Client_def)
  show ?thesis
    by (simp add: EnsureAddress_def ensure_address_body_def handler filtering_connect client filtering_find
        allocate_new_def filtering_field tagged_fields sample_metadata req [unfolded tagged_request_def]
        tagged_request_def gatewayDetails_def gatewayForPrefixID_def sanitize_result_def Let_def)
       (simp add: empty_address_def)
qed

lemma get_not_alloc: "\<not> is_alloc (filtering_get p q)" "\<not> is_alloc (EGetSecret a b)"
  by (simp_all add: filtering_get_def is_alloc_def build_request_def)

lemma my_slug_query: "encode_query [(''tag'', [''my-api''])] = ''tag=my-api''"
  by code_simp

lemma held_list:
  "allocs h \<noteq> 0 \<Longrightarrow> client_get filtering_netbox filtering_client addresses_path [(''tag'', [''my-api''])]
     zero_list_response (dec_list_response (dec_ip Some)) h =
     Some (Inr \<lparr>lr_Count = 0, lr_Next = [],
       lr_Results = [\<lparr>ia_ID = 9, ia_Address = ''10.0.0.5/24'', ia_DNSName = [], ia_Status = None, ia_Tags = [],
         ia_CustomFields = [(''cluster_api_claim_uid'', JStr ''u1'')]\<rparr>]\<rparr>,
       h @ [filtering_get addresses_path [(''tag'', [''my-api''])]])"
  by (simp add: client_get_def filtering_eval filtering_get_def)
     (simp add: filtering_netbox_def ok_response_def held_page_lists filtering_nonempty build_request_def
        filtering_client_def read_response_def containsStatus_def addresses_path_def has_prefix_def my_slug_query)

text \<open>C10: with an ownership tag that is not its own slug, every retry allocates another address. The pool
  has the ownership tag "My API", and NetBox has it under the slug "my-api" that slugifyTag gives
  it. EnsureAddress for a claim allocates an address and succeeds; NetBox then lists the record of
  the claim under the slug. But when the write of the IPAddress fails after that and EnsureAddress
  is called again, its lookup, which sends the name of the tag, finds nothing, and it allocates a
  second address for the same claim.\<close>

theorem tag_name_allocates_twice:
  "\<exists>a1 h1 a2 h2 page h3.
     EnsureAddress filtering_netbox tagged_handler empty_address [] = Some (((None, None), a1), h1) \<and> allocs h1 = 1 \<and>
     client_get filtering_netbox filtering_client addresses_path
       [(''tag'', [slugifyTag (unicode filtering_netbox) (OwnershipTag (np_Spec tagged_pool))])]
       zero_list_response (dec_list_response (dec_ip Some)) h1 = Some (Inr page, h3) \<and>
     map (\<lambda>ip. custom_field_text Some (ia_CustomFields ip) (ClaimUIDCustomField (np_Spec tagged_pool))) (lr_Results page) =
       [om_UID (cl_meta (nh_claim tagged_handler))] \<and>
     EnsureAddress filtering_netbox tagged_handler empty_address h1 = Some (((None, None), a2), h2) \<and> allocs h2 = 2"
proof -
  have post: "is_alloc (filtering_post 7 tagged_request)" by (simp add: filtering_post_def is_alloc_request)
  define evs where "evs = [EGetSecret ''ns'' ''s'', filtering_get tags_path [(''name'', [''My API''])],
    filtering_get addresses_path [(''tag'', [''My API''])],
    filtering_get custom_fields_path [(''name'', [ClaimUIDCustomField (np_Spec tagged_pool)]), (''object_type'', [''ipam.ipaddress''])],
    filtering_get tags_path [(''name'', [''My API''])], filtering_post 7 tagged_request]"
  have run: "EnsureAddress filtering_netbox tagged_handler empty_address h =
      Some (((None, None), set_allocation leased_address ''10.0.0.1'' empty_address), h @ evs)" for h
    unfolding evs_def by (rule filtering_ensure)
  have one: "allocs evs = 1" by (simp add: evs_def allocs_def get_not_alloc post)
  then have two: "allocs (evs @ evs) = 2" by (simp add: allocs_def)
  have uid: "ClaimUIDCustomField (np_Spec tagged_pool) = ''cluster_api_claim_uid''"
    "om_UID (cl_meta (nh_claim tagged_handler)) = ''u1''"
    by (simp_all add: ClaimUIDCustomField_def DefaultClaimUIDCustomField_def tagged_pool_def sample_spec_def
        tagged_handler_def sample_claim_def)
  have "allocs evs \<noteq> 0" using one by simp
  from held_list [OF this] run [of "[]"] run [of evs] one two show ?thesis
    by (auto simp: tagged_fields slug_my_api uid custom_field_text_def)
qed

end
