(* ===== verification/Resource_Properties.thy ===== *)
theory Resource_Properties
  imports Netbox_Properties Metadata_Properties Pool_Properties Ipam_Util
begin

text \<open>
  Properties of the lookups in NetBox, of what an error may show, of gateways, counts, owner
  references, and of the Secrets a pool may read, with their witnesses.
\<close>

section \<open>Lookups\<close>

text \<open>The first element with a property, as an address.\<close>

definition first_match :: "(netBoxIPAddress \<Rightarrow> bool) \<Rightarrow> netBoxIPAddress list \<Rightarrow> AllocatedAddress option \<Rightarrow> bool" where
  "first_match P ips r \<longleftrightarrow>
     (case r of
        None \<Rightarrow> list_all (\<lambda>ip. \<not> P ip) ips
      | Some a \<Rightarrow> \<exists>pre ip post. ips = pre @ ip # post \<and> list_all (\<lambda>ip. \<not> P ip) pre \<and> P ip \<and> a = mapIPAddress ip)"

lemma find_first_match: "first_match P ips r \<longleftrightarrow> r = map_option mapIPAddress (List.find P ips)"
proof (induction ips)
  case Nil
  then show ?case by (auto simp: first_match_def split: option.splits)
next
  case (Cons ip ips)
  show ?case
  proof (cases "P ip")
    case True
    have "first_match P (ip # ips) (Some (mapIPAddress ip))"
      unfolding first_match_def option.case using True by (intro exI [of _ "[]"] exI [of _ ip] exI [of _ ips]) simp
    moreover have "r = Some (mapIPAddress ip)" if "first_match P (ip # ips) r"
      using that True by (auto simp: first_match_def Cons_eq_append_conv split: option.splits)
    ultimately have "first_match P (ip # ips) r \<longleftrightarrow> r = Some (mapIPAddress ip)" by blast
    with True show ?thesis by simp
  next
    case False
    then have "first_match P ips r" if "first_match P (ip # ips) r"
      using that by (auto simp: first_match_def Cons_eq_append_conv split: option.splits) blast
    moreover have "first_match P (ip # ips) r" if "first_match P ips r"
    proof (cases r)
      case (Some a)
      with that obtain pre x post where "ips = pre @ x # post" "list_all (\<lambda>ip. \<not> P ip) pre" "P x" "a = mapIPAddress x"
        by (auto simp: first_match_def)
      with False Some show ?thesis
        unfolding first_match_def by (auto intro!: exI [of _ "ip # pre"])
    qed (use that False in \<open>simp add: first_match_def\<close>)
    ultimately have "first_match P (ip # ips) r \<longleftrightarrow> first_match P ips r" by blast
    with False Cons show ?thesis by simp
  qed
qed

definition owned_by_uid :: "env \<Rightarrow> string \<Rightarrow> string \<Rightarrow> netBoxIPAddress \<Rightarrow> bool" where
  "owned_by_uid E field uid ip \<longleftrightarrow> custom_field_text (float_text E) (ia_CustomFields ip) field = uid"

text \<open>C21: the lookup by claim UID is exact and complete. FindIPAddressByClaimUID returns without an
  error if and only if the ownership tag exists or was created and every page of the addresses with
  that tag was read; it then returns the first address whose claim UID field spells the UID, on
  whichever page it is, and nothing only if no listed address has that UID.\<close>

theorem find_by_claim_uid:
  "FindIPAddressByClaimUID E c tag field uid h = Some (Inr r, h') \<longleftrightarrow>
     (\<exists>t h1 ips. ensureTag E c tag h = Some (Inr t, h1) \<and>
        paged E c (dec_ip (float_text E)) addresses_path [(''tag'', [tag])] h1 ips h' \<and>
        first_match (owned_by_uid E field uid) ips r)"
  by (auto simp: FindIPAddressByClaimUID_def find_first_match owned_by_uid_def [abs_def] listAll_iff_paged [symmetric]
      split: sum.splits Option.bind_splits)

text \<open>The lookup by address, the fallback of a release, returns the first address with the tag
  that NetBox lists for the address and whose text is the address, with or without its prefix
  length; another address that NetBox lists is never taken for it.\<close>

lemma find_by_address:
  "FindIPAddressByAddress E c tag address h = Some (Inr r, h') \<longleftrightarrow>
     (\<exists>t h1 ips. ensureTag E c tag h = Some (Inr t, h1) \<and>
        paged E c (dec_ip (float_text E)) addresses_path [(''tag'', [tag]), (''address'', [address])] h1 ips h' \<and>
        first_match (\<lambda>ip. trim_space (ia_Address ip) = address \<or>
          trim_space (aa_Address (mapIPAddress ip)) = address) ips r)"
  by (auto simp: FindIPAddressByAddress_def find_first_match matches_address_def [abs_def] listAll_iff_paged [symmetric]
      split: sum.splits Option.bind_splits)

section \<open>Errors\<close>

text \<open>A sanitized error tells nothing of a response body: no *apiError is reachable in it, it is
  the same for all response bodies, and an error that wraps an *apiError keeps only the status
  line.\<close>

lemma sanitized_error:
  assumes "chain_only e"
  shows "api_free (SanitizedError e) \<and> SanitizedError (map_body f e) = SanitizedError e \<and>
    (case as_apiError e of None \<Rightarrow> SanitizedError e = e
     | Some (code, status, body) \<Rightarrow> SanitizedError e = Errorf ''NetBox request failed: %s'' [status])"
  using SanitizedError_api_free [OF assms] SanitizedError_map_body [OF assms]
  by (auto simp: SanitizedError_def split: option.splits)

section \<open>Gateways\<close>

lemma show_ipv4_graphic: "c \<in> set (show_ipv4 w) \<Longrightarrow> is_graphic c"
  by (auto simp: show_ipv4_def dest!: show_nat_digits) (auto simp: is_digit_def is_graphic_def less_eq_char_def)

lemma trim_show_v4: "trim_space (show_addr (V4 w)) = show_addr (V4 w)"
  by (rule trim_space_graphic) (simp add: show_addr_def show_ipv4_graphic)

lemma show_v4_nonempty: "show_addr (V4 w) \<noteq> []"
  by (simp add: show_addr_def show_ipv4_def)

text \<open>C34: the gateway of an IPv4 prefix is the value of the custom field if it has one, else the static
  gateway of the prefix, else that of the pool; it is an IPv4 address, written in its normal form;
  the in-range flag says whether gateway and prefix agree in the leading bits, as numbers; and the
  normal form resolves to itself, so resolving again changes nothing.\<close>

theorem resolve_gateway_v4:
  assumes "ResolveGateway cidr field static pool = Inr (gw, inRange)" "gw \<noteq> []"
    and "parse_prefix (trim_space cidr) = Some (IPPrefix (V4 n) bits)"
  shows "\<exists>w. gw = show_addr (V4 w)
    \<and> parse_addr (if trim_space field \<noteq> [] then trim_space field
        else if trim_space static \<noteq> [] then trim_space static else trim_space pool) = Some (V4 w)
    \<and> inRange = (unat w div 2 ^ (32 - bits) = unat n div 2 ^ (32 - bits))
    \<and> ResolveGateway cidr gw static' pool' = Inr (gw, inRange)"
proof -
  from ResolveGateway_cases [OF assms(1,2)] obtain a p where
    a: "parse_addr (firstNonEmpty [field, static, pool]) = Some a" "parse_prefix (trim_space cidr) = Some p"
      "is4 a = is4 (prefix_addr p)" "gw = show_addr a" "inRange = prefix_contains p a" .
  with assms(3) have p: "p = IPPrefix (V4 n) bits" by simp
  with a(3) obtain w where w: "a = V4 w" by (cases a) (auto simp: is4_def prefix_addr_def)
  have "firstNonEmpty [field, static, pool] = (if trim_space field \<noteq> [] then trim_space field
      else if trim_space static \<noteq> [] then trim_space static else trim_space pool)" by (simp add: Let_def)
  with a(1) w have "parse_addr (if trim_space field \<noteq> [] then trim_space field
      else if trim_space static \<noteq> [] then trim_space static else trim_space pool) = Some (V4 w)" by metis
  moreover have "ResolveGateway cidr gw static' pool' = Inr (gw, inRange)"
    using a w p by (simp add: ResolveGateway_def trim_show_v4 show_v4_nonempty parse_show_v4 is4_def prefix_addr_def)
  ultimately show ?thesis
    using a w p by (auto simp: prefix_contains_v4)
qed

theorem resolve_gateway_v4_witness:
  "ResolveGateway ''10.0.0.0/24'' [] ''10.0.0.1'' [] = Inr (''10.0.0.1'', True) \<and>
     ResolveGateway ''10.0.0.0/24'' ''10.0.0.1'' [] [] = Inr (''10.0.0.1'', True)"
proof -
  have prefix: "parse_prefix (trim_space ''10.0.0.0/24'') = Some (IPPrefix (V4 167772160) 24)"
    by (simp add: trim_10 parse_10_0_0_0_24)
  from resolve_gateway_v4 [OF ResolveGateway_10 _ prefix]
  have "ResolveGateway ''10.0.0.0/24'' ''10.0.0.1'' [] [] = Inr (''10.0.0.1'', True)" by blast
  with ResolveGateway_10 show ?thesis by blast
qed

section \<open>Counting the addresses of a pool\<close>

text \<open>The count of allocated addresses in the status of a pool never wraps around: it is the number of
  addresses, and a count that does not fit into 32 bits is an error.\<close>

lemma allocated_count_exact:
  "case safeAllocatedCount n of Inr w \<Rightarrow> sint w = int n \<and> n < 2 ^ 31 | Inl e \<Rightarrow> 2 ^ 31 \<le> n \<and> api_free e"
proof (cases "n < 2 ^ 31")
  case True
  then have "sint (word_of_int (int n) :: int32) = int n"
    by (intro parse_int32_sint [OF parse_show_int]) auto
  with True show ?thesis by (simp add: safeAllocatedCount_ok)
next
  case False
  then show ?thesis using safeAllocatedCount_big [OF False] by auto
qed

section \<open>Owner references\<close>

text \<open>What the code relies on of \<open>SetOwnerReference\<close>, from its documentation: it inserts the object
  into the owners or updates its entry, so that it has exactly one.\<close>

definition upserts_owner :: "env \<Rightarrow> client_object \<Rightarrow> bool" where
  "upserts_owner E ob \<longleftrightarrow>
     (\<forall>refs refs'. SetOwnerReference E ob refs = Inr refs' \<longrightarrow> length (filter (is_pool_ref ob) refs') = 1)"

lemma filter_update_only:
  assumes "filter P xs = [x]" "i < length xs" "P (xs ! i)" "P (f x)"
  shows "filter P (xs[i := f (xs ! i)]) = [f x] \<and> filter (\<lambda>y. \<not> P y) (xs[i := f (xs ! i)]) = filter (\<lambda>y. \<not> P y) xs"
proof -
  define us vs y where "us = take i xs" and "vs = drop (Suc i) xs" and "y = xs ! i"
  have xs: "xs = us @ y # vs" and us: "length us = i"
    using id_take_nth_drop [OF assms(2)] assms(2) by (simp_all add: us_def vs_def y_def)
  have y: "P y" using assms(3) by (simp add: y_def)
  have "filter P us = []" "y = x" "filter P vs = []"
    using assms(1) y by (cases "filter P us"; simp add: xs)+
  then show ?thesis using assms(4) y unfolding y_def [symmetric] us [symmetric] by (simp add: xs)
qed

text \<open>C33: an IPAddress is owned by its pool without being controlled by it: of the references that
  SetOwnerReference leaves, exactly the one to the pool gets Controller=false and
  BlockOwnerDeletion=true, the others and everything else of the address are unchanged. So a watch
  that follows only controller references, as Owns without MatchEveryOwner does, never leads from an
  IPAddress to its pool.\<close>

theorem pool_reference_not_controller:
  assumes "upserts_owner E pool" "ensureIPAddressOwnerReferences E address claim pool = Some (Inr a)"
  shows "\<exists>refs ref. filter (is_pool_ref pool) (om_OwnerReferences (ip_meta a)) = [ref] \<and>
    or_Controller ref = Some False \<and> or_BlockOwnerDeletion ref = Some True \<and>
    filter (\<lambda>r. \<not> is_pool_ref pool r) (om_OwnerReferences (ip_meta a)) = filter (\<lambda>r. \<not> is_pool_ref pool r) refs \<and>
    (\<exists>refs1. SetOwnerReference E pool refs1 = Inr refs) \<and>
    a = address\<lparr>ip_meta := (ip_meta address)\<lparr>om_OwnerReferences := om_OwnerReferences (ip_meta a)\<rparr>\<rparr>"
proof -
  from assms(2) obtain refs1 refs where set: "SetOwnerReference E pool refs1 = Inr refs"
    and a: "a = address\<lparr>ip_meta := (ip_meta address)\<lparr>om_OwnerReferences :=
      refs[pool_ref_index pool refs 0 0 := not_controller (refs ! pool_ref_index pool refs 0 0)]\<rparr>\<rparr>"
    by (auto simp: ensureIPAddressOwnerReferences_def Let_def split: sum.splits if_splits)
  let ?i = "pool_ref_index pool refs 0 0"
  from assms(1) set have one: "length (filter (is_pool_ref pool) refs) = 1" by (simp add: upserts_owner_def)
  then obtain ref where ref: "filter (is_pool_ref pool) refs = [ref]" by (auto simp: length_Suc_conv)
  then have "ref \<in> set (filter (is_pool_ref pool) refs)" by simp
  then have "ref \<in> set refs" "is_pool_ref pool ref" by auto
  then have i: "?i < length refs" "is_pool_ref pool (refs ! ?i)" using pool_ref_index_hit by blast+
  have "is_pool_ref pool (not_controller ref)"
    using \<open>is_pool_ref pool ref\<close> by (simp add: is_pool_ref_def not_controller_def)
  from filter_update_only [where f = not_controller, OF ref i this] a set show ?thesis
    by (intro exI [of _ refs] exI [of _ "not_controller ref"]) (auto simp: not_controller_def)
qed

text \<open>An environment in which the claim is set as controller and the pool appended as an owner.\<close>

definition owner_of :: "client_object \<Rightarrow> owner_ref" where
  "owner_of ob = \<lparr>or_APIVersion = gv_string (ob_gvk ob), or_Kind = gvk_Kind (ob_gvk ob), or_Name = om_Name (ob_meta ob),
     or_UID = om_UID (ob_meta ob), or_Controller = None, or_BlockOwnerDeletion = None\<rparr>"

definition owning_env :: env where
  "owning_env = dead_env\<lparr>SetOwnerReference := (\<lambda>ob refs. Inr (filter (\<lambda>r. \<not> is_pool_ref ob r) refs @ [owner_of ob]))\<rparr>"

lemma owning_env_upserts: "upserts_owner owning_env ob"
  by (auto simp: upserts_owner_def owning_env_def is_pool_ref_def owner_of_def)

theorem pool_reference_not_controller_witness:
  "\<exists>a ref. ensureIPAddressOwnerReferences owning_env empty_address
       \<lparr>cl_meta = empty_meta, cl_ClusterName = [], cl_PoolRef = ip_PoolRef empty_address, cl_AddressRef = [],
        cl_Conditions = []\<rparr>
       \<lparr>ob_meta = empty_meta\<lparr>om_Name := ''p''\<rparr>, ob_gvk = \<lparr>gvk_Group = ''g'', gvk_Version = ''v1'', gvk_Kind = ''K''\<rparr>\<rparr>
       = Some (Inr a) \<and> om_OwnerReferences (ip_meta a) = [ref] \<and> or_Name ref = ''p'' \<and> or_Controller ref = Some False"
proof -
  let ?pool = "\<lparr>ob_meta = empty_meta\<lparr>om_Name := ''p''\<rparr>, ob_gvk = \<lparr>gvk_Group = ''g'', gvk_Version = ''v1'', gvk_Kind = ''K''\<rparr>\<rparr>"
  obtain a ref where a: "ensureIPAddressOwnerReferences owning_env empty_address
       \<lparr>cl_meta = empty_meta, cl_ClusterName = [], cl_PoolRef = ip_PoolRef empty_address, cl_AddressRef = [],
        cl_Conditions = []\<rparr> ?pool = Some (Inr a)"
    and ref: "om_OwnerReferences (ip_meta a) = [ref]" "or_Name ref = ''p''" "is_pool_ref ?pool ref"
    by (simp add: ensureIPAddressOwnerReferences_def owning_env_def dead_env_def empty_address_def empty_meta_def
        owner_of_def not_controller_def is_pool_ref_def)
  from pool_reference_not_controller [OF owning_env_upserts a] ref have "or_Controller ref = Some False" by auto
  with a ref show ?thesis by blast
qed

section \<open>What pool reconciliation does not check\<close>

definition with_custom_field_check ::
  "(string \<Rightarrow> (err + unit) io) \<Rightarrow> (ConnectionConfig \<Rightarrow> err + nb_client) \<Rightarrow> ConnectionConfig \<Rightarrow> err + nb_client" where
  "with_custom_field_check f g cfg = map_sum id (\<lambda>C. C\<lparr>nbEnsureIPAddressCustomField := f\<rparr>) (g cfg)"

lemma resolve_ignores_custom_field:
  "resolvePoolPrefixes E ops rec (with_custom_field_check f g) d pool h = resolvePoolPrefixes E ops rec g d pool h"
  by (auto simp: resolvePoolPrefixes_def with_custom_field_check_def resolve_with_client_def resolvePrefixDetails_def
      map_sum_def split: sum.splits intro!: Option.bind_cong)

lemma reconcile_ignores_custom_field:
  "reconcilePoolStatus E ops rec (with_custom_field_check f g) d = reconcilePoolStatus E ops rec g d"
proof -
  have "resolvePoolPrefixes E ops rec (with_custom_field_check f g) d = resolvePoolPrefixes E ops rec g d"
    by (intro ext) (rule resolve_ignores_custom_field)
  then show ?thesis by (intro ext) (simp only: reconcilePoolStatus_def)
qed

text \<open>C37: reconciling a pool never checks that the custom field for claim UIDs exists: replacing that
  check in the NetBox client by anything, a failing one included, changes neither the result nor
  any event of a pool reconcile. So a pool becomes Ready in a NetBox without the custom field, where
  every allocation fails.\<close>

theorem pool_ignores_custom_field:
  "NetBoxIPPool_Reconcile E (r\<lparr>rc_NewClient := Some (with_custom_field_check f (new_client_func E (rc_NewClient r)))\<rparr>)
       namespace name h =
     NetBoxIPPool_Reconcile E r namespace name h"
proof -
  let ?r = "r\<lparr>rc_NewClient := Some (with_custom_field_check f (new_client_func E (rc_NewClient r)))\<rparr>"
  have "new_client_func E (rc_NewClient ?r) = with_custom_field_check f (new_client_func E (rc_NewClient r))"
    "rc_base ?r = rc_base r" "rc_RequestTimeout ?r = rc_RequestTimeout r"
    by (simp_all add: new_client_func_def)
  then show ?thesis by (simp only: NetBoxIPPool_Reconcile_def reconcile_ignores_custom_field)
qed

section \<open>Secrets\<close>

definition secret_in :: "string \<Rightarrow> event \<Rightarrow> bool" where
  "secret_in ns ev \<longleftrightarrow> (case ev of EGetSecret a b \<Rightarrow> a = ns | _ \<Rightarrow> True)"

lemma quiet_secret: "quiet ev \<Longrightarrow> secret_in ns ev"
  by (auto simp: quiet_def is_http_def secret_in_def split: event.splits)

lemma record_secret: "is_record ev \<Longrightarrow> secret_in ns ev"
  by (auto simp: is_record_def secret_in_def split: event.splits)

lemma grows_quiet_secret: "grows quiet h h' \<Longrightarrow> grows (secret_in ns) h h'"
  by (blast intro: grows_mono quiet_secret)

lemma warn_in_range_records: "holds (\<lambda>u h'. grows is_record h h') (warn_in_range rec obj ids h)"
proof (induction ids arbitrary: h)
  case (Cons pid ids)
  show ?case
  proof (cases rec)
    case (Some b)
    have "holds (\<lambda>u h'. grows is_record h h') (warn_in_range rec obj ids h1)" if "grows is_record h h1" for h1
      by (rule holds_mono [OF Cons.IH]) (use that in \<open>blast intro: grows_trans\<close>)
    with Some show ?thesis by (auto simp: holds_bind intro!: holds_mono [OF RecordWarning_holds])
  qed simp
qed simp

context status_pool
begin

lemma details_secrets:
  assumes "netbox_client C" "grows (secret_in ns) h0 h"
  shows "holds (\<lambda>r h'. grows (secret_in ns) h0 h') (resolvePrefixDetails E ops C rec pool ids h)"
proof -
  have warn: "holds (\<lambda>u h'. grows (secret_in ns) h0 h') (warn_in_range rec obj ids h1)"
    if "grows (secret_in ns) h0 h1" for obj ids h1
    by (rule holds_mono [OF warn_in_range_records]) (use that in \<open>blast intro: grows_trans grows_mono record_secret\<close>)
  show ?thesis
    unfolding resolvePrefixDetails_def holds_bind
    by (rule holds_mono [OF netbox_client.details_law [OF assms(1)]])
       (use assms(2) in \<open>auto simp: holds_bind intro!: holds_mono [OF warn]
         intro: grows_trans grows_quiet_secret split: sum.splits\<close>)
qed

lemma resolve_secrets:
  assumes "client_factory f" "ns = secret_namespace (om_Namespace (PoolMeta ops pool)) (ps_ConnectionSecretRef (PoolSpec ops pool))"
    and "grows (secret_in ns) h0 h"
  shows "holds (\<lambda>r h'. grows (secret_in ns) h0 h') (resolvePoolPrefixes E ops rec f timeout pool h)"
proof -
  have "holds (\<lambda>r h'. grows (secret_in ns) h0 h') (resolve_with_client E ops C rec pool h1)"
    if "f cfg = Inr C" "grows (secret_in ns) h0 h1" for cfg C h1
    unfolding resolve_with_client_def holds_bind
    by (rule holds_mono [OF netbox_client.resolve_law [OF client_factory.factory_client [OF assms(1) that(1)]]])
       (use that(2) in \<open>auto simp: holds_bind intro!: holds_mono
           [OF details_secrets [OF client_factory.factory_client [OF assms(1) that(1)]]]
         intro: grows_trans grows_quiet_secret split: sum.splits\<close>)
  moreover have "grows (secret_in ns) h0 (h @ [EGetSecret ns x])" for x
    using assms(3) by (auto simp: grows_def secret_in_def)
  ultimately show ?thesis
    unfolding resolvePoolPrefixes_def holds_bind assms(2) [symmetric]
    by (intro holds_mono [OF LoadConnectionConfig_holds]) (auto simp: assms(2) split: sum.splits)
qed

lemma finish_secrets:
  assumes "grows (secret_in ns) h0 h"
  shows "holds (\<lambda>r h'. grows (secret_in ns) h0 h') (finish_pool E ops rec n rerr pool h)"
  by (rule holds_mono [OF finish_pool_holds])
     (use assms in \<open>auto intro: grows_trans grows_mono record_secret\<close>)

lemma status_secrets:
  assumes "client_factory f" "ns = secret_namespace (om_Namespace (PoolMeta ops pool)) (ps_ConnectionSecretRef (PoolSpec ops pool))"
    and "grows (secret_in ns) h0 h"
  shows "holds (\<lambda>r h'. grows (secret_in ns) h0 h') (reconcilePoolStatus E ops rec f d kind pool h)"
proof -
  have list: "holds (\<lambda>r h1. grows (secret_in ns) h0 h1)
      (listAddressesInUse E (om_Namespace (PoolMeta ops pool)) kind (om_Name (PoolMeta ops pool)) h)"
    using assms(3) by (simp add: listAddressesInUse_def call_def secret_in_def grows_snoc_trans Let_def)
  have resolve: "holds (\<lambda>r h'. grows (secret_in ns) h0 h')
      (resolvePoolPrefixes E ops rec f d p h1)"
    if "grows (secret_in ns) h0 h1" "PoolMeta ops p = PoolMeta ops pool" "PoolSpec ops p = PoolSpec ops pool" for p h1
    using that by (auto intro!: resolve_secrets [OF assms(1)] simp: assms(2))
  show ?thesis
    unfolding reconcilePoolStatus_def holds_bind
    by (rule holds_mono [OF list])
       (auto simp: holds_bind Let_def intro!: holds_mono [OF resolve] finish_secrets split: sum.splits prod.splits)
qed

end

text \<open>C32: a namespaced pool reads no Secret of another namespace. If the API server admits only pools
  that satisfy the validation rules of the CRD, then for every server, every Secret and every
  NetBox, the only Secrets that a reconcile of a NetBoxIPPool reads are in the namespace of the
  pool, so a tenant cannot point a pool at credentials that are not his.\<close>

theorem pool_secret_namespace:
  assumes "\<And>g. rc_NewClient r = Some g \<Longrightarrow> client_factory g"
    and "\<And>h1 p. get_pool E h1 namespace name = Inr p \<Longrightarrow> admitted_pool p \<and> om_Namespace (np_meta p) = namespace"
  shows "holds (\<lambda>_ h'. \<forall>a b. EGetSecret a b \<in> set (added h h') \<longrightarrow> a = namespace)
    (NetBoxIPPool_Reconcile E r namespace name h)"
proof -
  have step: "holds (\<lambda>_ h'. grows (secret_in namespace) h h')
      (reconcilePoolStatus E NetBoxIPPool_ops (Some (rc_base r)) (new_client_func E (rc_NewClient r))
        (rc_RequestTimeout r) NetBoxIPPoolKind p h2)"
    if "get_pool E h1 namespace name = Inr p" "grows (secret_in namespace) h h2" for h1 h2 p
    by (rule npool.status_secrets [OF new_client_factory [OF assms(1)] _ that(2)])
       (use assms(2) [OF that(1)] in \<open>auto simp: secret_namespace_def admitted_pool_def\<close>)
  have events: "secret_in namespace (EGetPool a b)" "secret_in namespace (ENewPatchHelper c)"
    "secret_in namespace (EPatchPool p q)" for a b c p q by (simp_all add: secret_in_def)
  then have patch: "grows (secret_in namespace) h (h2 @ [EPatchPool p q])" if "grows (secret_in namespace) h h2" for h2 p q
    using that by (blast intro: grows_snoc_trans)
  have "holds (\<lambda>_ h'. grows (secret_in namespace) h h') (NetBoxIPPool_Reconcile E r namespace name h)"
    by (auto simp: NetBoxIPPool_Reconcile_def holds_simps deferred_pool_patch_def events
        intro!: holds_mono [OF step] patch intro: grows_snoc_trans split: sum.splits option.splits)
  then show ?thesis
    by (rule holds_mono) (fastforce simp: grows_added secret_in_def list_all_iff)
qed

theorem pool_secret_namespace_witness:
  "\<exists>r h'. NetBoxIPPool_Reconcile idle_env sample_reconciler ''ns'' ''p'' [] = Some (r, h') \<and>
     EGetSecret ''ns'' ''s'' \<in> set h' \<and> (\<forall>a b. EGetSecret a b \<in> set h' \<longrightarrow> a = ''ns'')"
proof -
  obtain r h' where run: "NetBoxIPPool_Reconcile idle_env sample_reconciler ''ns'' ''p'' [] = Some (r, h')"
    and s: "EGetSecret ''ns'' ''s'' \<in> set h'"
    by (simp add: NetBoxIPPool_Reconcile_def pool_eval)
  have "admitted_pool p \<and> om_Namespace (np_meta p) = ''ns''" if "get_pool idle_env h1 ''ns'' ''p'' = Inr p" for h1 p
    using that by (auto simp: idle_simps admitted_pool_def admitted_spec_def admitted_prefix_ref_def)
  moreover have "\<And>g. rc_NewClient sample_reconciler = Some g \<Longrightarrow> client_factory g" by (simp add: sample_reconciler_def)
  ultimately show ?thesis
    using holdsD [OF pool_secret_namespace [of sample_reconciler idle_env "''ns''" "''p''"] run] run s
    by (auto simp: added_def)
qed

section \<open>The contract of a pool reconcile\<close>

text \<open>C18: a status reconcile refines its specification. When the addresses of the pool were listed and
  their number fits into 32 bits, then for every client of NetBox that keeps its contract the pool
  that is written, its condition, its count, its cached prefixes, its finalizers and the error
  returned are those that \<open>pool_reconciled\<close> specifies for some outcome of the resolution, and no
  event on the way writes to Kubernetes or allocates or deletes in NetBox.\<close>

theorem pool_reconcile_refines:
  assumes "client_factory f" "length addresses < 2 ^ 31"
    and "listAddressesInUse E (om_Namespace (np_meta pool)) kind (om_Name (np_meta pool)) h = Some (Inr addresses, h1)"
  shows "holds (\<lambda>(err, pool') h'. grows calm h h' \<and>
      (\<exists>resolveErr. pool_reconciled E NetBoxIPPool_ops pool (length addresses) resolveErr err pool'))
    (reconcilePoolStatus E NetBoxIPPool_ops rec f timeout kind pool h)"
  using npool.reconcilePoolStatus_holds [OF assms(1) _ assms(2)] assms(3) by simp

theorem pool_reconcile_refines_witness:
  "\<exists>err pool' h' resolveErr. reconcilePoolStatus idle_env NetBoxIPPool_ops None (NewClient idle_env) 0
       NetBoxIPPoolKind (sample_pool False) [] = Some ((err, pool'), h') \<and>
     pool_reconciled idle_env NetBoxIPPool_ops (sample_pool False) 0 resolveErr err pool'"
proof -
  obtain err pool' h' where run: "reconcilePoolStatus idle_env NetBoxIPPool_ops None (NewClient idle_env) 0
       NetBoxIPPoolKind (sample_pool False) [] = Some ((err, pool'), h')"
    by (simp add: pool_eval)
  have list: "\<exists>h1. listAddressesInUse idle_env (om_Namespace (np_meta (sample_pool False))) NetBoxIPPoolKind
      (om_Name (np_meta (sample_pool False))) [] = Some (Inr [], h1)"
    by (simp add: listAddressesInUse_def call_def idle_simps Let_def)
  then obtain h1 where "listAddressesInUse idle_env (om_Namespace (np_meta (sample_pool False))) NetBoxIPPoolKind
      (om_Name (np_meta (sample_pool False))) [] = Some (Inr [], h1)" by blast
  from holdsD [OF pool_reconcile_refines [OF newclient.client_factory_axioms _ this] run]
  show ?thesis using run by auto
qed

end
