(* ===== verification/Manager_Main.thy ===== *)
theory Manager_Main
  imports Claim_Handler Claim_Reconciler
begin

text \<open>
  cmd/main.go and the \<open>SetupWithManager\<close> methods: from the command line to a running manager. What
  controller-runtime, pflag and Cluster API do is the record \<open>boot\<close> of functions; the program's
  own part is which options it computes, which controllers it registers, in which order, and with
  which exit code it stops. Logging is left out. The deferred order of the start-up is written
  with \<open>and_then\<close>, which runs the second step only if the first succeeded; a step appends what it
  asks of the manager to a trace.
\<close>

section \<open>Flags\<close>

definition defaultMetricsAddr :: string where "defaultMetricsAddr = ''0''"
definition defaultProbeAddr :: string where "defaultProbeAddr = '':8081''"

text \<open>\<open>capiflags.ManagerOptions\<close>, a struct of Cluster API that the program only passes around.\<close>

typedecl manager_options

datatype flag_value = StringFlag string | BoolFlag bool | DurationFlag int

record managerConfig =
  mc_metricsAddr :: string
  mc_webhookCertPath :: string
  mc_webhookCertName :: string
  mc_webhookCertKey :: string
  mc_enableLeaderElection :: bool
  mc_probeAddr :: string
  mc_watchNamespace :: string
  mc_watchFilter :: string
  mc_enableHTTP2 :: bool
  mc_netboxRequestTimeout :: int
  mc_managerOptions :: manager_options

text \<open>The flags the program declares itself, with their defaults.\<close>

definition declared_flags :: "(string \<times> flag_value) list" where
  "declared_flags =
     [(''metrics-bind-address'', StringFlag defaultMetricsAddr),
      (''health-probe-bind-address'', StringFlag defaultProbeAddr),
      (''leader-elect'', BoolFlag False),
      (''namespace'', StringFlag []),
      (''watch-filter'', StringFlag []),
      (''webhook-cert-path'', StringFlag []),
      (''webhook-cert-name'', StringFlag ''tls.crt''),
      (''webhook-cert-key'', StringFlag ''tls.key''),
      (''enable-http2'', BoolFlag False),
      (''netbox-request-timeout'', DurationFlag DefaultRequestTimeout)]"

text \<open>Setting one flag writes the variable it was declared with.\<close>

fun set_flag :: "managerConfig \<Rightarrow> string \<times> flag_value \<Rightarrow> managerConfig" where
  "set_flag cfg (name, StringFlag v) =
     (if name = ''metrics-bind-address'' then cfg\<lparr>mc_metricsAddr := v\<rparr>
      else if name = ''health-probe-bind-address'' then cfg\<lparr>mc_probeAddr := v\<rparr>
      else if name = ''namespace'' then cfg\<lparr>mc_watchNamespace := v\<rparr>
      else if name = ''watch-filter'' then cfg\<lparr>mc_watchFilter := v\<rparr>
      else if name = ''webhook-cert-path'' then cfg\<lparr>mc_webhookCertPath := v\<rparr>
      else if name = ''webhook-cert-name'' then cfg\<lparr>mc_webhookCertName := v\<rparr>
      else if name = ''webhook-cert-key'' then cfg\<lparr>mc_webhookCertKey := v\<rparr>
      else cfg)"
| "set_flag cfg (name, BoolFlag v) =
     (if name = ''leader-elect'' then cfg\<lparr>mc_enableLeaderElection := v\<rparr>
      else if name = ''enable-http2'' then cfg\<lparr>mc_enableHTTP2 := v\<rparr>
      else cfg)"
| "set_flag cfg (name, DurationFlag v) =
     (if name = ''netbox-request-timeout'' then cfg\<lparr>mc_netboxRequestTimeout := v\<rparr> else cfg)"

section \<open>What the program asks of controller-runtime\<close>

text \<open>\<open>*tls.Config\<close>: the field the options set.\<close>

record tls_config =
  tl_NextProtos :: "string list"

record webhook_options =
  wo_TLSOpts :: "(tls_config \<Rightarrow> tls_config) list"
  wo_CertDir :: string
  wo_CertName :: string
  wo_KeyName :: string

text \<open>\<open>ctrl.Options\<close>; the scheme is the list of the kinds it knows, and
  \<open>DefaultNamespaces\<close> the keys of the map, \<open>None\<close> for no cache options.\<close>

record ctrl_options =
  op_Scheme :: "gvk list"
  op_MetricsBindAddress :: string
  op_Webhook :: webhook_options
  op_HealthProbeBindAddress :: string
  op_LeaderElection :: bool
  op_LeaderElectionID :: string
  op_DefaultNamespaces :: "string list option"

text \<open>A controller as its builder describes it.\<close>

record builder =
  bd_For :: "(string \<times> (watch_event \<Rightarrow> bool)) option"
  bd_Owns :: "(string \<times> (watch_event \<Rightarrow> bool)) list"
  bd_Watches :: "(string \<times> (watch_event \<Rightarrow> bool)) list"
  bd_EventFilter :: "watch_event \<Rightarrow> bool"
  bd_MaxConcurrentReconciles :: "nat option"
  bd_Name :: string

definition NewControllerManagedBy :: builder where
  "NewControllerManagedBy =
     \<lparr>bd_For = None, bd_Owns = [], bd_Watches = [], bd_EventFilter = (\<lambda>ev. True),
      bd_MaxConcurrentReconciles = None, bd_Name = []\<rparr>"

text \<open>The three reconcilers, as \<open>setupControllers\<close> makes them: with the watch filter.\<close>

record ClaimReconciler =
  cr_base :: ControllerBase
  cr_WatchFilterValue :: string
  cr_Adapter :: "NetBoxProviderAdapter option"

datatype reconciler =
  ReconcilesClaims ClaimReconciler
| ReconcilesPools string pool_reconciler
| ReconcilesGlobalPools string pool_reconciler

datatype boot_event =
  BNewManager ctrl_options
| BSetupIndexes
| BIndexField string string
| BComplete builder reconciler
| BHealthzCheck string
| BReadyzCheck string
| BStart

type_synonym boot_step = "boot_event list \<Rightarrow> err option \<times> boot_event list"

text \<open>A manager: how it answers. \<open>mg_filter\<close> is Cluster API's
  \<open>ResourceNotPausedAndHasFilterLabel\<close> for a label value.\<close>

record manager =
  mg_filter :: "string \<Rightarrow> watch_event \<Rightarrow> bool"
  mg_IndexField :: "string \<Rightarrow> string \<Rightarrow> ext_err option"
  mg_Complete :: "builder \<Rightarrow> reconciler \<Rightarrow> ext_err option"
  mg_AddHealthzCheck :: "string \<Rightarrow> ext_err option"
  mg_AddReadyzCheck :: "string \<Rightarrow> ext_err option"
  mg_Start :: "ext_err option"

record boot =
  bt_Parse :: "(string \<times> flag_value) list \<Rightarrow> string list \<Rightarrow>
                 ext_err + (manager_options \<times> (string \<times> flag_value) list)"
  bt_options :: manager_options    \<comment> \<open>the zero value\<close>
  bt_Duration :: "int \<Rightarrow> string"
  bt_AddToScheme :: "string \<Rightarrow> ext_err + gvk list"    \<comment> \<open>of the package\<close>
  bt_GetConfig :: bool
  bt_NewManager :: "ctrl_options \<Rightarrow> ext_err + manager"
  bt_env :: env

definition and_then :: "boot_step \<Rightarrow> boot_step \<Rightarrow> boot_step" where
  "and_then f g t = (case f t of (Some e, t1) \<Rightarrow> (Some e, t1) | (None, t1) \<Rightarrow> g t1)"

definition perform :: "boot_event \<Rightarrow> ext_err option \<Rightarrow> boot_step" where
  "perform ev r t = (map_option Ext r, t @ [ev])"

definition wrapped :: "string \<Rightarrow> boot_step \<Rightarrow> boot_step" where
  "wrapped msg f t = (case f t of (r, t1) \<Rightarrow> (map_option (Wrapf msg []) r, t1))"

section \<open>Options\<close>

definition parseFlags :: "boot \<Rightarrow> string list \<Rightarrow> err + managerConfig" where
  "parseFlags B args =
     (let cfg = \<lparr>mc_metricsAddr = defaultMetricsAddr, mc_webhookCertPath = [],
                 mc_webhookCertName = ''tls.crt'', mc_webhookCertKey = ''tls.key'',
                 mc_enableLeaderElection = False, mc_probeAddr = defaultProbeAddr,
                 mc_watchNamespace = [], mc_watchFilter = [], mc_enableHTTP2 = False,
                 mc_netboxRequestTimeout = DefaultRequestTimeout, mc_managerOptions = bt_options B\<rparr>
      in case bt_Parse B declared_flags args of
           Inl e \<Rightarrow> Inl (Wrapf ''parse flags: %w'' [] (Ext e))
         | Inr (opts, vals) \<Rightarrow>
             (let cfg = foldl set_flag cfg vals\<lparr>mc_managerOptions := opts\<rparr> in
              if mc_netboxRequestTimeout cfg \<le> 0 then
                Inl (Errorf ''netbox-request-timeout must be positive, got %s''
                       [bt_Duration B (mc_netboxRequestTimeout cfg)])
              else Inr cfg))"

fun add_to_scheme :: "(ext_err + gvk list) list \<Rightarrow> gvk list \<Rightarrow> err + gvk list" where
  "add_to_scheme [] scheme = Inr scheme"
| "add_to_scheme (add # adds) scheme =
     (case add of
        Inl e \<Rightarrow> Inl (Wrapf ''add types to scheme: %w'' [] (Ext e))
      | Inr kinds \<Rightarrow> add_to_scheme adds (scheme @ kinds))"

definition newScheme :: "boot \<Rightarrow> err + gvk list" where
  "newScheme B =
     add_to_scheme [bt_AddToScheme B ''clientgoscheme'', bt_AddToScheme B ''clusterv1'',
       bt_AddToScheme B ''ipamv1'', Inr AddToScheme] []"

definition makeTLSOptions :: "bool \<Rightarrow> (tls_config \<Rightarrow> tls_config) list" where
  "makeTLSOptions enableHTTP2 =
     (if enableHTTP2 then [] else [\<lambda>c. c\<lparr>tl_NextProtos := [''http/1.1'']\<rparr>])"

definition newWebhookServerOptions ::
  "managerConfig \<Rightarrow> (tls_config \<Rightarrow> tls_config) list \<Rightarrow> webhook_options" where
  "newWebhookServerOptions cfg tlsOpts =
     (let o0 = \<lparr>wo_TLSOpts = tlsOpts, wo_CertDir = [], wo_CertName = [], wo_KeyName = []\<rparr> in
      if mc_webhookCertPath cfg \<noteq> [] then
        o0\<lparr>wo_CertDir := mc_webhookCertPath cfg, wo_CertName := mc_webhookCertName cfg,
           wo_KeyName := mc_webhookCertKey cfg\<rparr>
      else o0)"

definition newManagerOptions :: "managerConfig \<Rightarrow> gvk list \<Rightarrow> webhook_options \<Rightarrow> ctrl_options" where
  "newManagerOptions cfg scheme webhookServerOptions =
     \<lparr>op_Scheme = scheme, op_MetricsBindAddress = mc_metricsAddr cfg,
      op_Webhook = webhookServerOptions, op_HealthProbeBindAddress = mc_probeAddr cfg,
      op_LeaderElection = mc_enableLeaderElection cfg,
      op_LeaderElectionID = ''cluster-api-ipam-provider-netbox.ipam.cluster.x-k8s.io'',
      op_DefaultNamespaces =
        (if mc_watchNamespace cfg \<noteq> [] then Some [mc_watchNamespace cfg] else None)\<rparr>"

section \<open>SetupWithManager\<close>

definition NetBoxProviderAdapter_SetupWithManager :: "builder \<Rightarrow> builder" where
  "NetBoxProviderAdapter_SetupWithManager b =
     b\<lparr>bd_For := Some (''IPAddressClaim'', watches_claim),
       bd_MaxConcurrentReconciles := Some 1,
       bd_Owns := bd_Owns b @ [(''IPAddress'', watches_address)]\<rparr>"

definition claim_builder :: "env \<Rightarrow> (watch_event \<Rightarrow> bool) \<Rightarrow> builder" where
  "claim_builder E flt =
     NewControllerManagedBy\<lparr>bd_EventFilter := flt, bd_Watches := [(''Cluster'', watches_cluster E)]\<rparr>"

definition ClaimReconciler_SetupWithManager :: "env \<Rightarrow> manager \<Rightarrow> ClaimReconciler \<Rightarrow> boot_step" where
  "ClaimReconciler_SetupWithManager E m r =
     (case cr_Adapter r of
        None \<Rightarrow> (\<lambda>t. (Some (Errorf ''adapter is nil'' []), t))
      | Some a \<Rightarrow>
          and_then
            (wrapped ''register IPAddressClaim clusterName index: %w''
              (perform (BIndexField ''IPAddressClaim'' ''clusterName'')
                (mg_IndexField m ''IPAddressClaim'' ''clusterName'')))
            (let b = NetBoxProviderAdapter_SetupWithManager
                       (claim_builder E (mg_filter m (cr_WatchFilterValue r)))
             in perform (BComplete b (ReconcilesClaims r)) (mg_Complete m b (ReconcilesClaims r))))"

definition NetBoxIPPoolReconciler_SetupWithManager :: "manager \<Rightarrow> string \<Rightarrow> pool_reconciler \<Rightarrow> boot_step" where
  "NetBoxIPPoolReconciler_SetupWithManager m watchFilter r =
     (let b = NewControllerManagedBy
            \<lparr>bd_For := Some (''NetBoxIPPool'', mg_filter m watchFilter),
             bd_Owns := [(''IPAddress'', \<lambda>ev. True)], bd_Name := ''netboxippool''\<rparr>;
          rc = ReconcilesPools watchFilter r
      in perform (BComplete b rc) (mg_Complete m b rc))"

definition GlobalNetBoxIPPoolReconciler_SetupWithManager ::
  "manager \<Rightarrow> string \<Rightarrow> pool_reconciler \<Rightarrow> boot_step" where
  "GlobalNetBoxIPPoolReconciler_SetupWithManager m watchFilter r =
     (let b = NewControllerManagedBy
            \<lparr>bd_For := Some (''GlobalNetBoxIPPool'', mg_filter m watchFilter),
             bd_Owns := [(''IPAddress'', \<lambda>ev. True)], bd_Name := ''globalnetboxippool''\<rparr>;
          rc = ReconcilesGlobalPools watchFilter r
      in perform (BComplete b rc) (mg_Complete m b rc))"

definition setupControllers :: "env \<Rightarrow> manager \<Rightarrow> string \<Rightarrow> int \<Rightarrow> boot_step" where
  "setupControllers E m watchFilter netboxRequestTimeout =
     (let base = \<lparr>cb_HasRecorder = True\<rparr>;
          pool = \<lparr>rc_base = base, rc_NewClient = None, rc_RequestTimeout = netboxRequestTimeout\<rparr>
      in and_then
           (wrapped ''create IPAddressClaim reconciler: %w''
             (ClaimReconciler_SetupWithManager E m
               \<lparr>cr_base = base, cr_WatchFilterValue = watchFilter,
                cr_Adapter = Some \<lparr>pa_NewClient = None, pa_RequestTimeout = netboxRequestTimeout\<rparr>\<rparr>))
         (and_then
           (wrapped ''create NetBoxIPPool reconciler: %w''
             (NetBoxIPPoolReconciler_SetupWithManager m watchFilter pool))
           (wrapped ''create GlobalNetBoxIPPool reconciler: %w''
             (GlobalNetBoxIPPoolReconciler_SetupWithManager m watchFilter pool))))"

definition addProbes :: "manager \<Rightarrow> boot_step" where
  "addProbes m =
     and_then
       (wrapped ''set up health check: %w'' (perform (BHealthzCheck ''healthz'') (mg_AddHealthzCheck m ''healthz'')))
       (wrapped ''set up ready check: %w'' (perform (BReadyzCheck ''readyz'') (mg_AddReadyzCheck m ''readyz'')))"

section \<open>main\<close>

text \<open>What \<open>main\<close> does with its manager, up to the return of \<open>Start\<close>.\<close>

definition run_manager :: "env \<Rightarrow> manager \<Rightarrow> managerConfig \<Rightarrow> boot_step" where
  "run_manager E m cfg =
     and_then (perform BSetupIndexes (SetupIndexes (mg_IndexField m)))
    (and_then (setupControllers E m (mc_watchFilter cfg) (mc_netboxRequestTimeout cfg))
    (and_then (addProbes m) (perform BStart (mg_Start m))))"

text \<open>The exit code, and what was asked of controller-runtime on the way.\<close>

definition main :: "boot \<Rightarrow> string list \<Rightarrow> nat \<times> boot_event list" where
  "main B args =
     (case parseFlags B args of
        Inl e \<Rightarrow> (2, [])
      | Inr cfg \<Rightarrow>
          (case newScheme B of
             Inl e \<Rightarrow> (1, [])
           | Inr scheme \<Rightarrow>
               (let opts = newManagerOptions cfg scheme
                      (newWebhookServerOptions cfg (makeTLSOptions (mc_enableHTTP2 cfg)))
                in if \<not> bt_GetConfig B then (1, [])
                   else (case bt_NewManager B opts of
                     Inl e \<Rightarrow> (1, [BNewManager opts])
                   | Inr m \<Rightarrow>
                       (case run_manager (bt_env B) m cfg [BNewManager opts] of
                          (Some e, t) \<Rightarrow> (1, t)
                        | (None, t) \<Rightarrow> (0, t))))))"

end
