(* ===== verification/Manager_Properties.thy ===== *)
theory Manager_Properties
  imports Manager_Main
begin





lemma map_option_cases: "(case (map_option f r, t) of (None, t1) \<Rightarrow> a t1 | (Some e, t1) \<Rightarrow> b e t1) =
    (case r of None \<Rightarrow> a t | Some e \<Rightarrow> b (f e) t)"
  by (cases r) auto














section \<open>The request timeout\<close>




section \<open>Flags without effect\<close>

text \<open>C38: the flags of Cluster API's manager options have no effect. The program registers them and
  parses their values, but nothing reads managerOptions: replacing the parsed options by any other
  ones changes neither the exit code nor anything that is asked of the manager, its options
  included.\<close>

theorem manager_options_ignored:
  "main (B\<lparr>bt_Parse := \<lambda>fs args. map_sum id (\<lambda>(opts, vals). (g opts, vals)) (bt_Parse B fs args)\<rparr>) args = main B args"
proof -
  let ?B = "B\<lparr>bt_Parse := \<lambda>fs args. map_sum id (\<lambda>(opts, vals). (g opts, vals)) (bt_Parse B fs args)\<rparr>"
  have scheme: "newScheme ?B = newScheme B" by (simp add: newScheme_def)
  have run: "run_manager E m (cfg\<lparr>mc_managerOptions := x\<rparr>) = run_manager E m cfg" for E m cfg x
    by (simp add: run_manager_def)
  have opts: "newManagerOptions (cfg\<lparr>mc_managerOptions := x\<rparr>) sc w = newManagerOptions cfg sc w"
    "newWebhookServerOptions (cfg\<lparr>mc_managerOptions := x\<rparr>) o1 = newWebhookServerOptions cfg o1" for cfg x sc w o1
    by (simp_all add: newManagerOptions_def newWebhookServerOptions_def Let_def)
  show ?thesis
    by (cases "bt_Parse B declared_flags args")
       (auto simp: main_def parseFlags_def scheme Let_def run opts split: prod.splits sum.splits)
qed

end
