(* ===== verification/Go_Heap.thy ===== *)
theory Go_Heap
  imports Nbx_Prelude
begin

text \<open>
  Go's memory, for code whose correctness lies in what it shares: cells at addresses, allocation by
  \<open>new\<close> and \<open>make\<close>, loads and stores. A pointer is an address or nil, a slice is nil or a base
  address with a length; the elements of a slice have consecutive addresses, because the code takes
  pointers to them. \<open>rep h g v A\<close> says that in the memory \<open>h\<close> the Go value \<open>g\<close> stands for the
  value \<open>v\<close> and reaches exactly the cells \<open>A\<close>; the locale \<open>deep_copier\<close> is the contract of a
  deep copy for such a relation.
\<close>

type_synonym loc = nat

record 'c gheap =
  gh_mem :: "loc \<Rightarrow> 'c option"
  gh_next :: loc   \<comment> \<open>the address that is allocated next\<close>

record slice =
  sl_base :: loc
  sl_len :: nat

definition heap_ok :: "'c gheap \<Rightarrow> bool" where
  "heap_ok h \<longleftrightarrow> (\<forall>a. gh_mem h a \<noteq> None \<longrightarrow> a < gh_next h)"

section \<open>Operations\<close>

text \<open>\<open>make\<close> of a slice of \<open>n\<close> elements, and \<open>new\<close> with \<open>n = 1\<close>: zeroed cells.\<close>

definition go_make :: "'c \<Rightarrow> nat \<Rightarrow> 'c gheap \<Rightarrow> loc \<times> 'c gheap" where
  "go_make zero n h =
     (gh_next h,
      h\<lparr>gh_mem := (\<lambda>a. if gh_next h \<le> a \<and> a < gh_next h + n then Some zero else gh_mem h a),
        gh_next := gh_next h + n\<rparr>)"

definition go_store :: "loc \<Rightarrow> 'c \<Rightarrow> 'c gheap \<Rightarrow> 'c gheap option" where
  "go_store a c h = (if gh_mem h a = None then None else Some (h\<lparr>gh_mem := (gh_mem h)(a \<mapsto> c)\<rparr>))"

text \<open>Load a cell of the type that \<open>un\<close> reads.\<close>

definition go_load :: "('c \<Rightarrow> 'g option) \<Rightarrow> loc \<Rightarrow> 'c gheap \<Rightarrow> 'g option" where
  "go_load un a h = Option.bind (gh_mem h a) un"

text \<open>The generated loop over a slice: \<open>(*in)[i].DeepCopyInto(&(*out)[i])\<close> for every index.\<close>

fun copy_loop ::
  "('c \<Rightarrow> 'g option) \<Rightarrow> ('g \<Rightarrow> 'c) \<Rightarrow> ('g \<Rightarrow> 'c gheap \<Rightarrow> ('g \<times> 'c gheap) option) \<Rightarrow> loc \<Rightarrow> loc \<Rightarrow> nat \<Rightarrow>
     'c gheap \<Rightarrow> 'c gheap option" where
  "copy_loop un mk copy src dst 0 h = Some h"
| "copy_loop un mk copy src dst (Suc n) h = do {
     g \<leftarrow> go_load un src h;
     (g', h1) \<leftarrow> copy g h;
     h2 \<leftarrow> go_store dst (mk g') h1;
     copy_loop un mk copy (Suc src) (Suc dst) n h2
   }"

text \<open>\<open>if in != nil { *out = make([]T, len( *in)); for i := range *in ... }\<close>\<close>

definition copy_slice ::
  "'c \<Rightarrow> ('c \<Rightarrow> 'g option) \<Rightarrow> ('g \<Rightarrow> 'c) \<Rightarrow> ('g \<Rightarrow> 'c gheap \<Rightarrow> ('g \<times> 'c gheap) option) \<Rightarrow>
     slice option \<Rightarrow> 'c gheap \<Rightarrow> (slice option \<times> 'c gheap) option" where
  "copy_slice zero un mk copy s h =
     (case s of
        None \<Rightarrow> Some (None, h)
      | Some sl \<Rightarrow>
          (let (base, h1) = go_make zero (sl_len sl) h in do {
             h2 \<leftarrow> copy_loop un mk copy (sl_base sl) base (sl_len sl) h1;
             Some (Some \<lparr>sl_base = base, sl_len = sl_len sl\<rparr>, h2)
           }))"

text \<open>A plain value is copied by assignment; so are the elements that \<open>copy( *out, *in)\<close> copies.\<close>

definition copy_plain :: "'g \<Rightarrow> 'c gheap \<Rightarrow> ('g \<times> 'c gheap) option" where
  "copy_plain g h = Some (g, h)"

text \<open>\<open>if in != nil { *out = new(T); **out = **in }\<close>, with the copy of the pointed-to value.\<close>

definition copy_pointer ::
  "'c \<Rightarrow> ('c \<Rightarrow> 'g option) \<Rightarrow> ('g \<Rightarrow> 'c) \<Rightarrow> ('g \<Rightarrow> 'c gheap \<Rightarrow> ('g \<times> 'c gheap) option) \<Rightarrow>
     loc option \<Rightarrow> 'c gheap \<Rightarrow> (loc option \<times> 'c gheap) option" where
  "copy_pointer zero un mk copy p h =
     (case p of
        None \<Rightarrow> Some (None, h)
      | Some a \<Rightarrow>
          (let (out, h1) = go_make zero 1 h in do {
             g \<leftarrow> go_load un a h1;
             (g', h2) \<leftarrow> copy g h1;
             h3 \<leftarrow> go_store out (mk g') h2;
             Some (Some out, h3)
           }))"

section \<open>What a copy leaves alone\<close>

definition extends :: "'c gheap \<Rightarrow> 'c gheap \<Rightarrow> bool" where
  "extends h h' \<longleftrightarrow> gh_next h \<le> gh_next h' \<and> (\<forall>a < gh_next h. gh_mem h' a = gh_mem h a)"

lemma extends_refl [simp]: "extends h h"
  by (simp add: extends_def)

lemma extends_trans [trans]: "extends h h1 \<Longrightarrow> extends h1 h2 \<Longrightarrow> extends h h2"
  by (auto simp: extends_def)

text \<open>The Go value \<open>g\<close> of the memory \<open>h'\<close> stands for \<open>v\<close>, and its cells are all newer than \<open>h\<close>.\<close>

definition copied ::
  "('c gheap \<Rightarrow> 'g \<Rightarrow> 'v \<Rightarrow> loc set \<Rightarrow> bool) \<Rightarrow> 'c gheap \<Rightarrow> 'c gheap \<Rightarrow> 'g \<Rightarrow> 'v \<Rightarrow> bool" where
  "copied rep h h' g v \<longleftrightarrow>
     heap_ok h' \<and> extends h h' \<and> (\<exists>B. rep h' g v B \<and> B \<subseteq> {gh_next h ..< gh_next h'})"

text \<open>The copy of a value that stands for \<open>v\<close> stands for \<open>v\<close>, in cells of its own: whatever is written
  to the cells of the one afterwards, the other stands for the same value as before.\<close>

definition copies_apart ::
  "('g \<Rightarrow> 'c gheap \<Rightarrow> ('g \<times> 'c gheap) option) \<Rightarrow> ('c gheap \<Rightarrow> 'g \<Rightarrow> 'v \<Rightarrow> loc set \<Rightarrow> bool) \<Rightarrow> bool" where
  "copies_apart copy rep \<longleftrightarrow>
     (\<forall>h g v A. heap_ok h \<longrightarrow> rep h g v A \<longrightarrow>
        (\<exists>g' h' B. copy g h = Some (g', h') \<and> rep h' g v A \<and> rep h' g' v B \<and> A \<inter> B = {} \<and>
           (\<forall>h''. (\<forall>a. a \<notin> B \<longrightarrow> gh_mem h'' a = gh_mem h' a) \<longrightarrow> rep h'' g v A) \<and>
           (\<forall>h''. (\<forall>a. a \<notin> A \<longrightarrow> gh_mem h'' a = gh_mem h' a) \<longrightarrow> rep h'' g' v B)))"

locale deep_copier =
  fixes copy :: "'g \<Rightarrow> 'c gheap \<Rightarrow> ('g \<times> 'c gheap) option"
    and rep :: "'c gheap \<Rightarrow> 'g \<Rightarrow> 'v \<Rightarrow> loc set \<Rightarrow> bool"
  assumes rep_frame: "rep h g v A \<Longrightarrow> (\<And>a. a \<in> A \<Longrightarrow> gh_mem h' a = gh_mem h a) \<Longrightarrow> rep h' g v A"
    and rep_alloc: "rep h g v A \<Longrightarrow> a \<in> A \<Longrightarrow> gh_mem h a \<noteq> None"
    and copy_rep: "heap_ok h \<Longrightarrow> rep h g v A \<Longrightarrow> \<exists>g' h'. copy g h = Some (g', h') \<and> copied rep h h' g' v"
begin

lemma rep_below: "rep h g v A \<Longrightarrow> heap_ok h \<Longrightarrow> A \<subseteq> {..< gh_next h}"
  using rep_alloc by (fastforce simp: heap_ok_def)

lemma rep_extends: "rep h g v A \<Longrightarrow> heap_ok h \<Longrightarrow> extends h h' \<Longrightarrow> rep h' g v A"
  by (rule rep_frame) (use rep_below in \<open>fastforce simp: extends_def\<close>)+

lemma copied_later:
  assumes "copied rep h h1 g v" "heap_ok h2" "extends h1 h2"
  shows "copied rep h h2 g v"
proof -
  from assms(1) obtain B where B: "heap_ok h1" "extends h h1" "rep h1 g v B" "B \<subseteq> {gh_next h ..< gh_next h1}"
    by (auto simp: copied_def)
  have "rep h2 g v B" using rep_extends [OF B(3,1) assms(3)] .
  moreover have "B \<subseteq> {gh_next h ..< gh_next h2}" using B(4) assms(3) by (auto simp: extends_def)
  ultimately show ?thesis using assms(2,3) B(2) extends_trans by (auto simp: copied_def)
qed

lemma copied_earlier: "extends h h1 \<Longrightarrow> copied rep h1 h2 g v \<Longrightarrow> copied rep h h2 g v"
  by (fastforce simp: copied_def extends_def)

text \<open>The point of a deep copy: original and copy do not share a cell.\<close>

lemma apart:
  assumes "heap_ok h" "rep h g v A"
  shows "\<exists>g' h' B. copy g h = Some (g', h') \<and> rep h' g v A \<and> rep h' g' v B \<and> A \<inter> B = {} \<and>
    (\<forall>h''. (\<forall>a. a \<notin> B \<longrightarrow> gh_mem h'' a = gh_mem h' a) \<longrightarrow> rep h'' g v A) \<and>
    (\<forall>h''. (\<forall>a. a \<notin> A \<longrightarrow> gh_mem h'' a = gh_mem h' a) \<longrightarrow> rep h'' g' v B)"
proof -
  from copy_rep [OF assms] obtain g' h' B where c: "copy g h = Some (g', h')" "extends h h'" "heap_ok h'"
    and B: "rep h' g' v B" "B \<subseteq> {gh_next h ..< gh_next h'}" by (auto simp: copied_def)
  have A: "rep h' g v A" using rep_extends [OF assms(2,1) c(2)] .
  have disjoint: "A \<inter> B = {}" using rep_below [OF assms(2,1)] B(2) by fastforce
  have "rep h'' g v A" if "\<forall>a. a \<notin> B \<longrightarrow> gh_mem h'' a = gh_mem h' a" for h''
    by (rule rep_frame [OF A]) (use that disjoint in blast)
  moreover have "rep h'' g' v B" if "\<forall>a. a \<notin> A \<longrightarrow> gh_mem h'' a = gh_mem h' a" for h''
    by (rule rep_frame [OF B(1)]) (use that disjoint in blast)
  ultimately show ?thesis using c(1) A B(1) disjoint by blast
qed

lemma independent: "copies_apart copy rep"
  unfolding copies_apart_def using apart by blast

end

section \<open>Plain values, pointers and slices\<close>

definition rep_plain :: "'c gheap \<Rightarrow> 'g \<Rightarrow> 'g \<Rightarrow> loc set \<Rightarrow> bool" where
  "rep_plain h g v A \<longleftrightarrow> g = v \<and> A = {}"

definition rep_cell ::
  "('c \<Rightarrow> 'g option) \<Rightarrow> ('c gheap \<Rightarrow> 'g \<Rightarrow> 'v \<Rightarrow> loc set \<Rightarrow> bool) \<Rightarrow> 'c gheap \<Rightarrow> loc \<Rightarrow> 'v \<Rightarrow> loc set \<Rightarrow> bool" where
  "rep_cell un rep h a v A \<longleftrightarrow> (\<exists>g B. go_load un a h = Some g \<and> rep h g v B \<and> A = insert a B)"

text \<open>A nil pointer stands for \<open>None\<close>.\<close>

definition rep_pointer ::
  "('c \<Rightarrow> 'g option) \<Rightarrow> ('c gheap \<Rightarrow> 'g \<Rightarrow> 'v \<Rightarrow> loc set \<Rightarrow> bool) \<Rightarrow>
     'c gheap \<Rightarrow> loc option \<Rightarrow> 'v option \<Rightarrow> loc set \<Rightarrow> bool" where
  "rep_pointer un rep h p v A \<longleftrightarrow>
     (case (p, v) of
        (None, None) \<Rightarrow> A = {}
      | (Some a, Some w) \<Rightarrow> rep_cell un rep h a w A
      | _ \<Rightarrow> False)"

text \<open>The elements from an address on.\<close>

fun rep_cells ::
  "('c \<Rightarrow> 'g option) \<Rightarrow> ('c gheap \<Rightarrow> 'g \<Rightarrow> 'v \<Rightarrow> loc set \<Rightarrow> bool) \<Rightarrow> 'c gheap \<Rightarrow> loc \<Rightarrow> 'v list \<Rightarrow> loc set \<Rightarrow> bool" where
  "rep_cells un rep h a [] A \<longleftrightarrow> A = {}"
| "rep_cells un rep h a (v # vs) A \<longleftrightarrow>
     (\<exists>B C. rep_cell un rep h a v B \<and> rep_cells un rep h (Suc a) vs C \<and> A = B \<union> C)"

text \<open>A nil slice and an empty slice stand for the empty list.\<close>

definition rep_slice ::
  "('c \<Rightarrow> 'g option) \<Rightarrow> ('c gheap \<Rightarrow> 'g \<Rightarrow> 'v \<Rightarrow> loc set \<Rightarrow> bool) \<Rightarrow>
     'c gheap \<Rightarrow> slice option \<Rightarrow> 'v list \<Rightarrow> loc set \<Rightarrow> bool" where
  "rep_slice un rep h s vs A \<longleftrightarrow>
     (case s of
        None \<Rightarrow> vs = [] \<and> A = {}
      | Some sl \<Rightarrow> sl_len sl = length vs \<and> rep_cells un rep h (sl_base sl) vs A)"

section \<open>The contract for the combinators\<close>

lemma copied_self: "heap_ok h \<Longrightarrow> rep h g v {} \<Longrightarrow> copied rep h h g v"
  by (auto simp: copied_def)

lemma plain_copier: "deep_copier copy_plain rep_plain"
proof
  fix h :: "'c gheap" and g v :: 'g and A
  assume "heap_ok h" "rep_plain h g v A"
  then show "\<exists>g' h'. copy_plain g h = Some (g', h') \<and> copied rep_plain h h' g' v"
    using copied_self [of h rep_plain g v] by (simp add: copy_plain_def rep_plain_def)
qed (auto simp: rep_plain_def)

lemma go_load_frame: "gh_mem h' a = gh_mem h a \<Longrightarrow> go_load un a h' = go_load un a h"
  by (simp add: go_load_def)

lemma go_load_alloc: "go_load un a h = Some g \<Longrightarrow> gh_mem h a \<noteq> None"
  by (cases "gh_mem h a") (simp_all add: go_load_def)

lemma make_facts:
  assumes "go_make zero n h = (base, h1)" "heap_ok h"
  shows "base = gh_next h" "heap_ok h1" "extends h h1" "gh_next h1 = gh_next h + n"
    "a \<in> {base ..< base + n} \<Longrightarrow> gh_mem h1 a \<noteq> None"
proof -
  have "a < gh_next h + n" if "gh_mem h a = Some y" for a y
    using assms(2) that by (fastforce simp: heap_ok_def)
  with assms(1) show "heap_ok h1" by (auto simp: go_make_def heap_ok_def split: if_splits)
qed (use assms(1) in \<open>auto simp: go_make_def extends_def\<close>)

lemma store_facts:
  assumes "heap_ok h" "gh_mem h a \<noteq> None"
  shows "\<exists>h'. go_store a c h = Some h' \<and> heap_ok h' \<and> gh_next h' = gh_next h \<and>
    gh_mem h' a = Some c \<and> (\<forall>x. x \<noteq> a \<longrightarrow> gh_mem h' x = gh_mem h x)"
  using assms by (auto simp: go_store_def heap_ok_def)

context deep_copier
begin

lemma cell_frame:
  "rep_cell un rep h a v A \<Longrightarrow> (\<And>x. x \<in> A \<Longrightarrow> gh_mem h' x = gh_mem h x) \<Longrightarrow> rep_cell un rep h' a v A"
  unfolding rep_cell_def using rep_frame go_load_frame by (metis insertCI)

lemma cell_alloc: "rep_cell un rep h a v A \<Longrightarrow> x \<in> A \<Longrightarrow> gh_mem h x \<noteq> None"
  unfolding rep_cell_def using rep_alloc go_load_alloc by (metis insertE)

lemma cells_frame:
  "rep_cells un rep h a vs A \<Longrightarrow> (\<And>x. x \<in> A \<Longrightarrow> gh_mem h' x = gh_mem h x) \<Longrightarrow> rep_cells un rep h' a vs A"
proof (induction vs arbitrary: a A)
  case (Cons v vs)
  then obtain B C where BC: "rep_cell un rep h a v B" "rep_cells un rep h (Suc a) vs C" "A = B \<union> C" by auto
  have "rep_cell un rep h' a v B" by (rule cell_frame [OF BC(1)]) (use Cons.prems(2) BC(3) in auto)
  moreover have "rep_cells un rep h' (Suc a) vs C" by (rule Cons.IH [OF BC(2)]) (use Cons.prems(2) BC(3) in auto)
  ultimately show ?case using BC(3) by auto
qed simp

lemma cells_alloc: "rep_cells un rep h a vs A \<Longrightarrow> x \<in> A \<Longrightarrow> gh_mem h x \<noteq> None"
  by (induction vs arbitrary: a A) (auto dest: cell_alloc)

lemma alloc_below: "heap_ok h \<Longrightarrow> gh_mem h x \<noteq> None \<Longrightarrow> x < gh_next h"
  by (simp add: heap_ok_def)

text \<open>Copying one cell into an allocated one.\<close>

lemma copy_cell:
  assumes mk: "\<And>g. un (mk g) = Some g" and h: "heap_ok h" and src: "rep_cell un rep h a v A"
    and dst: "dst \<notin> A" "gh_mem h dst \<noteq> None"
  obtains g g' h1 h2 B where "go_load un a h = Some g" "copy g h = Some (g', h1)" "go_store dst (mk g') h1 = Some h2"
    "heap_ok h2" "gh_next h \<le> gh_next h2" "\<And>x. x < gh_next h \<Longrightarrow> x \<noteq> dst \<Longrightarrow> gh_mem h2 x = gh_mem h x"
    "rep_cell un rep h2 dst v B" "B \<subseteq> insert dst {gh_next h ..< gh_next h2}"
proof -
  from src obtain g A' where g: "go_load un a h = Some g" "rep h g v A'" by (auto simp: rep_cell_def)
  from copy_rep [OF h g(2)] obtain g' h1 B where c: "copy g h = Some (g', h1)" "heap_ok h1" "extends h h1"
    and B: "rep h1 g' v B" "B \<subseteq> {gh_next h ..< gh_next h1}" by (auto simp: copied_def)
  have dst_h: "dst < gh_next h" using dst(2) h by (rule alloc_below [rotated])
  have "gh_mem h1 dst \<noteq> None" using c(3) dst(2) dst_h by (simp add: extends_def)
  from store_facts [OF c(2) this] obtain h2 where h2: "go_store dst (mk g') h1 = Some h2" "heap_ok h2"
    "gh_next h2 = gh_next h1" "gh_mem h2 dst = Some (mk g')" "\<And>x. x \<noteq> dst \<Longrightarrow> gh_mem h2 x = gh_mem h1 x" by blast
  have "rep h2 g' v B" by (rule rep_frame [OF B(1)]) (use B(2) dst_h h2(5) in fastforce)
  then have cell: "rep_cell un rep h2 dst v (insert dst B)" using h2(4) mk by (auto simp: rep_cell_def go_load_def)
  show thesis
    by (rule that [OF g(1) c(1) h2(1,2) _ _ cell]) (use c(3) h2(3,5) B(2) in \<open>auto simp: extends_def\<close>)
qed

lemma copy_loop_rep:
  assumes mk: "\<And>g. un (mk g) = Some g"
  shows "heap_ok h \<Longrightarrow> rep_cells un rep h src vs A \<Longrightarrow> A \<inter> {dst ..< dst + length vs} = {} \<Longrightarrow>
    \<forall>x \<in> {dst ..< dst + length vs}. gh_mem h x \<noteq> None \<Longrightarrow>
    \<exists>h' B. copy_loop un mk copy src dst (length vs) h = Some h' \<and> heap_ok h' \<and> gh_next h \<le> gh_next h' \<and>
      (\<forall>x < gh_next h. x \<notin> {dst ..< dst + length vs} \<longrightarrow> gh_mem h' x = gh_mem h x) \<and>
      rep_cells un rep h' dst vs B \<and> B \<subseteq> {dst ..< dst + length vs} \<union> {gh_next h ..< gh_next h'}"
proof (induction vs arbitrary: src dst h A)
  case Nil
  then show ?case by auto
next
  case (Cons v vs)
  let ?D = "{Suc dst ..< Suc dst + length vs}"
  from Cons.prems(2) obtain A1 A2 where A: "rep_cell un rep h src v A1" "rep_cells un rep h (Suc src) vs A2" "A = A1 \<union> A2"
    by auto
  have "dst \<notin> A1" "gh_mem h dst \<noteq> None" using Cons.prems(3,4) A(3) by auto
  from copy_cell [OF mk Cons.prems(1) A(1) this] obtain g g' h1 h2 B1 where
    step: "go_load un src h = Some g" "copy g h = Some (g', h1)" "go_store dst (mk g') h1 = Some h2"
    and h2: "heap_ok h2" "gh_next h \<le> gh_next h2" "\<And>x. x < gh_next h \<Longrightarrow> x \<noteq> dst \<Longrightarrow> gh_mem h2 x = gh_mem h x"
    and B1: "rep_cell un rep h2 dst v B1" "B1 \<subseteq> insert dst {gh_next h ..< gh_next h2}" by blast
  have low: "x < gh_next h" if "x \<in> insert dst ?D \<or> x \<in> A2" for x
    using that Cons.prems(1,4) cells_alloc [OF A(2)] alloc_below by (metis atLeastLessThan_iff insertE
      le_refl length_Cons less_add_same_cancel1 add_Suc_right add_Suc Suc_leD zero_less_Suc)
  have neq: "x \<noteq> dst" if "x \<in> A2" for x using that Cons.prems(3) A(3) by auto
  have "rep_cells un rep h2 (Suc src) vs A2"
    by (rule cells_frame [OF A(2)]) (use h2(3) low neq in blast)
  moreover have "A2 \<inter> ?D = {}" using Cons.prems(3) A(3) by auto
  moreover have "\<forall>x \<in> ?D. gh_mem h2 x \<noteq> None" using h2(3) low Cons.prems(4) by auto
  ultimately obtain h' B2 where rest: "copy_loop un mk copy (Suc src) (Suc dst) (length vs) h2 = Some h'"
    "heap_ok h'" "gh_next h2 \<le> gh_next h'" "\<forall>x < gh_next h2. x \<notin> ?D \<longrightarrow> gh_mem h' x = gh_mem h2 x"
    "rep_cells un rep h' (Suc dst) vs B2" "B2 \<subseteq> ?D \<union> {gh_next h2 ..< gh_next h'}"
    using Cons.IH [OF h2(1)] by blast
  have dst_low: "dst + length vs < gh_next h"
    using low [of "dst + length vs"] by (cases vs) auto
  have "rep_cell un rep h' dst v B1"
    by (rule cell_frame [OF B1(1)]) (use B1(2) rest(4) dst_low h2(2) in fastforce)
  then have "rep_cells un rep h' dst (v # vs) (B1 \<union> B2)" using rest(5) by auto
  moreover have "B1 \<union> B2 \<subseteq> {dst ..< dst + length (v # vs)} \<union> {gh_next h ..< gh_next h'}"
    using B1(2) rest(3,6) h2(2) by fastforce
  moreover have "\<forall>x < gh_next h. x \<notin> {dst ..< dst + length (v # vs)} \<longrightarrow> gh_mem h' x = gh_mem h x"
    using rest(4) h2(2,3) by auto
  moreover have "copy_loop un mk copy src dst (length (v # vs)) h = Some h'" by (simp add: step rest(1))
  ultimately show ?case using rest(2,3) h2(2) by (intro exI [of _ h'] exI [of _ "B1 \<union> B2"]) simp
qed

end

lemma pointer_copier:
  assumes "deep_copier copy rep" and mk: "\<And>g. un (mk g) = Some g"
  shows "deep_copier (copy_pointer zero un mk copy) (rep_pointer un rep)"
proof
  note elem = deep_copier.cell_frame [OF assms(1)] deep_copier.cell_alloc [OF assms(1)]
  show "rep_pointer un rep h' p v A" if "rep_pointer un rep h p v A" "\<And>a. a \<in> A \<Longrightarrow> gh_mem h' a = gh_mem h a"
    for h p v A h'
    using that elem(1) by (auto simp: rep_pointer_def split: option.splits)
  show "gh_mem h a \<noteq> None" if "rep_pointer un rep h p v A" "a \<in> A" for h p v A a
    using that elem(2) by (auto simp: rep_pointer_def split: option.splits)
  fix h p v A
  assume h: "heap_ok h" and p: "rep_pointer un rep h p v A"
  show "\<exists>p' h'. copy_pointer zero un mk copy p h = Some (p', h') \<and> copied (rep_pointer un rep) h h' p' v"
  proof (cases p)
    case None
    with p have "v = None" "A = {}" by (auto simp: rep_pointer_def split: option.splits)
    with p None h show ?thesis by (auto simp: copy_pointer_def intro: copied_self)
  next
    case (Some a)
    with p obtain w where w: "v = Some w" "rep_cell un rep h a w A" by (auto simp: rep_pointer_def split: option.splits)
    obtain out h1 where make: "go_make zero 1 h = (out, h1)" by (cases "go_make zero 1 h")
    note m = make_facts [OF make h]
    have low: "x < gh_next h" if "x \<in> A" for x using elem(2) [OF w(2) that] h by (simp add: heap_ok_def)
    have "rep_cell un rep h1 a w A" by (rule elem(1) [OF w(2)]) (use low m(3) in \<open>simp add: extends_def\<close>)
    moreover have "out \<notin> A" "gh_mem h1 out \<noteq> None" using low m(1) m(5) [of out] by auto
    ultimately obtain g g' h2 h3 B where "go_load un a h1 = Some g" "copy g h1 = Some (g', h2)" "go_store out (mk g') h2 = Some h3"
      and h3: "heap_ok h3" "gh_next h1 \<le> gh_next h3" "\<And>x. x < gh_next h1 \<Longrightarrow> x \<noteq> out \<Longrightarrow> gh_mem h3 x = gh_mem h1 x"
      "rep_cell un rep h3 out w B" "B \<subseteq> insert out {gh_next h1 ..< gh_next h3}"
      using deep_copier.copy_cell [OF assms(1) mk m(2)] by metis
    then have "copy_pointer zero un mk copy p h = Some (Some out, h3)" by (simp add: copy_pointer_def Some make [simplified])
    moreover have "extends h h3" using m(1,3,4) h3(2,3) by (auto simp: extends_def)
    moreover have "B \<subseteq> {gh_next h ..< gh_next h3}" using h3(2,5) m(1,4) by auto
    ultimately show ?thesis using h3(1,4) by (auto simp: copied_def rep_pointer_def w(1))
  qed
qed

lemma slice_copier:
  assumes "deep_copier copy rep" and mk: "\<And>g. un (mk g) = Some g"
  shows "deep_copier (copy_slice zero un mk copy) (rep_slice un rep)"
proof
  note elem = deep_copier.cells_frame [OF assms(1)] deep_copier.cells_alloc [OF assms(1)]
  show "rep_slice un rep h' p v A" if "rep_slice un rep h p v A" "\<And>a. a \<in> A \<Longrightarrow> gh_mem h' a = gh_mem h a"
    for h p v A h'
    using that elem(1) by (auto simp: rep_slice_def split: option.splits)
  show "gh_mem h a \<noteq> None" if "rep_slice un rep h p v A" "a \<in> A" for h p v A a
    using that elem(2) by (auto simp: rep_slice_def split: option.splits)
  fix h s vs A
  assume h: "heap_ok h" and s: "rep_slice un rep h s vs A"
  show "\<exists>s' h'. copy_slice zero un mk copy s h = Some (s', h') \<and> copied (rep_slice un rep) h h' s' vs"
  proof (cases s)
    case None
    with s h show ?thesis by (auto simp: copy_slice_def rep_slice_def intro!: copied_self)
  next
    case (Some sl)
    with s have sl: "sl_len sl = length vs" "rep_cells un rep h (sl_base sl) vs A" by (auto simp: rep_slice_def)
    obtain base h1 where make: "go_make zero (length vs) h = (base, h1)" by (cases "go_make zero (length vs) h")
    note m = make_facts [OF make h]
    let ?D = "{base ..< base + length vs}"
    have low: "x < gh_next h" if "x \<in> A" for x using elem(2) [OF sl(2) that] h by (simp add: heap_ok_def)
    have "rep_cells un rep h1 (sl_base sl) vs A" by (rule elem(1) [OF sl(2)]) (use low m(3) in \<open>simp add: extends_def\<close>)
    moreover have "A \<inter> ?D = {}" "\<forall>x \<in> ?D. gh_mem h1 x \<noteq> None" using low m(1,5) by fastforce+
    ultimately obtain h' B where c: "copy_loop un mk copy (sl_base sl) base (length vs) h1 = Some h'"
      "heap_ok h'" "gh_next h1 \<le> gh_next h'" "\<forall>x < gh_next h1. x \<notin> ?D \<longrightarrow> gh_mem h' x = gh_mem h1 x"
      "rep_cells un rep h' base vs B" "B \<subseteq> ?D \<union> {gh_next h1 ..< gh_next h'}"
      using deep_copier.copy_loop_rep [OF assms(1) mk m(2)] by metis
    then have "copy_slice zero un mk copy s h = Some (Some \<lparr>sl_base = base, sl_len = length vs\<rparr>, h')"
      by (simp add: copy_slice_def Some sl(1) make)
    moreover have "extends h h'" using m(1,3,4) c(3,4) by (auto simp: extends_def)
    moreover have "B \<subseteq> {gh_next h ..< gh_next h'}" using c(3,6) m(1,4) by fastforce
    ultimately show ?thesis using c(2,5) by (auto simp: copied_def rep_slice_def)
  qed
qed

text \<open>Structs: fields are copied one after the other, and the rest of the value is carried along.\<close>

definition copy_pair ::
  "('g1 \<Rightarrow> 'c gheap \<Rightarrow> ('g1 \<times> 'c gheap) option) \<Rightarrow> ('g2 \<Rightarrow> 'c gheap \<Rightarrow> ('g2 \<times> 'c gheap) option) \<Rightarrow>
     'g1 \<times> 'g2 \<Rightarrow> 'c gheap \<Rightarrow> (('g1 \<times> 'g2) \<times> 'c gheap) option" where
  "copy_pair copy1 copy2 g h = do {
     (x, h1) \<leftarrow> copy1 (fst g) h;
     (y, h2) \<leftarrow> copy2 (snd g) h1;
     Some ((x, y), h2)
   }"

definition rep_pair ::
  "('c gheap \<Rightarrow> 'g1 \<Rightarrow> 'v1 \<Rightarrow> loc set \<Rightarrow> bool) \<Rightarrow> ('c gheap \<Rightarrow> 'g2 \<Rightarrow> 'v2 \<Rightarrow> loc set \<Rightarrow> bool) \<Rightarrow>
     'c gheap \<Rightarrow> 'g1 \<times> 'g2 \<Rightarrow> 'v1 \<times> 'v2 \<Rightarrow> loc set \<Rightarrow> bool" where
  "rep_pair rep1 rep2 h g v A \<longleftrightarrow>
     (\<exists>A1 A2. rep1 h (fst g) (fst v) A1 \<and> rep2 h (snd g) (snd v) A2 \<and> A = A1 \<union> A2)"

lemma copied_pair:
  assumes "deep_copier copy1 rep1" "deep_copier copy2 rep2" "heap_ok h" "rep1 h g1 v1 A1" "rep2 h g2 v2 A2"
  obtains g1' h1 g2' h2 where "copy1 g1 h = Some (g1', h1)" "copy2 g2 h1 = Some (g2', h2)"
    "copied rep1 h h2 g1' v1" "copied rep2 h h2 g2' v2"
proof -
  from deep_copier.copy_rep [OF assms(1,3,4)] obtain g1' h1 where
    c1: "copy1 g1 h = Some (g1', h1)" "copied rep1 h h1 g1' v1" by blast
  then have h1: "heap_ok h1" "extends h h1" by (simp_all add: copied_def)
  have "rep2 h1 g2 v2 A2" by (rule deep_copier.rep_extends [OF assms(2,5,3) h1(2)])
  from deep_copier.copy_rep [OF assms(2) h1(1) this] obtain g2' h2 where
    c2: "copy2 g2 h1 = Some (g2', h2)" "copied rep2 h1 h2 g2' v2" by blast
  then have h2: "heap_ok h2" "extends h1 h2" by (simp_all add: copied_def)
  show thesis
    by (rule that [OF c1(1) c2(1) deep_copier.copied_later [OF assms(1) c1(2) h2]
          deep_copier.copied_earlier [OF assms(2) h1(2) c2(2)]])
qed

lemma pair_copier:
  assumes "deep_copier copy1 rep1" "deep_copier copy2 rep2"
  shows "deep_copier (copy_pair copy1 copy2) (rep_pair rep1 rep2)"
proof
  show "rep_pair rep1 rep2 h' g v A" if "rep_pair rep1 rep2 h g v A" "\<And>a. a \<in> A \<Longrightarrow> gh_mem h' a = gh_mem h a"
    for h g v A h'
    using that deep_copier.rep_frame [OF assms(1)] deep_copier.rep_frame [OF assms(2)]
    unfolding rep_pair_def by (metis UnCI)
  show "gh_mem h a \<noteq> None" if "rep_pair rep1 rep2 h g v A" "a \<in> A" for h g v A a
    using that deep_copier.rep_alloc [OF assms(1)] deep_copier.rep_alloc [OF assms(2)]
    unfolding rep_pair_def by (metis UnE)
  fix h g v A
  assume h: "heap_ok h" and "rep_pair rep1 rep2 h g v A"
  then obtain A1 A2 where "rep1 h (fst g) (fst v) A1" "rep2 h (snd g) (snd v) A2" by (auto simp: rep_pair_def)
  from copied_pair [OF assms h this] obtain g1' h1 g2' h2 where
    c: "copy1 (fst g) h = Some (g1', h1)" "copy2 (snd g) h1 = Some (g2', h2)"
    "copied rep1 h h2 g1' (fst v)" "copied rep2 h h2 g2' (snd v)" .
  then obtain B1 B2 where "heap_ok h2" "extends h h2" "rep1 h2 g1' (fst v) B1" "rep2 h2 g2' (snd v) B2"
    "B1 \<union> B2 \<subseteq> {gh_next h ..< gh_next h2}" by (auto simp: copied_def)
  then have "copied (rep_pair rep1 rep2) h h2 (g1', g2') v" by (auto simp: copied_def rep_pair_def)
  with c(1,2) show "\<exists>g' h'. copy_pair copy1 copy2 g h = Some (g', h') \<and> copied (rep_pair rep1 rep2) h h' g' v"
    by (auto simp: copy_pair_def)
qed

text \<open>A struct \<open>s\<close> whose fields \<open>get s\<close> are copied and put back.\<close>

lemma struct_copier:
  assumes "deep_copier copy rep"
    and into: "\<And>s h. into s h = Option.bind (copy (get s) h) (\<lambda>(g, h'). Some (put s g, h'))"
    and rep': "\<And>h s v A. rep' h s v A \<longleftrightarrow> plain s v \<and> rep h (get s) (vget v) A"
    and get_put: "\<And>s g. get (put s g) = g" "\<And>s g v. plain (put s g) v = plain s v"
  shows "deep_copier into rep'"
proof
  show "rep' h' s v A" if "rep' h s v A" "\<And>a. a \<in> A \<Longrightarrow> gh_mem h' a = gh_mem h a" for h s v A h'
    using that deep_copier.rep_frame [OF assms(1)] by (auto simp: rep')
  show "gh_mem h a \<noteq> None" if "rep' h s v A" "a \<in> A" for h s v A a
    using that deep_copier.rep_alloc [OF assms(1)] unfolding rep' by blast
  fix h s v A
  assume h: "heap_ok h" and s: "rep' h s v A"
  then have "rep h (get s) (vget v) A" by (simp add: rep')
  from deep_copier.copy_rep [OF assms(1) h this] obtain g' h' where
    c: "copy (get s) h = Some (g', h')" "copied rep h h' g' (vget v)" by blast
  then have "copied rep' h h' (put s g') v" using s by (simp add: copied_def rep' get_put)
  with c(1) show "\<exists>s' h'. into s h = Some (s', h') \<and> copied rep' h h' s' v" by (simp add: into)
qed

text \<open>Another view of the value that is stood for.\<close>

lemma view_copier:
  assumes "deep_copier copy rep"
  shows "deep_copier copy (\<lambda>h g v A. \<exists>w. rep h g w A \<and> v = f w)"
proof
  fix h g v A
  assume h: "heap_ok h" and "\<exists>w. rep h g w A \<and> v = f w"
  then obtain w where w: "rep h g w A" "v = f w" by blast
  from deep_copier.copy_rep [OF assms h w(1)]
  show "\<exists>g' h'. copy g h = Some (g', h') \<and> copied (\<lambda>h g v A. \<exists>w. rep h g w A \<and> v = f w) h h' g' v"
    unfolding copied_def w(2) by blast
qed (use deep_copier.rep_frame [OF assms] deep_copier.rep_alloc [OF assms] in blast)+

end
