(* ===== verification/Deep_Copy.thy ===== *)
theory Deep_Copy
  imports Go_Heap Api_Types
begin

text \<open>
  api/v1alpha1/zz_generated.deepcopy.go: the deep copies of the API types, over the memory of
  theory Go_Heap. Here the types are as Go has them, with pointers, slices and maps; elsewhere in
  the development an API object is its value, and what these functions guarantee is that this is
  right: who holds a deep copy may change it and nobody else sees it.

  A \<open>DeepCopyInto\<close> overwrites all of \<open>*out\<close>, so it is a function from the struct \<open>*in\<close> to the struct
  \<open>*out\<close>; \<open>None\<close> is a panic. The deep copies of ObjectMeta, ListMeta and Condition are code of
  apimachinery: their types are the parameter \<open>'k\<close>, their functions the record \<open>k8s_copy\<close>.
\<close>

section \<open>The types in memory\<close>

record hNetBoxPrefixReference =
  hr_ID :: "loc option"
  hr_CIDR :: string
  hr_VRFID :: "loc option"
  hr_Gateway :: string

record hNetBoxMetadata =
  hm_TenantID :: "loc option"
  hm_VRFID :: "loc option"
  hm_DNSName :: string
  hm_Tags :: "slice option"
  hm_CustomFields :: "loc option"

record hNetBoxIPPoolSpec =
  hs_ClusterName :: string
  hs_ConnectionSecretRef :: NamespacedSecretReference
  hs_Prefixes :: "slice option"
  hs_MetadataDefaults :: hNetBoxMetadata
  hs_OwnershipTag :: string
  hs_ClaimUIDCustomField :: string
  hs_IPAddressStatus :: string
  hs_Gateway :: string
  hs_GatewayCustomField :: string

record hNetBoxIPPoolStatus =
  ht_ObservedGeneration :: int64
  ht_Addresses :: "loc option"
  ht_ResolvedPrefixes :: "slice option"
  ht_ResolvedPrefixDetails :: "slice option"
  ht_Conditions :: "slice option"

record hGlobalNetBoxIPPoolSpec =
  hg_inline :: hNetBoxIPPoolSpec

record 'k hNetBoxIPPool =
  hp_TypeMeta :: gvk
  hp_ObjectMeta :: 'k
  hp_Spec :: hNetBoxIPPoolSpec
  hp_Status :: hNetBoxIPPoolStatus

record 'k hGlobalNetBoxIPPool =
  hq_TypeMeta :: gvk
  hq_ObjectMeta :: 'k
  hq_Spec :: hGlobalNetBoxIPPoolSpec
  hq_Status :: hNetBoxIPPoolStatus

record 'k hPoolList =
  hl_TypeMeta :: gvk
  hl_ListMeta :: 'k
  hl_Items :: "slice option"

text \<open>What a cell holds, by its Go type; both list types have the shape \<open>hPoolList\<close>.\<close>

datatype 'k cell =
  ZeroCell
| Int32Cell int32
| StringCell string
| MapCell str_map
| ConditionCell 'k
| SecretRefCell NamespacedSecretReference
| PrefixRefCell hNetBoxPrefixReference
| MetadataCell hNetBoxMetadata
| AddressesCell NetBoxPoolStatusAddresses
| ResolvedCell ResolvedPrefix
| SpecCell hNetBoxIPPoolSpec
| StatusCell hNetBoxIPPoolStatus
| GlobalSpecCell hGlobalNetBoxIPPoolSpec
| PoolCell "'k hNetBoxIPPool"
| GlobalPoolCell "'k hGlobalNetBoxIPPool"
| PoolListCell "'k hPoolList"
| GlobalPoolListCell "'k hPoolList"

type_synonym 'k memory = "'k cell gheap"

type_synonym ('k, 'g) copier = "'g \<Rightarrow> 'k memory \<Rightarrow> ('g \<times> 'k memory) option"

text \<open>How a load reads a cell: \<open>un_cell\<close> inverts one constructor.\<close>

definition un_Int32 :: "'k cell \<Rightarrow> int32 option" where
  "un_Int32 c = (case c of Int32Cell x \<Rightarrow> Some x | _ \<Rightarrow> None)"
definition un_String :: "'k cell \<Rightarrow> string option" where
  "un_String c = (case c of StringCell x \<Rightarrow> Some x | _ \<Rightarrow> None)"
definition un_Map :: "'k cell \<Rightarrow> str_map option" where
  "un_Map c = (case c of MapCell x \<Rightarrow> Some x | _ \<Rightarrow> None)"
definition un_Condition :: "'k cell \<Rightarrow> 'k option" where
  "un_Condition c = (case c of ConditionCell x \<Rightarrow> Some x | _ \<Rightarrow> None)"
definition un_SecretRef :: "'k cell \<Rightarrow> NamespacedSecretReference option" where
  "un_SecretRef c = (case c of SecretRefCell x \<Rightarrow> Some x | _ \<Rightarrow> None)"
definition un_PrefixRef :: "'k cell \<Rightarrow> hNetBoxPrefixReference option" where
  "un_PrefixRef c = (case c of PrefixRefCell x \<Rightarrow> Some x | _ \<Rightarrow> None)"
definition un_Metadata :: "'k cell \<Rightarrow> hNetBoxMetadata option" where
  "un_Metadata c = (case c of MetadataCell x \<Rightarrow> Some x | _ \<Rightarrow> None)"
definition un_Addresses :: "'k cell \<Rightarrow> NetBoxPoolStatusAddresses option" where
  "un_Addresses c = (case c of AddressesCell x \<Rightarrow> Some x | _ \<Rightarrow> None)"
definition un_Resolved :: "'k cell \<Rightarrow> ResolvedPrefix option" where
  "un_Resolved c = (case c of ResolvedCell x \<Rightarrow> Some x | _ \<Rightarrow> None)"
definition un_Spec :: "'k cell \<Rightarrow> hNetBoxIPPoolSpec option" where
  "un_Spec c = (case c of SpecCell x \<Rightarrow> Some x | _ \<Rightarrow> None)"
definition un_Status :: "'k cell \<Rightarrow> hNetBoxIPPoolStatus option" where
  "un_Status c = (case c of StatusCell x \<Rightarrow> Some x | _ \<Rightarrow> None)"
definition un_GlobalSpec :: "'k cell \<Rightarrow> hGlobalNetBoxIPPoolSpec option" where
  "un_GlobalSpec c = (case c of GlobalSpecCell x \<Rightarrow> Some x | _ \<Rightarrow> None)"
definition un_Pool :: "'k cell \<Rightarrow> 'k hNetBoxIPPool option" where
  "un_Pool c = (case c of PoolCell x \<Rightarrow> Some x | _ \<Rightarrow> None)"
definition un_GlobalPool :: "'k cell \<Rightarrow> 'k hGlobalNetBoxIPPool option" where
  "un_GlobalPool c = (case c of GlobalPoolCell x \<Rightarrow> Some x | _ \<Rightarrow> None)"
definition un_PoolList :: "'k cell \<Rightarrow> 'k hPoolList option" where
  "un_PoolList c = (case c of PoolListCell x \<Rightarrow> Some x | _ \<Rightarrow> None)"
definition un_GlobalPoolList :: "'k cell \<Rightarrow> 'k hPoolList option" where
  "un_GlobalPoolList c = (case c of GlobalPoolListCell x \<Rightarrow> Some x | _ \<Rightarrow> None)"

lemmas un_defs = un_Int32_def un_String_def un_Map_def un_Condition_def un_SecretRef_def un_PrefixRef_def
  un_Metadata_def un_Addresses_def un_Resolved_def un_Spec_def un_Status_def un_GlobalSpec_def un_Pool_def
  un_GlobalPool_def un_PoolList_def un_GlobalPoolList_def

text \<open>The deep copies of apimachinery.\<close>

record 'k k8s_copy =
  ObjectMeta_DeepCopyInto :: "('k, 'k) copier"
  ListMeta_DeepCopyInto :: "('k, 'k) copier"
  Condition_DeepCopyInto :: "('k, 'k) copier"

section \<open>Parts\<close>

text \<open>\<open>*out = new(int32); **out = **in\<close>.\<close>

definition copy_int32 :: "('k, loc option) copier" where
  "copy_int32 = copy_pointer ZeroCell un_Int32 Int32Cell copy_plain"

text \<open>\<open>*out = make(map[string]string, len( *in))\<close> and the loop that inserts every key.\<close>

definition range_copy :: "('k, str_map) copier" where
  "range_copy m h = Some (foldl (\<lambda>out (key, val). AList.update key val out) [] m, h)"

definition copy_map :: "('k, loc option) copier" where
  "copy_map = copy_pointer (MapCell []) un_Map MapCell range_copy"

definition NamespacedSecretReference_DeepCopyInto :: "('k, NamespacedSecretReference) copier" where
  "NamespacedSecretReference_DeepCopyInto s h = Some (s, h)"

definition NamespacedSecretReference_DeepCopy :: "('k, loc option) copier" where
  "NamespacedSecretReference_DeepCopy =
     copy_pointer ZeroCell un_SecretRef SecretRefCell NamespacedSecretReference_DeepCopyInto"

definition NetBoxPoolStatusAddresses_DeepCopyInto :: "('k, NetBoxPoolStatusAddresses) copier" where
  "NetBoxPoolStatusAddresses_DeepCopyInto s h = Some (s, h)"

definition NetBoxPoolStatusAddresses_DeepCopy :: "('k, loc option) copier" where
  "NetBoxPoolStatusAddresses_DeepCopy =
     copy_pointer ZeroCell un_Addresses AddressesCell NetBoxPoolStatusAddresses_DeepCopyInto"

definition ResolvedPrefix_DeepCopyInto :: "('k, ResolvedPrefix) copier" where
  "ResolvedPrefix_DeepCopyInto s h = Some (s, h)"

definition ResolvedPrefix_DeepCopy :: "('k, loc option) copier" where
  "ResolvedPrefix_DeepCopy = copy_pointer ZeroCell un_Resolved ResolvedCell ResolvedPrefix_DeepCopyInto"

definition NetBoxPrefixReference_DeepCopyInto :: "('k, hNetBoxPrefixReference) copier" where
  "NetBoxPrefixReference_DeepCopyInto s h = do {
     (i, h1) \<leftarrow> copy_int32 (hr_ID s) h;
     (v, h2) \<leftarrow> copy_int32 (hr_VRFID s) h1;
     Some (s\<lparr>hr_ID := i, hr_VRFID := v\<rparr>, h2)
   }"

definition NetBoxPrefixReference_DeepCopy :: "('k, loc option) copier" where
  "NetBoxPrefixReference_DeepCopy =
     copy_pointer ZeroCell un_PrefixRef PrefixRefCell NetBoxPrefixReference_DeepCopyInto"

definition NetBoxMetadata_DeepCopyInto :: "('k, hNetBoxMetadata) copier" where
  "NetBoxMetadata_DeepCopyInto s h = do {
     (t, h1) \<leftarrow> copy_int32 (hm_TenantID s) h;
     (v, h2) \<leftarrow> copy_int32 (hm_VRFID s) h1;
     (tags, h3) \<leftarrow> copy_slice ZeroCell un_String StringCell copy_plain (hm_Tags s) h2;
     (cf, h4) \<leftarrow> copy_map (hm_CustomFields s) h3;
     Some (s\<lparr>hm_TenantID := t, hm_VRFID := v, hm_Tags := tags, hm_CustomFields := cf\<rparr>, h4)
   }"

definition NetBoxMetadata_DeepCopy :: "('k, loc option) copier" where
  "NetBoxMetadata_DeepCopy = copy_pointer ZeroCell un_Metadata MetadataCell NetBoxMetadata_DeepCopyInto"

section \<open>Spec and status\<close>

definition NetBoxIPPoolSpec_DeepCopyInto :: "('k, hNetBoxIPPoolSpec) copier" where
  "NetBoxIPPoolSpec_DeepCopyInto s h = do {
     (ps, h1) \<leftarrow> copy_slice ZeroCell un_PrefixRef PrefixRefCell NetBoxPrefixReference_DeepCopyInto (hs_Prefixes s) h;
     (md, h2) \<leftarrow> NetBoxMetadata_DeepCopyInto (hs_MetadataDefaults s) h1;
     Some (s\<lparr>hs_Prefixes := ps, hs_MetadataDefaults := md\<rparr>, h2)
   }"

definition NetBoxIPPoolSpec_DeepCopy :: "('k, loc option) copier" where
  "NetBoxIPPoolSpec_DeepCopy = copy_pointer ZeroCell un_Spec SpecCell NetBoxIPPoolSpec_DeepCopyInto"

definition GlobalNetBoxIPPoolSpec_DeepCopyInto :: "('k, hGlobalNetBoxIPPoolSpec) copier" where
  "GlobalNetBoxIPPoolSpec_DeepCopyInto s h = do {
     (spec, h1) \<leftarrow> NetBoxIPPoolSpec_DeepCopyInto (hg_inline s) h;
     Some (s\<lparr>hg_inline := spec\<rparr>, h1)
   }"

definition GlobalNetBoxIPPoolSpec_DeepCopy :: "('k, loc option) copier" where
  "GlobalNetBoxIPPoolSpec_DeepCopy =
     copy_pointer ZeroCell un_GlobalSpec GlobalSpecCell GlobalNetBoxIPPoolSpec_DeepCopyInto"

definition NetBoxIPPoolStatus_DeepCopyInto :: "'k k8s_copy \<Rightarrow> ('k, hNetBoxIPPoolStatus) copier" where
  "NetBoxIPPoolStatus_DeepCopyInto K s h = do {
     (ad, h1) \<leftarrow> copy_pointer ZeroCell un_Addresses AddressesCell copy_plain (ht_Addresses s) h;
     (rp, h2) \<leftarrow> copy_slice ZeroCell un_Int32 Int32Cell copy_plain (ht_ResolvedPrefixes s) h1;
     (rd, h3) \<leftarrow> copy_slice ZeroCell un_Resolved ResolvedCell copy_plain (ht_ResolvedPrefixDetails s) h2;
     (co, h4) \<leftarrow> copy_slice ZeroCell un_Condition ConditionCell (Condition_DeepCopyInto K) (ht_Conditions s) h3;
     Some (s\<lparr>ht_Addresses := ad, ht_ResolvedPrefixes := rp, ht_ResolvedPrefixDetails := rd, ht_Conditions := co\<rparr>, h4)
   }"

definition NetBoxIPPoolStatus_DeepCopy :: "'k k8s_copy \<Rightarrow> ('k, loc option) copier" where
  "NetBoxIPPoolStatus_DeepCopy K = copy_pointer ZeroCell un_Status StatusCell (NetBoxIPPoolStatus_DeepCopyInto K)"

section \<open>Pools and lists of pools\<close>

definition NetBoxIPPool_DeepCopyInto :: "'k k8s_copy \<Rightarrow> ('k, 'k hNetBoxIPPool) copier" where
  "NetBoxIPPool_DeepCopyInto K s h = do {
     (om, h1) \<leftarrow> ObjectMeta_DeepCopyInto K (hp_ObjectMeta s) h;
     (spec, h2) \<leftarrow> NetBoxIPPoolSpec_DeepCopyInto (hp_Spec s) h1;
     (status, h3) \<leftarrow> NetBoxIPPoolStatus_DeepCopyInto K (hp_Status s) h2;
     Some (s\<lparr>hp_ObjectMeta := om, hp_Spec := spec, hp_Status := status\<rparr>, h3)
   }"

definition NetBoxIPPool_DeepCopy :: "'k k8s_copy \<Rightarrow> ('k, loc option) copier" where
  "NetBoxIPPool_DeepCopy K = copy_pointer ZeroCell un_Pool PoolCell (NetBoxIPPool_DeepCopyInto K)"

definition NetBoxIPPoolList_DeepCopyInto :: "'k k8s_copy \<Rightarrow> ('k, 'k hPoolList) copier" where
  "NetBoxIPPoolList_DeepCopyInto K s h = do {
     (lm, h1) \<leftarrow> ListMeta_DeepCopyInto K (hl_ListMeta s) h;
     (items, h2) \<leftarrow> copy_slice ZeroCell un_Pool PoolCell (NetBoxIPPool_DeepCopyInto K) (hl_Items s) h1;
     Some (s\<lparr>hl_ListMeta := lm, hl_Items := items\<rparr>, h2)
   }"

definition NetBoxIPPoolList_DeepCopy :: "'k k8s_copy \<Rightarrow> ('k, loc option) copier" where
  "NetBoxIPPoolList_DeepCopy K = copy_pointer ZeroCell un_PoolList PoolListCell (NetBoxIPPoolList_DeepCopyInto K)"

definition GlobalNetBoxIPPool_DeepCopyInto :: "'k k8s_copy \<Rightarrow> ('k, 'k hGlobalNetBoxIPPool) copier" where
  "GlobalNetBoxIPPool_DeepCopyInto K s h = do {
     (om, h1) \<leftarrow> ObjectMeta_DeepCopyInto K (hq_ObjectMeta s) h;
     (spec, h2) \<leftarrow> GlobalNetBoxIPPoolSpec_DeepCopyInto (hq_Spec s) h1;
     (status, h3) \<leftarrow> NetBoxIPPoolStatus_DeepCopyInto K (hq_Status s) h2;
     Some (s\<lparr>hq_ObjectMeta := om, hq_Spec := spec, hq_Status := status\<rparr>, h3)
   }"

definition GlobalNetBoxIPPool_DeepCopy :: "'k k8s_copy \<Rightarrow> ('k, loc option) copier" where
  "GlobalNetBoxIPPool_DeepCopy K =
     copy_pointer ZeroCell un_GlobalPool GlobalPoolCell (GlobalNetBoxIPPool_DeepCopyInto K)"

definition GlobalNetBoxIPPoolList_DeepCopyInto :: "'k k8s_copy \<Rightarrow> ('k, 'k hPoolList) copier" where
  "GlobalNetBoxIPPoolList_DeepCopyInto K s h = do {
     (lm, h1) \<leftarrow> ListMeta_DeepCopyInto K (hl_ListMeta s) h;
     (items, h2) \<leftarrow> copy_slice ZeroCell un_GlobalPool GlobalPoolCell (GlobalNetBoxIPPool_DeepCopyInto K) (hl_Items s) h1;
     Some (s\<lparr>hl_ListMeta := lm, hl_Items := items\<rparr>, h2)
   }"

definition GlobalNetBoxIPPoolList_DeepCopy :: "'k k8s_copy \<Rightarrow> ('k, loc option) copier" where
  "GlobalNetBoxIPPoolList_DeepCopy K =
     copy_pointer ZeroCell un_GlobalPoolList GlobalPoolListCell (GlobalNetBoxIPPoolList_DeepCopyInto K)"

text \<open>\<open>runtime.Object\<close>: nil, or a pointer with its dynamic type; the pointer could be nil itself.\<close>

datatype runtime_object =
  PoolPtr "loc option"
| PoolListPtr "loc option"
| GlobalPoolPtr "loc option"
| GlobalPoolListPtr "loc option"

definition object_of :: "(loc option \<Rightarrow> runtime_object) \<Rightarrow> (loc option \<times> 'k memory) option \<Rightarrow>
    (runtime_object option \<times> 'k memory) option" where
  "object_of ptr r = do {
     (c, h) \<leftarrow> r;
     Some (if c \<noteq> None then Some (ptr c) else None, h)
   }"

definition NetBoxIPPool_DeepCopyObject ::
  "'k k8s_copy \<Rightarrow> loc option \<Rightarrow> 'k memory \<Rightarrow> (runtime_object option \<times> 'k memory) option" where
  "NetBoxIPPool_DeepCopyObject K p h = object_of PoolPtr (NetBoxIPPool_DeepCopy K p h)"

definition NetBoxIPPoolList_DeepCopyObject ::
  "'k k8s_copy \<Rightarrow> loc option \<Rightarrow> 'k memory \<Rightarrow> (runtime_object option \<times> 'k memory) option" where
  "NetBoxIPPoolList_DeepCopyObject K p h = object_of PoolListPtr (NetBoxIPPoolList_DeepCopy K p h)"

definition GlobalNetBoxIPPool_DeepCopyObject ::
  "'k k8s_copy \<Rightarrow> loc option \<Rightarrow> 'k memory \<Rightarrow> (runtime_object option \<times> 'k memory) option" where
  "GlobalNetBoxIPPool_DeepCopyObject K p h = object_of GlobalPoolPtr (GlobalNetBoxIPPool_DeepCopy K p h)"

definition GlobalNetBoxIPPoolList_DeepCopyObject ::
  "'k k8s_copy \<Rightarrow> loc option \<Rightarrow> 'k memory \<Rightarrow> (runtime_object option \<times> 'k memory) option" where
  "GlobalNetBoxIPPoolList_DeepCopyObject K p h = object_of GlobalPoolListPtr (GlobalNetBoxIPPoolList_DeepCopy K p h)"

end
