(* ===== verification/Deep_Copy_Properties.thy ===== *)
theory Deep_Copy_Properties
  imports Deep_Copy
begin

text \<open>
  The generated deep copies keep the contract \<open>deep_copier\<close>: for every API type, the relation
  between a Go value in memory and the value the rest of the development works with, and its
  interpretation; the types that contain ObjectMeta, ListMeta or conditions keep it when the copies
  of apimachinery do.
\<close>

section \<open>Cells\<close>

lemma un_cell [simp]:
  "un_Int32 (Int32Cell i) = Some i" "un_String (StringCell s) = Some s" "un_Map (MapCell m) = Some m"
  "un_Condition (ConditionCell c) = Some c" "un_PrefixRef (PrefixRefCell p) = Some p"
  "un_Addresses (AddressesCell a) = Some a" "un_Resolved (ResolvedCell r) = Some r"
  "un_Pool (PoolCell q) = Some q" "un_GlobalPool (GlobalPoolCell g) = Some g"
  "un_PoolList (PoolListCell l) = Some l" "un_GlobalPoolList (GlobalPoolListCell l) = Some l"
  by (simp_all add: un_defs)

section \<open>Parts\<close>

type_synonym ('k, 'g, 'v) stands_for = "'k memory \<Rightarrow> 'g \<Rightarrow> 'v \<Rightarrow> loc set \<Rightarrow> bool"

definition rep_int32 :: "('k, loc option, int32 option) stands_for" where
  "rep_int32 = rep_pointer un_Int32 rep_plain"

interpretation int32: deep_copier copy_int32 rep_int32
  unfolding copy_int32_def rep_int32_def by (rule pointer_copier [OF plain_copier]) simp

definition rep_entries :: "('k, str_map, str_map) stands_for" where
  "rep_entries h g v A \<longleftrightarrow> distinct (map fst g) \<and> g = v \<and> A = {}"

text \<open>A nil map and an empty map stand for the empty list of entries.\<close>

definition rep_map :: "('k, loc option, str_map) stands_for" where
  "rep_map h p v A \<longleftrightarrow> (\<exists>w. rep_pointer un_Map rep_entries h p w A \<and> v = (case w of None \<Rightarrow> [] | Some m \<Rightarrow> m))"

lemma update_new: "k \<notin> fst ` set m \<Longrightarrow> AList.update k v m = m @ [(k, v)]"
  by (induction m) auto

lemma range_copy_same: "distinct (map fst m) \<Longrightarrow> range_copy m h = Some (m, h)"
proof -
  have "distinct (map fst (acc @ m)) \<Longrightarrow> foldl (\<lambda>out (key, val). AList.update key val out) acc m = acc @ m" for acc
  proof (induction m arbitrary: acc)
    case (Cons e m)
    then show ?case by (cases e) (auto simp: update_new)
  qed simp
  from this [of "[]"] show "distinct (map fst m) \<Longrightarrow> range_copy m h = Some (m, h)" by (simp add: range_copy_def)
qed

lemma entries_copier: "deep_copier range_copy rep_entries"
proof
  fix h :: "'k memory" and g v A
  assume "heap_ok h" "rep_entries h g v A"
  then show "\<exists>g' h'. range_copy g h = Some (g', h') \<and> copied rep_entries h h' g' v"
    using copied_self [of h rep_entries g v] by (auto simp: rep_entries_def range_copy_same)
qed (auto simp: rep_entries_def)

interpretation string_map: deep_copier copy_map rep_map
  using view_copier [OF pointer_copier [OF entries_copier, where un = un_Map and mk = MapCell and zero = "MapCell []"]]
  unfolding copy_map_def rep_map_def [abs_def] by simp

definition rep_strings :: "('k, slice option, string list) stands_for" where
  "rep_strings = rep_slice un_String rep_plain"

interpretation strings: deep_copier "copy_slice ZeroCell un_String StringCell copy_plain" rep_strings
  unfolding rep_strings_def by (rule slice_copier [OF plain_copier]) simp

definition rep_int32s :: "('k, slice option, int32 list) stands_for" where
  "rep_int32s = rep_slice un_Int32 rep_plain"

interpretation int32s: deep_copier "copy_slice ZeroCell un_Int32 Int32Cell copy_plain" rep_int32s
  unfolding rep_int32s_def by (rule slice_copier [OF plain_copier]) simp

definition rep_addresses :: "('k, loc option, NetBoxPoolStatusAddresses option) stands_for" where
  "rep_addresses = rep_pointer un_Addresses rep_plain"

interpretation addresses: deep_copier "copy_pointer ZeroCell un_Addresses AddressesCell copy_plain" rep_addresses
  unfolding rep_addresses_def by (rule pointer_copier [OF plain_copier]) simp

definition rep_details :: "('k, slice option, ResolvedPrefix list) stands_for" where
  "rep_details = rep_slice un_Resolved rep_plain"

interpretation details: deep_copier "copy_slice ZeroCell un_Resolved ResolvedCell copy_plain" rep_details
  unfolding rep_details_def by (rule slice_copier [OF plain_copier]) simp

section \<open>Structs\<close>

definition rep_prefix_ref :: "('k, hNetBoxPrefixReference, NetBoxPrefixReference) stands_for" where
  "rep_prefix_ref h s v A \<longleftrightarrow>
     (hr_CIDR s = pr_CIDR v \<and> hr_Gateway s = pr_Gateway v) \<and>
     rep_pair rep_int32 rep_int32 h (hr_ID s, hr_VRFID s) (pr_ID v, pr_VRFID v) A"

interpretation prefix_ref: deep_copier NetBoxPrefixReference_DeepCopyInto rep_prefix_ref
  by (rule struct_copier [OF pair_copier [OF int32.deep_copier_axioms int32.deep_copier_axioms] _ rep_prefix_ref_def,
        where put = "\<lambda>s g. s\<lparr>hr_ID := fst g, hr_VRFID := snd g\<rparr>"])
     (auto simp: NetBoxPrefixReference_DeepCopyInto_def copy_pair_def bind_eq_None_conv split: bind_split)

definition rep_metadata :: "('k, hNetBoxMetadata, NetBoxMetadata) stands_for" where
  "rep_metadata h s v A \<longleftrightarrow>
     hm_DNSName s = md_DNSName v \<and>
     rep_pair rep_int32 (rep_pair rep_int32 (rep_pair rep_strings rep_map)) h
       (hm_TenantID s, hm_VRFID s, hm_Tags s, hm_CustomFields s)
       (md_TenantID v, md_VRFID v, md_Tags v, md_CustomFields v) A"

interpretation metadata: deep_copier NetBoxMetadata_DeepCopyInto rep_metadata
  by (rule struct_copier [OF pair_copier [OF int32.deep_copier_axioms pair_copier [OF int32.deep_copier_axioms
          pair_copier [OF strings.deep_copier_axioms string_map.deep_copier_axioms]]] _ rep_metadata_def,
        where put = "\<lambda>s (t, v, tags, cf). s\<lparr>hm_TenantID := t, hm_VRFID := v, hm_Tags := tags, hm_CustomFields := cf\<rparr>"])
     (auto simp: NetBoxMetadata_DeepCopyInto_def copy_pair_def split: bind_split)

definition rep_prefix_refs :: "('k, slice option, NetBoxPrefixReference list) stands_for" where
  "rep_prefix_refs = rep_slice un_PrefixRef rep_prefix_ref"

interpretation prefix_refs:
  deep_copier "copy_slice ZeroCell un_PrefixRef PrefixRefCell NetBoxPrefixReference_DeepCopyInto" rep_prefix_refs
  unfolding rep_prefix_refs_def by (rule slice_copier [OF prefix_ref.deep_copier_axioms]) simp

definition rep_spec :: "('k, hNetBoxIPPoolSpec, NetBoxIPPoolSpec) stands_for" where
  "rep_spec h s v A \<longleftrightarrow>
     (hs_ClusterName s = ps_ClusterName v \<and> hs_ConnectionSecretRef s = ps_ConnectionSecretRef v \<and>
      hs_OwnershipTag s = ps_OwnershipTag v \<and> hs_ClaimUIDCustomField s = ps_ClaimUIDCustomField v \<and>
      hs_IPAddressStatus s = ps_IPAddressStatus v \<and> hs_Gateway s = ps_Gateway v \<and>
      hs_GatewayCustomField s = ps_GatewayCustomField v) \<and>
     rep_pair rep_prefix_refs rep_metadata h (hs_Prefixes s, hs_MetadataDefaults s) (ps_Prefixes v, ps_MetadataDefaults v) A"

interpretation spec: deep_copier NetBoxIPPoolSpec_DeepCopyInto rep_spec
  by (rule struct_copier [OF pair_copier [OF prefix_refs.deep_copier_axioms metadata.deep_copier_axioms] _ rep_spec_def,
        where put = "\<lambda>s g. s\<lparr>hs_Prefixes := fst g, hs_MetadataDefaults := snd g\<rparr>"])
     (auto simp: NetBoxIPPoolSpec_DeepCopyInto_def copy_pair_def split: bind_split)

definition rep_global_spec :: "('k, hGlobalNetBoxIPPoolSpec, GlobalNetBoxIPPoolSpec) stands_for" where
  "rep_global_spec h s v A \<longleftrightarrow> True \<and> rep_spec h (hg_inline s) (gs_inline v) A"

interpretation global_spec: deep_copier GlobalNetBoxIPPoolSpec_DeepCopyInto rep_global_spec
  by (rule struct_copier [OF spec.deep_copier_axioms _ rep_global_spec_def, where put = "\<lambda>s g. s\<lparr>hg_inline := g\<rparr>"])
     (auto simp: GlobalNetBoxIPPoolSpec_DeepCopyInto_def)

definition rep_status :: "('k, 'k, condition) stands_for \<Rightarrow> ('k, hNetBoxIPPoolStatus, NetBoxIPPoolStatus) stands_for" where
  "rep_status rc h s v A \<longleftrightarrow>
     ht_ObservedGeneration s = st_ObservedGeneration v \<and>
     rep_pair rep_addresses (rep_pair rep_int32s (rep_pair rep_details (rep_slice un_Condition rc))) h
       (ht_Addresses s, ht_ResolvedPrefixes s, ht_ResolvedPrefixDetails s, ht_Conditions s)
       (st_Addresses v, st_ResolvedPrefixes v, st_ResolvedPrefixDetails v, st_Conditions v) A"

lemma status_copier:
  assumes "deep_copier (Condition_DeepCopyInto K) rc"
  shows "deep_copier (NetBoxIPPoolStatus_DeepCopyInto K) (rep_status rc)"
proof -
  have "deep_copier (copy_slice ZeroCell un_Condition ConditionCell (Condition_DeepCopyInto K)) (rep_slice un_Condition rc)"
    by (rule slice_copier [OF assms]) simp
  then show ?thesis
    by (rule struct_copier [OF pair_copier [OF addresses.deep_copier_axioms pair_copier [OF int32s.deep_copier_axioms
            pair_copier [OF details.deep_copier_axioms]]] _ rep_status_def,
          where put = "\<lambda>s (ad, rp, rd, co). s\<lparr>ht_Addresses := ad, ht_ResolvedPrefixes := rp,
            ht_ResolvedPrefixDetails := rd, ht_Conditions := co\<rparr>"])
       (auto simp: NetBoxIPPoolStatus_DeepCopyInto_def copy_pair_def split: bind_split)
qed

section \<open>Pools\<close>

definition rep_pool ::
  "('k, 'k, object_meta) stands_for \<Rightarrow> ('k, 'k, condition) stands_for \<Rightarrow> ('k, 'k hNetBoxIPPool, NetBoxIPPool) stands_for" where
  "rep_pool rm rc h s v A \<longleftrightarrow>
     hp_TypeMeta s = np_gvk v \<and>
     rep_pair rm (rep_pair rep_spec (rep_status rc)) h
       (hp_ObjectMeta s, hp_Spec s, hp_Status s) (np_meta v, np_Spec v, np_Status v) A"

lemma pool_copier:
  assumes "deep_copier (ObjectMeta_DeepCopyInto K) rm" "deep_copier (Condition_DeepCopyInto K) rc"
  shows "deep_copier (NetBoxIPPool_DeepCopyInto K) (rep_pool rm rc)"
  by (rule struct_copier [OF pair_copier [OF assms(1) pair_copier [OF spec.deep_copier_axioms status_copier [OF assms(2)]]]
        _ rep_pool_def, where put = "\<lambda>s (om, sp, st). s\<lparr>hp_ObjectMeta := om, hp_Spec := sp, hp_Status := st\<rparr>"])
     (auto simp: NetBoxIPPool_DeepCopyInto_def copy_pair_def split: bind_split)

definition rep_global_pool ::
  "('k, 'k, object_meta) stands_for \<Rightarrow> ('k, 'k, condition) stands_for \<Rightarrow> ('k, 'k hGlobalNetBoxIPPool, GlobalNetBoxIPPool) stands_for" where
  "rep_global_pool rm rc h s v A \<longleftrightarrow>
     hq_TypeMeta s = gp_gvk v \<and>
     rep_pair rm (rep_pair rep_global_spec (rep_status rc)) h
       (hq_ObjectMeta s, hq_Spec s, hq_Status s) (gp_meta v, gp_Spec v, gp_Status v) A"

lemma global_pool_copier:
  assumes "deep_copier (ObjectMeta_DeepCopyInto K) rm" "deep_copier (Condition_DeepCopyInto K) rc"
  shows "deep_copier (GlobalNetBoxIPPool_DeepCopyInto K) (rep_global_pool rm rc)"
  by (rule struct_copier [OF pair_copier [OF assms(1) pair_copier [OF global_spec.deep_copier_axioms status_copier [OF assms(2)]]]
        _ rep_global_pool_def, where put = "\<lambda>s (om, sp, st). s\<lparr>hq_ObjectMeta := om, hq_Spec := sp, hq_Status := st\<rparr>"])
     (auto simp: GlobalNetBoxIPPool_DeepCopyInto_def copy_pair_def split: bind_split)

text \<open>A list stands for its metadata and the list of its pools.\<close>

definition rep_pool_list ::
  "('k cell \<Rightarrow> 'g option) \<Rightarrow> ('k, 'k, 'l) stands_for \<Rightarrow> ('k, 'g, 'v) stands_for \<Rightarrow> ('k, 'k hPoolList, gvk \<times> 'l \<times> 'v list) stands_for" where
  "rep_pool_list un rl rp h s v A \<longleftrightarrow>
     hl_TypeMeta s = fst v \<and> rep_pair rl (rep_slice un rp) h (hl_ListMeta s, hl_Items s) (snd v) A"

lemma pool_list_copier:
  assumes "deep_copier (ListMeta_DeepCopyInto K) rl" "deep_copier (NetBoxIPPool_DeepCopyInto K) rp"
  shows "deep_copier (NetBoxIPPoolList_DeepCopyInto K) (rep_pool_list un_Pool rl rp)"
proof -
  have "deep_copier (copy_slice ZeroCell un_Pool PoolCell (NetBoxIPPool_DeepCopyInto K)) (rep_slice un_Pool rp)"
    by (rule slice_copier [OF assms(2)]) simp
  then show ?thesis
    by (rule struct_copier [OF pair_copier [OF assms(1)] _ rep_pool_list_def,
          where put = "\<lambda>s g. s\<lparr>hl_ListMeta := fst g, hl_Items := snd g\<rparr>"])
       (auto simp: NetBoxIPPoolList_DeepCopyInto_def copy_pair_def split: bind_split)
qed

lemma global_pool_list_copier:
  assumes "deep_copier (ListMeta_DeepCopyInto K) rl" "deep_copier (GlobalNetBoxIPPool_DeepCopyInto K) rp"
  shows "deep_copier (GlobalNetBoxIPPoolList_DeepCopyInto K) (rep_pool_list un_GlobalPool rl rp)"
proof -
  have "deep_copier (copy_slice ZeroCell un_GlobalPool GlobalPoolCell (GlobalNetBoxIPPool_DeepCopyInto K)) (rep_slice un_GlobalPool rp)"
    by (rule slice_copier [OF assms(2)]) simp
  then show ?thesis
    by (rule struct_copier [OF pair_copier [OF assms(1)] _ rep_pool_list_def,
          where put = "\<lambda>s g. s\<lparr>hl_ListMeta := fst g, hl_Items := snd g\<rparr>"])
       (auto simp: GlobalNetBoxIPPoolList_DeepCopyInto_def copy_pair_def split: bind_split)
qed

section \<open>The property\<close>

text \<open>C25: a deep copy shares nothing with its original. When the deep copies of apimachinery are
  deep, then so are those of a NetBoxIPPool, a GlobalNetBoxIPPool and their lists: the copy of a
  pointer stands for the same pool or list, down to the values behind the pointers, slices and maps
  of spec and status, and whatever is written afterwards to the cells of the one, the other stands
  for the same value as before. A nil pointer gives nil.\<close>

theorem deep_copies_independent:
  assumes "deep_copier (ObjectMeta_DeepCopyInto K) rm" "deep_copier (ListMeta_DeepCopyInto K) rl"
    and "deep_copier (Condition_DeepCopyInto K) rc"
  shows "copies_apart (NetBoxIPPool_DeepCopy K) (rep_pointer un_Pool (rep_pool rm rc)) \<and>
    copies_apart (GlobalNetBoxIPPool_DeepCopy K) (rep_pointer un_GlobalPool (rep_global_pool rm rc)) \<and>
    copies_apart (NetBoxIPPoolList_DeepCopy K) (rep_pointer un_PoolList (rep_pool_list un_Pool rl (rep_pool rm rc))) \<and>
    copies_apart (GlobalNetBoxIPPoolList_DeepCopy K)
      (rep_pointer un_GlobalPoolList (rep_pool_list un_GlobalPool rl (rep_global_pool rm rc)))"
proof -
  note pools = pool_copier [OF assms(1,3)] global_pool_copier [OF assms(1,3)]
  note lists = pool_list_copier [OF assms(2) pools(1)] global_pool_list_copier [OF assms(2) pools(2)]
  show ?thesis
    unfolding NetBoxIPPool_DeepCopy_def GlobalNetBoxIPPool_DeepCopy_def NetBoxIPPoolList_DeepCopy_def
      GlobalNetBoxIPPoolList_DeepCopy_def
    by (intro conjI deep_copier.independent pointer_copier pools lists) simp_all
qed

text \<open>A pool with one prefix whose ID is behind a pointer, and with labels, in a memory where ObjectMeta
  is a pointer to the labels.\<close>

definition sample_copy :: "loc option k8s_copy" where
  "sample_copy = \<lparr>ObjectMeta_DeepCopyInto = copy_map, ListMeta_DeepCopyInto = copy_plain, Condition_DeepCopyInto = copy_plain\<rparr>"

definition labels_meta :: "str_map \<Rightarrow> object_meta" where
  "labels_meta m = empty_meta\<lparr>om_Labels := m\<rparr>"

definition rep_labels :: "(loc option, loc option, object_meta) stands_for" where
  "rep_labels h g v A \<longleftrightarrow> (\<exists>m. rep_map h g m A \<and> v = labels_meta m)"

definition rep_no_condition :: "(loc option, loc option, condition) stands_for" where
  "rep_no_condition h g v A \<longleftrightarrow> False"

definition memory_pool :: "loc option hNetBoxIPPool" where
  "memory_pool =
     \<lparr>hp_TypeMeta = \<lparr>gvk_Group = [], gvk_Version = [], gvk_Kind = []\<rparr>, hp_ObjectMeta = Some 3,
      hp_Spec = \<lparr>hs_ClusterName = [], hs_ConnectionSecretRef = \<lparr>sr_Name = ''s'', sr_Namespace = []\<rparr>,
        hs_Prefixes = Some \<lparr>sl_base = 1, sl_len = 1\<rparr>,
        hs_MetadataDefaults = \<lparr>hm_TenantID = None, hm_VRFID = None, hm_DNSName = [], hm_Tags = None, hm_CustomFields = None\<rparr>,
        hs_OwnershipTag = [], hs_ClaimUIDCustomField = [], hs_IPAddressStatus = [], hs_Gateway = [], hs_GatewayCustomField = []\<rparr>,
      hp_Status = \<lparr>ht_ObservedGeneration = 1, ht_Addresses = None, ht_ResolvedPrefixes = None,
        ht_ResolvedPrefixDetails = None, ht_Conditions = None\<rparr>\<rparr>"

definition value_pool :: NetBoxIPPool where
  "value_pool =
     \<lparr>np_gvk = \<lparr>gvk_Group = [], gvk_Version = [], gvk_Kind = []\<rparr>, np_meta = labels_meta [(''a'', ''b'')],
      np_Spec = \<lparr>ps_ClusterName = [], ps_ConnectionSecretRef = \<lparr>sr_Name = ''s'', sr_Namespace = []\<rparr>,
        ps_Prefixes = [\<lparr>pr_ID = Some 7, pr_CIDR = [], pr_VRFID = None, pr_Gateway = []\<rparr>],
        ps_MetadataDefaults = \<lparr>md_TenantID = None, md_VRFID = None, md_DNSName = [], md_Tags = [], md_CustomFields = []\<rparr>,
        ps_OwnershipTag = [], ps_ClaimUIDCustomField = [], ps_IPAddressStatus = [], ps_Gateway = [], ps_GatewayCustomField = []\<rparr>,
      np_Status = \<lparr>st_ObservedGeneration = 1, st_Addresses = None, st_ResolvedPrefixes = [],
        st_ResolvedPrefixDetails = [], st_Conditions = []\<rparr>\<rparr>"

definition sample_memory :: "loc option memory" where
  "sample_memory = \<lparr>gh_mem = [0 \<mapsto> PoolCell memory_pool,
     1 \<mapsto> PrefixRefCell \<lparr>hr_ID = Some 2, hr_CIDR = [], hr_VRFID = None, hr_Gateway = []\<rparr>,
     2 \<mapsto> Int32Cell 7, 3 \<mapsto> MapCell [(''a'', ''b'')]], gh_next = 4\<rparr>"

lemma sample_copiers:
  "deep_copier (ObjectMeta_DeepCopyInto sample_copy) rep_labels"
  "deep_copier (ListMeta_DeepCopyInto sample_copy) rep_plain"
  "deep_copier (Condition_DeepCopyInto sample_copy) rep_no_condition"
proof -
  show "deep_copier (ObjectMeta_DeepCopyInto sample_copy) rep_labels"
    using view_copier [OF string_map.deep_copier_axioms, of labels_meta]
    by (simp add: sample_copy_def rep_labels_def [abs_def])
  show "deep_copier (ListMeta_DeepCopyInto sample_copy) rep_plain"
    by (simp add: sample_copy_def plain_copier)
  show "deep_copier (Condition_DeepCopyInto sample_copy) rep_no_condition"
    by unfold_locales (simp_all add: rep_no_condition_def)
qed

lemma sample_loads:
  "go_load un_Pool 0 sample_memory = Some memory_pool"
  "go_load un_PrefixRef 1 sample_memory = Some \<lparr>hr_ID = Some 2, hr_CIDR = [], hr_VRFID = None, hr_Gateway = []\<rparr>"
  "go_load un_Int32 2 sample_memory = Some 7" "go_load un_Map 3 sample_memory = Some [(''a'', ''b'')]"
  by (simp_all add: go_load_def sample_memory_def)

lemma rep_pairI:
  "rep1 h g1 v1 A1 \<Longrightarrow> rep2 h g2 v2 A2 \<Longrightarrow> rep_pair rep1 rep2 h (g1, g2) (v1, v2) (A1 \<union> A2)"
  by (auto simp: rep_pair_def)

lemma rep_nil:
  "rep_map h None v A \<longleftrightarrow> v = [] \<and> A = {}" "rep_int32 h None w A \<longleftrightarrow> w = None \<and> A = {}"
  "rep_strings h None v' A \<longleftrightarrow> v' = [] \<and> A = {}" "rep_addresses h None w' A \<longleftrightarrow> w' = None \<and> A = {}"
  "rep_int32s h None is A \<longleftrightarrow> is = [] \<and> A = {}" "rep_details h None ds A \<longleftrightarrow> ds = [] \<and> A = {}"
  "rep_slice un rep h None vs A \<longleftrightarrow> vs = [] \<and> A = {}"
  by (auto simp: rep_map_def rep_int32_def rep_strings_def rep_addresses_def rep_int32s_def rep_details_def
      rep_pointer_def rep_slice_def split: option.splits)

lemma sample_stands:
  "rep_pointer un_Pool (rep_pool rep_labels rep_no_condition) sample_memory (Some 0) (Some value_pool) {0, 1, 2, 3}"
proof -
  have labels: "rep_labels sample_memory (Some 3) (labels_meta [(''a'', ''b'')]) {3}"
    by (auto simp: rep_labels_def rep_map_def rep_pointer_def rep_cell_def rep_entries_def sample_loads
        intro!: exI [of _ "[(''a'', ''b'')]"] exI [of _ "Some [(''a'', ''b'')]"])
  have "rep_int32 sample_memory (Some 2) (Some 7) {2}"
    by (simp add: rep_int32_def rep_pointer_def rep_cell_def rep_plain_def sample_loads)
  then have "rep_prefix_ref sample_memory \<lparr>hr_ID = Some 2, hr_CIDR = [], hr_VRFID = None, hr_Gateway = []\<rparr>
      \<lparr>pr_ID = Some 7, pr_CIDR = [], pr_VRFID = None, pr_Gateway = []\<rparr> {2}"
    by (simp add: rep_prefix_ref_def rep_pair_def rep_nil)
  then have "rep_prefix_refs sample_memory (Some \<lparr>sl_base = 1, sl_len = 1\<rparr>)
      [\<lparr>pr_ID = Some 7, pr_CIDR = [], pr_VRFID = None, pr_Gateway = []\<rparr>] {1, 2}"
    by (auto simp: rep_prefix_refs_def rep_slice_def rep_cell_def sample_loads [simplified])
  then have spec: "rep_spec sample_memory (hp_Spec memory_pool) (np_Spec value_pool) {1, 2}"
    by (simp add: rep_spec_def memory_pool_def value_pool_def rep_pair_def rep_metadata_def rep_nil)
  have status: "rep_status rep_no_condition sample_memory (hp_Status memory_pool) (np_Status value_pool) {}"
    by (simp add: rep_status_def memory_pool_def value_pool_def rep_pair_def rep_nil)
  have "rep_pool rep_labels rep_no_condition sample_memory memory_pool value_pool ({3} \<union> ({1, 2} \<union> {}))"
    unfolding rep_pool_def
  proof
    have "hp_ObjectMeta memory_pool = Some 3" "np_meta value_pool = labels_meta [(''a'', ''b'')]"
      by (simp_all add: memory_pool_def value_pool_def)
    with labels have "rep_labels sample_memory (hp_ObjectMeta memory_pool) (np_meta value_pool) {3}" by simp
    with spec status show "rep_pair rep_labels (rep_pair rep_spec (rep_status rep_no_condition)) sample_memory
        (hp_ObjectMeta memory_pool, hp_Spec memory_pool, hp_Status memory_pool)
        (np_meta value_pool, np_Spec value_pool, np_Status value_pool) ({3} \<union> ({1, 2} \<union> {}))"
      by (intro rep_pairI)
  qed (simp add: memory_pool_def value_pool_def)
  then have "rep_cell un_Pool (rep_pool rep_labels rep_no_condition) sample_memory 0 value_pool (insert 0 ({3} \<union> ({1, 2} \<union> {})))"
    unfolding rep_cell_def using sample_loads(1) by blast
  moreover have "insert 0 ({3} \<union> ({1, 2} \<union> {})) = {0, 1, 2, 3 :: nat}" by auto
  ultimately show ?thesis by (simp add: rep_pointer_def)
qed

theorem deep_copies_independent_witness:
  "\<exists>q h' B. NetBoxIPPool_DeepCopy sample_copy (Some 0) sample_memory = Some (Some q, h') \<and>
     rep_pointer un_Pool (rep_pool rep_labels rep_no_condition) (h'\<lparr>gh_mem := (gh_mem h')(2 \<mapsto> Int32Cell 8)\<rparr>)
       (Some q) (Some value_pool) B"
proof -
  have ok: "heap_ok sample_memory" by (simp add: heap_ok_def sample_memory_def)
  from deep_copies_independent [OF sample_copiers] ok sample_stands obtain p h' B where
    c: "NetBoxIPPool_DeepCopy sample_copy (Some 0) sample_memory = Some (p, h')"
    and rep: "\<forall>h''. (\<forall>a. a \<notin> {0, 1, 2, 3} \<longrightarrow> gh_mem h'' a = gh_mem h' a) \<longrightarrow>
      rep_pointer un_Pool (rep_pool rep_labels rep_no_condition) h'' p (Some value_pool) B"
    unfolding copies_apart_def by meson
  have "rep_pointer un_Pool (rep_pool rep_labels rep_no_condition) (h'\<lparr>gh_mem := (gh_mem h')(2 \<mapsto> Int32Cell 8)\<rparr>) p (Some value_pool) B"
    using rep by simp
  moreover from this obtain q where "p = Some q" by (auto simp: rep_pointer_def split: option.splits)
  ultimately show ?thesis using c by blast
qed

text \<open>A deep copy of a nil pointer is the nil object, never an object that holds a nil pointer.\<close>

lemma copy_pointer_nil:
  "copy_pointer zero un mk copy p h = Some (q, h') \<Longrightarrow> q = None \<longleftrightarrow> p = None"
  by (auto simp: copy_pointer_def split: option.splits prod.splits bind_splits)

lemma deep_copy_object_nil:
  assumes "NetBoxIPPool_DeepCopyObject K p h = Some (r, h')"
  shows "if p = None then r = None else \<exists>q. r = Some (PoolPtr (Some q))"
  using assms copy_pointer_nil
  unfolding NetBoxIPPool_DeepCopyObject_def object_of_def NetBoxIPPool_DeepCopy_def
  by (fastforce split: bind_splits if_splits)

end
