(* ===== verification/Convergence.thy ===== *)
theory Convergence
  imports Store_Properties
begin

text \<open>
  That the claim loop reaches its goal: against the store of \<open>Netbox_Store\<close>, in whatever state earlier
  reconciles and crashes have left it, one reconcile with a working Kubernetes binds an address.
\<close>

section \<open>A working Kubernetes\<close>









section \<open>EnsureAddress against the store\<close>






section \<open>The reconcile\<close>




definition pool_read :: "IPAddressClaim \<Rightarrow> any_pool \<Rightarrow> event" where
  "pool_read claim P =
     (case P of
        NamespacedPool p \<Rightarrow> EGetPool (om_Namespace (cl_meta claim)) (plr_Name (cl_PoolRef claim))
      | GlobalPool g \<Rightarrow> EGetGlobalPool (plr_Name (cl_PoolRef claim)))"

lemma pool_read_kinds [simp]: "\<not> is_http (pool_read claim P)"
  by (cases P) (simp_all add: pool_read_def is_http_def)













end
