(* ===== verification/Release_Convergence.thy ===== *)
theory Release_Convergence
  imports Convergence
begin

text \<open>
  The other end of the life of a claim: one reconcile of a deleted claim takes exactly its own record
  out of the store of \<open>Netbox_Store\<close>, deletes its IPAddress object and lets the claim go.
\<close>

section \<open>IDs of records\<close>








section \<open>The release\<close>

text \<open>Events that the store does not notice.\<close>

definition idle :: "event \<Rightarrow> bool" where
  "idle ev \<longleftrightarrow> \<not> is_http ev \<or> ev = query_request"

lemma idle_simps [simp]: "\<not> is_http ev \<Longrightarrow> idle ev" "idle query_request" "idle (EPatchClaim c d)" "idle (EDeleteAddress ns n)"
  "idle (EPatchAddress a a')" "idle (EGetAddress ns n)" "idle (EGetClaim ns n)" "idle (ENewPatchHelper n)"
  by (simp_all add: idle_def is_http_def)








section \<open>The reconcile\<close>







end
