(* ===== verification/Concurrency.thy ===== *)
theory Concurrency
  imports Store_Properties
begin

text \<open>
  Reconciles with others at work: between any two requests of a reconcile the store of
  \<open>Netbox_Store\<close> may change, through reconciles of other claims, other replicas of the program or
  people. As long as nobody else allocates for a claim, it never has two records; two replicas
  that reconcile the same claim at the same time can give it two.
\<close>

section \<open>One record per claim\<close>




text \<open>Others who act once, after the own history \<open>a\<close>.\<close>

definition once :: "hist \<Rightarrow> hist \<Rightarrow> hist \<Rightarrow> hist" where
  "once a w h = (if h = a then w else [])"

lemma seen_before: "length h < length a \<Longrightarrow> seen (once a w) h = h"
proof (induction h rule: rev_induct)
  case Nil
  then show ?case by (cases a) (simp_all add: seen_def once_def)
next
  case (snoc ev h)
  then show ?case by (auto simp: seen_snoc once_def)
qed

lemma seen_once: "seen (once a w) (a @ t) = a @ w @ t"
proof (induction t rule: rev_induct)
  case Nil
  show ?case
  proof (cases a rule: rev_cases)
    case (snoc b ev)
    then have "seen (once a w) b = b" by (intro seen_before) simp
    then show ?thesis by (simp add: snoc seen_snoc) (simp add: once_def)
  qed (simp add: seen_def once_def)
next
  case (snoc ev t)
  have "once a w (a @ t @ [ev]) = []" by (simp add: once_def)
  with snoc show ?case using seen_snoc [of "once a w" "a @ t" ev] by simp
qed

section \<open>Two replicas\<close>

text \<open>A reconcile of the claim of \<open>claim_env\<close> up to its allocation.\<close>

definition before_allocation :: hist where
  "before_allocation = [EGetClaim ''ns'' ''c'', ENewPatchHelper ''c'', EGetPool ''ns'' ''p'',
     EFetchAddress ''ns'' ''c'', EGetSecret ''ns'' ''s'', query_request]"

definition two_addresses :: "string list" where "two_addresses = [''10.0.0.5'', ''10.0.0.6'']"

lemmas race_eval = store_eval shared_adapter_def

lemma second_replica:
  "\<exists>t c. Reconcile (claim_env False) silent (netbox_adapter (claim_env False)
      (shared_adapter two_addresses (once [] before_allocation))) ''ns'' ''c'' [] =
      Some ((no_requeue, None), before_allocation @ lease_request ''u1'' 5 # t) \<and>
    EPatchClaim (sample_claim False) c \<in> set t \<and> map co_Status (cl_Conditions c) = [ConditionTrue] \<and>
    records two_addresses (before_allocation @ before_allocation @ lease_request ''u1'' 5 # t) =
      [\<lparr>nr_ID = 1, nr_Address = ''10.0.0.5'', nr_UID = ''u1''\<rparr>] \<and>
    fst (store two_addresses (before_allocation @ before_allocation @ lease_request ''u1'' 5 # t)) = 1"
  using seen_once [of "[]" before_allocation, simplified]
  by (simp add: race_eval before_allocation_def two_addresses_def put_condition_def)

text \<open>The other replica, in whose world the IPAddress object exists by the time it is to be written.\<close>

definition late_env :: env where
  "late_env = (claim_env False)\<lparr>write_address := (\<lambda>h old new. Inl (OtherErr ''AlreadyExists''))\<rparr>"

lemma first_replica:
  assumes "records two_addresses (before_allocation @ w) = [\<lparr>nr_ID = 1, nr_Address = ''10.0.0.5'', nr_UID = ''u1''\<rparr>]"
    "fst (store two_addresses (before_allocation @ w)) = 1"
  shows "\<exists>t e. Reconcile late_env silent (netbox_adapter late_env
      (shared_adapter two_addresses (once before_allocation w))) ''ns'' ''c'' [] =
      Some ((no_requeue, Some e), before_allocation @ lease_request ''u1'' 5 # t) \<and>
    map nr_UID (records two_addresses (before_allocation @ w @ lease_request ''u1'' 5 # t)) = [''u1'', ''u1'']"
  using assms seen_once [of before_allocation w "[]"]
    seen_before [of "[EGetClaim ''ns'' ''c'', ENewPatchHelper ''c'', EGetPool ''ns'' ''p'',
      EFetchAddress ''ns'' ''c'', EGetSecret ''ns'' ''s'']" before_allocation w]
  by (simp add: race_eval late_env_def two_addresses_def before_allocation_def)

text \<open>The assumption is needed. Two replicas, which the manager allows unless it is started with
  \<open>--leader-elect\<close>, reconcile one claim: the first stops between its lookup and its allocation, the second
  runs to its end and makes the claim Ready, then the first allocates again. Its write of the IPAddress
  object fails, but NetBox has two records of the claim.\<close>

theorem two_replicas_allocate_twice:
  "\<exists>hA hB e c.
     Reconcile late_env silent (netbox_adapter late_env
       (shared_adapter two_addresses (once before_allocation hB))) ''ns'' ''c'' [] = Some ((no_requeue, Some e), hA) \<and>
     Reconcile (claim_env False) silent (netbox_adapter (claim_env False)
       (shared_adapter two_addresses (once [] before_allocation))) ''ns'' ''c'' [] = Some ((no_requeue, None), hB) \<and>
     (\<exists>rest. hA = before_allocation @ rest \<and> seen (once before_allocation hB) hA = before_allocation @ hB @ rest) \<and>
     EPatchClaim (sample_claim False) c \<in> set hB \<and> map co_Status (cl_Conditions c) = [ConditionTrue] \<and>
     map nr_UID (records two_addresses (seen (once before_allocation hB) hA)) = [''u1'', ''u1'']"
proof -
  obtain t c where B: "Reconcile (claim_env False) silent (netbox_adapter (claim_env False)
      (shared_adapter two_addresses (once [] before_allocation))) ''ns'' ''c'' [] =
      Some ((no_requeue, None), before_allocation @ lease_request ''u1'' 5 # t)"
    "EPatchClaim (sample_claim False) c \<in> set t" "map co_Status (cl_Conditions c) = [ConditionTrue]"
    and r: "records two_addresses (before_allocation @ before_allocation @ lease_request ''u1'' 5 # t) =
      [\<lparr>nr_ID = 1, nr_Address = ''10.0.0.5'', nr_UID = ''u1''\<rparr>]"
      "fst (store two_addresses (before_allocation @ before_allocation @ lease_request ''u1'' 5 # t)) = 1"
    using second_replica by (elim exE conjE) (rule that)
  define hB where "hB = before_allocation @ lease_request ''u1'' 5 # t"
  from first_replica [OF r [folded hB_def]] obtain v e where A: "Reconcile late_env silent (netbox_adapter late_env
      (shared_adapter two_addresses (once before_allocation hB))) ''ns'' ''c'' [] =
      Some ((no_requeue, Some e), before_allocation @ lease_request ''u1'' 5 # v)"
    "map nr_UID (records two_addresses (before_allocation @ hB @ lease_request ''u1'' 5 # v)) = [''u1'', ''u1'']"
    by (elim exE conjE) (rule that)
  have "seen (once before_allocation hB) (before_allocation @ lease_request ''u1'' 5 # v) =
      before_allocation @ hB @ lease_request ''u1'' 5 # v" by (rule seen_once)
  moreover have "EPatchClaim (sample_claim False) c \<in> set hB" using B(2) by (simp add: hB_def)
  ultimately show ?thesis using A B(1,3) unfolding hB_def [symmetric] by metis
qed

section \<open>A claim among others\<close>




end
