(* ===== verification/Spec2Isabelle.thy ===== *)
theory Spec2Isabelle
  imports Store_Properties Totality Tag_Filter Resource_Properties Manager_Properties
    Deep_Copy_Properties Release_Convergence Concurrency
begin

text \<open>
  A model of cluster-api-ipam-provider-netbox, a Cluster API IPAM provider that allocates IP
  addresses in NetBox, with the theorems that make it correct.

  \<^bold>\<open>The program.\<close> An \<open>IPAddressClaim\<close> asks for an address from a pool, a \<open>NetBoxIPPool\<close> of its
  namespace or a \<open>GlobalNetBoxIPPool\<close>. The claim reconciler (pkg/ipamutil/reconciler.go) drives a
  claim through its life over the interface \<open>ClaimHandler\<close>; the NetBox handler
  (internal/controller/ipaddressclaim_controller.go) implements it: it looks up the record with the
  UID of the claim in NetBox, allocates a new one from the prefixes of the pool if there is none,
  and deletes it when the claim goes. The pool reconcilers (internal/controller/pool_controller.go)
  resolve the prefixes of a pool and their gateways into its status and keep a pool from being
  deleted while it has addresses. Both use the REST client of internal/netbox/client.go.
  cmd/main.go wires them into one manager. The state lives outside the program, in Kubernetes and
  in NetBox; in between the program keeps nothing.

  \<^bold>\<open>How the model is made.\<close> Everything outside src/ is the record \<open>env\<close> of theory World: HTTP, the
  Kubernetes client, the helpers of controller-runtime and Cluster API. An operation has the type
  \<open>hist \<Rightarrow> ('a \<times> hist) option\<close>: it reads the history of all calls made so far and appends its own,
  and every answer of the \<open>env\<close> is a function of that history, so a theorem about all \<open>env\<close>s
  covers every server, other clients, failures at any call and answers that change. \<open>None\<close> is a
  panic, or a call that does not return (a pagination that never ends). Go errors are the datatype
  \<open>err\<close>, with the chain that errors.As and errors.Is walk; objects mutated through pointers are
  passed and returned, as values: nobody else sees a change, because whoever changes an object holds
  a deep copy of it (Deep_Copy_Properties shows that those of the API types share nothing); the
  deferred patch of a reconcile compares what was read with what is returned. int32 and int64 are
  words, time.Duration is a number of nanoseconds, strings are their bytes.

  \<^bold>\<open>The theories\<close> and what they model:
  Nbx_Prelude (options, histories, \<open>holds\<close>: a condition on what a call returns if it returns);
  Go_Strings, Go_Strconv, Go_Unicode, Go_Json, Go_Netip, Go_Url (the parts of the Go library the
  program uses: strings, strconv, UTF-8 and case, encoding/json into the program's types, net/netip,
  net/url) and Go_Url_Facts (round trips of query values, extended base URLs);
  Nbx_Errors (the errors, \<open>apiError\<close> and \<open>SanitizedError\<close> of client.go);
  Kube_Types and Api_Types (the objects; package api/v1alpha1 with its admission rules, the
  interface \<open>statusPool\<close> as locale \<open>status_pool\<close>);
  Netbox_Metadata (internal/netbox/annotations.go), Netbox_Gateway (gateway.go), Netbox_Config
  (config.go), Netbox_Client (client.go) and Netbox_Client_Facts (its contract, the locale
  \<open>netbox_client\<close>, interpreted by the HTTP client);
  Reconcile_Util (pkg/reconcileutil, pkg/predicates, internal/index, internal/version);
  Pool_Controller and Pool_Facts (pool_controller.go and the two pool reconcilers; the
  specification \<open>pool_reconciled\<close>, proved once in \<open>status_pool\<close> for both kinds);
  Ipam_Util and Claim_Reconciler (pkg/ipamutil), Claim_Handler (ipaddressclaim_controller.go),
  Claim_Handler_Facts (the contract \<open>claim_handler\<close>, interpreted by the NetBox handler) and
  Claim_Reconciler_Facts (the loop over any handler that keeps the contract);
  Netbox_Store (a NetBox as a table of records that is a function of the history, with crashes at
  any point as an inductive \<open>reachable\<close>, and with others whose events come between the own ones,
  \<open>seen\<close>);
  Manager_Main (cmd/main.go and the SetupWithManager methods);
  Go_Heap and Deep_Copy (the deep copies of zz_generated.deepcopy.go over a memory of cells, with the
  contract \<open>deep_copier\<close>, which Deep_Copy_Properties interprets for every API type).

  \<^bold>\<open>What the lemmas show.\<close> Claim_Properties: when an address is allocated and deleted, when
  finalizers go, what is written to a claim, what errors may carry. Store_Properties: over sequences
  of reconciles with crashes, no two records have the same claim UID; and two ways in which a
  retried release goes wrong. Concurrency: the same when others act between any two requests, except on
  that very claim, and what two replicas can do to one claim. Convergence and Release_Convergence: from every state such sequences
  leave, one undisturbed reconcile gives a waiting claim its one address, or takes exactly the record of
  a deleted claim away. Totality: every reconcile returns, proved for any handler in the
  locale \<open>responsive_handler\<close>. Tag_Filter: a retried allocation with an ownership tag that is not
  its own slug. Pool_Properties: the finalizer of a pool, its deletion, its resolution and the
  resolution it forgets. Netbox_Properties: the URLs of requests, pagination, prefix references,
  allocation and deletion requests and their answers. Metadata_Properties: comma separated lists, numbers, overrides, tag
  unions and slugs. Resource_Properties: the lookups, sanitized errors, gateways, counts, owner
  references, which Secrets a pool may read, and the refinement of \<open>pool_reconciled\<close>.
  Manager_Properties: the start-up, its exit codes and the request timeout.
  Deep_Copy_Properties: a deep copy stands for the same value in memory of its own.

  \<^bold>\<open>Termination.\<close> No fuel is used. \<open>listAll_loop\<close> is a partial function, because a server may link
  its pages in a circle; Netbox_Properties gives the condition under which it returns and what it
  returns then, and Totality lifts this to the reconcilers. Everything else is structural recursion;
  the wait for the cache in \<open>poll_visible\<close> runs as often as the \<open>env\<close> says that the poll tries
  before its timeout.

  \<^bold>\<open>Not modelled:\<close> log output, contexts and cancellation, the scheduling of the controllers
  (what others do meanwhile is the \<open>env\<close>, or in Concurrency an arbitrary function of the own history), the end-to-end tests, and the
  manifests under config/. Certificate parsing, the check of the host text of a URL, the Unicode tables beyond ASCII,
  pflag and controller-runtime are parameters.
\<close>

end
